(* ===== verification/Prelude.thy ===== *)
theory Prelude
  imports Main "HOL-Library.Word" "HOL-Library.Multiset" "HOL-Library.AList"
begin

text \<open>
  What every other theory of the development shares.

  \<^item> The hint collections: \<open>go_simps\<close> (equations of the small Go run-time layer),
    \<open>world_simps\<close> (reads of the world record after writes) and \<open>errors_simps\<close> (the
    chain walked by \<open>errors.Is\<close>).
  \<^item> Go's \<open>int\<close>: a 64-bit word that wraps, compared through \<open>sint\<close>. Lengths of slices are
    lists' lengths, read as mathematical integers.
  \<^item> Slice primitives with their run-time panics: indexing, slice expressions, and
    \<open>sort.Slice\<close> with its index-based less function.

  \<open>sort.Slice\<close> is modelled by the insertion sort that Go's standard library runs on slices
  of at most 12 elements (\<open>insertionSort_func\<close> in the package \<open>sort\<close>). For longer slices the
  library may order elements with equal keys differently; where keys are pairwise distinct,
  \<open>sort_key_unique\<close> shows that every correct sort returns the same slice.
\<close>

named_theorems go_simps
named_theorems world_simps
named_theorems errors_simps

section \<open>Go integers\<close>

type_synonym go_int = "64 word"

lemma sint_go_int_of_int:
  "- (2 ^ 63) \<le> i \<Longrightarrow> i < 2 ^ 63 \<Longrightarrow> sint (word_of_int i :: go_int) = i"
  by (simp add: sint_sbintrunc' signed_take_bit_int_eq_self)

lemma sint_go_int_of_nat: "n < 9223372036854775808 \<Longrightarrow> sint (word_of_nat n :: go_int) = int n"
  using sint_go_int_of_int [of "int n"] by simp

lemma sint_go_int_bounds: "- (2 ^ 63) \<le> sint (x :: go_int)" "sint (x :: go_int) < 2 ^ 63"
  using sint_ge [of x] sint_lt [of x] by simp_all

lemma go_int_add_exact:
  "- (2 ^ 63) \<le> sint x + sint y \<Longrightarrow> sint x + sint y < 2 ^ 63 \<Longrightarrow>
    sint (x + y :: go_int) = sint x + sint y"
  using sint_go_int_of_int [of "sint x + sint y"] by simp

lemma go_int_diff_exact:
  "- (2 ^ 63) \<le> sint x - sint y \<Longrightarrow> sint x - sint y < 2 ^ 63 \<Longrightarrow>
    sint (x - y :: go_int) = sint x - sint y"
  using sint_go_int_of_int [of "sint x - sint y"] by simp

lemma go_int_mult_exact:
  "- (2 ^ 63) \<le> sint x * sint y \<Longrightarrow> sint x * sint y < 2 ^ 63 \<Longrightarrow>
    sint (x * y :: go_int) = sint x * sint y"
  using sint_go_int_of_int [of "sint x * sint y"] by simp

section \<open>Lists\<close>

lemma list_all_None_filter: "(\<And>x. x \<in> set xs \<Longrightarrow> \<not> P x) \<Longrightarrow> filter P xs = []"
  by simp

lemma map_of_distinct_mem:
  "distinct (map fst xs) \<Longrightarrow> (k, v) \<in> set xs \<Longrightarrow> map_of xs k = Some v"
  by (rule map_of_is_SomeI)

lemma take_drop_pages: "take n (drop k xs) @ drop (k + n) xs = drop k xs"
  by (metis append_take_drop_id drop_drop add.commute)

section \<open>sort.Slice\<close>

definition slice_swap :: "nat \<Rightarrow> nat \<Rightarrow> 'a list \<Rightarrow> 'a list" where
  "slice_swap i j xs = xs[i := xs ! j, j := xs ! i]"

fun insertion_step :: "('a list \<Rightarrow> nat \<Rightarrow> nat \<Rightarrow> bool) \<Rightarrow> nat \<Rightarrow> 'a list \<Rightarrow> 'a list" where
  "insertion_step less_fn 0 xs = xs"
| "insertion_step less_fn (Suc j) xs =
     (if less_fn xs (Suc j) j then insertion_step less_fn j (slice_swap (Suc j) j xs) else xs)"

definition sort_slice :: "('a list \<Rightarrow> nat \<Rightarrow> nat \<Rightarrow> bool) \<Rightarrow> 'a list \<Rightarrow> 'a list" where
  "sort_slice less_fn xs = fold (insertion_step less_fn) [1..<length xs] xs"

lemma length_slice_swap [simp]: "length (slice_swap i j xs) = length xs"
  by (simp add: slice_swap_def)

lemma mset_slice_swap: "i < length xs \<Longrightarrow> j < length xs \<Longrightarrow> mset (slice_swap i j xs) = mset xs"
  unfolding slice_swap_def by (rule mset_swap)

lemma insertion_step_mset:
  "i < length xs \<Longrightarrow> length (insertion_step less_fn i xs) = length xs
    \<and> mset (insertion_step less_fn i xs) = mset xs"
  by (induction i arbitrary: xs) (simp_all add: mset_slice_swap)

lemma sort_slice_fold_mset:
  "(\<And>i. i \<in> set is \<Longrightarrow> i < length xs) \<Longrightarrow>
    length (fold (insertion_step less_fn) is xs) = length xs
    \<and> mset (fold (insertion_step less_fn) is xs) = mset xs"
  by (induction "is" arbitrary: xs) (simp_all add: insertion_step_mset)

text \<open>Whatever the less function answers, the result is a permutation.\<close>

lemma mset_sort_slice [simp]: "mset (sort_slice less_fn xs) = mset xs"
  using sort_slice_fold_mset [of "[1..<length xs]" xs less_fn] by (simp add: sort_slice_def)

lemma length_sort_slice [simp]: "length (sort_slice less_fn xs) = length xs"
  by (metis mset_sort_slice size_mset)

lemma set_sort_slice [simp]: "set (sort_slice less_fn xs) = set xs"
  by (metis mset_sort_slice set_mset_mset)

lemma distinct_sort_slice [simp]: "distinct (sort_slice less_fn xs) = distinct xs"
  by (metis mset_eq_imp_distinct_iff mset_sort_slice)

text \<open>With a less function that compares keys of the elements, the result is the stable sort.\<close>

fun insert_from_right :: "('a \<Rightarrow> 'k::linorder) \<Rightarrow> 'a \<Rightarrow> 'a list \<Rightarrow> 'a list" where
  "insert_from_right f x [] = [x]"
| "insert_from_right f x (y # ys) =
     (if f x < f y then y # insert_from_right f x ys else x # y # ys)"

abbreviation less_by :: "('a \<Rightarrow> 'k::linorder) \<Rightarrow> 'a list \<Rightarrow> nat \<Rightarrow> nat \<Rightarrow> bool" where
  "less_by f \<equiv> (\<lambda>ys i j. f (ys ! i) < f (ys ! j))"

lemma slice_swap_adjacent:
  "slice_swap (Suc (length p)) (length p) (p @ y # x # s) = p @ x # y # s"
  by (simp add: slice_swap_def list_update_append nth_append)

lemma insertion_step_less_by:
  "insertion_step (less_by f) (length ps) (rev ps @ x # s) = rev (insert_from_right f x ps) @ s"
proof (induction ps arbitrary: s)
  case Nil
  show ?case by simp
next
  case (Cons y ys)
  have nth: "(rev ys @ y # x # s) ! Suc (length ys) = x" "(rev ys @ y # x # s) ! length ys = y"
    by (simp_all add: nth_append)
  have "slice_swap (Suc (length ys)) (length ys) (rev ys @ y # x # s) = rev ys @ x # y # s"
    using slice_swap_adjacent [of "rev ys"] by simp
  with Cons.IH [of "y # s"] nth show ?case by simp
qed

lemma insert_from_right_mset: "mset (insert_from_right f x ps) = mset (x # ps)"
  by (induction ps) auto

lemma insert_from_right_sorted:
  "sorted (map f (rev ps)) \<Longrightarrow> sorted (map f (rev (insert_from_right f x ps)))"
proof (induction ps)
  case (Cons y ys)
  then have "\<forall>z \<in> set ys. f z \<le> f y" and IH: "sorted (map f (rev (insert_from_right f x ys)))"
    by (simp_all add: sorted_append)
  moreover have "set (insert_from_right f x ys) = insert x (set ys)"
    using insert_from_right_mset [of f x ys] by (metis set_mset_mset list.simps(15))
  ultimately show ?case using Cons.prems by (force simp: sorted_append)
qed simp

lemma insert_from_right_stable:
  "filter (\<lambda>z. k = f z) (rev (insert_from_right f x ps)) = filter (\<lambda>z. k = f z) (rev ps @ [x])"
  by (induction ps) auto

lemma sort_slice_prefix:
  assumes "1 \<le> k" "k \<le> length xs"
  shows "\<exists>ps. length ps = k \<and> mset ps = mset (take k xs) \<and> sorted (map f (rev ps))
    \<and> (\<forall>c. filter (\<lambda>z. c = f z) (rev ps) = filter (\<lambda>z. c = f z) (take k xs))
    \<and> fold (insertion_step (less_by f)) [1..<k] xs = rev ps @ drop k xs"
  using assms
proof (induction k rule: nat_induct_at_least)
  case base
  then have "take 1 xs = [hd xs]" by (cases xs) auto
  moreover have "xs = hd xs # drop 1 xs" using base by (cases xs) auto
  ultimately show ?case by (intro exI [of _ "[hd xs]"]) simp
next
  case (Suc k)
  then obtain ps where ps: "length ps = k" "mset ps = mset (take k xs)" "sorted (map f (rev ps))"
    "\<forall>c. filter (\<lambda>z. c = f z) (rev ps) = filter (\<lambda>z. c = f z) (take k xs)"
    "fold (insertion_step (less_by f)) [1..<k] xs = rev ps @ drop k xs" by auto
  have drop: "drop k xs = xs ! k # drop (Suc k) xs" and take: "take (Suc k) xs = take k xs @ [xs ! k]"
    using Suc.prems by (simp_all add: Cons_nth_drop_Suc take_Suc_conv_app_nth)
  let ?qs = "insert_from_right f (xs ! k) ps"
  have "fold (insertion_step (less_by f)) [1..<Suc k] xs = rev ?qs @ drop (Suc k) xs"
    using ps(1,5) drop insertion_step_less_by [of f ps "xs ! k" "drop (Suc k) xs"] Suc.hyps by simp
  moreover have "mset ?qs = mset (take (Suc k) xs)"
    using ps(2) take by (simp add: insert_from_right_mset)
  moreover from this have "length ?qs = Suc k"
    using Suc.prems by (metis length_take min.absorb2 size_mset)
  moreover have "sorted (map f (rev ?qs))" using ps(3) by (rule insert_from_right_sorted)
  moreover have "\<forall>c. filter (\<lambda>z. c = f z) (rev ?qs) = filter (\<lambda>z. c = f z) (take (Suc k) xs)"
    using ps(4) take by (simp add: insert_from_right_stable)
  ultimately show ?case by blast
qed

lemma sort_slice_less_by: "sort_slice (less_by f) xs = sort_key f xs"
proof (cases "xs = []")
  case True
  then show ?thesis by (simp add: sort_slice_def)
next
  case False
  then have "1 \<le> length xs" by (cases xs) auto
  then obtain ps where ps: "mset ps = mset xs" "sorted (map f (rev ps))"
    "\<forall>c. filter (\<lambda>z. c = f z) (rev ps) = filter (\<lambda>z. c = f z) xs" "sort_slice (less_by f) xs = rev ps"
    using sort_slice_prefix [of "length xs" xs f] by (auto simp: sort_slice_def)
  then have "sort_key f xs = rev ps"
    by (intro properties_for_sort_key) simp_all
  with ps show ?thesis by simp
qed

text \<open>Any sorted permutation is that result where the keys are pairwise distinct.\<close>

lemma filter_eq_singleton: "distinct zs \<Longrightarrow> k \<in> set zs \<Longrightarrow> filter (\<lambda>z. z = k) zs = [k]"
  by (induction zs) (auto simp: filter_empty_conv)

lemma sort_key_unique:
  assumes "mset ys = mset xs" "sorted (map f ys)" "distinct (map f xs)"
  shows "ys = sort_key f xs"
proof -
  have inj: "inj_on f (set xs)" using assms(3) by (simp add: distinct_map)
  have filt: "filter (\<lambda>z. f k = f z) zs = [k]"
    if "mset zs = mset xs" "k \<in> set xs" for zs k
  proof -
    have "k \<in> set zs" "distinct zs" "set zs = set xs"
      using that assms(3) by (metis set_mset_mset, metis distinct_map mset_eq_imp_distinct_iff,
        metis set_mset_mset)
    moreover from this have "\<forall>z \<in> set zs. (f k = f z) = (z = k)"
      using inj that(2) by (metis inj_onD)
    ultimately have "filter (\<lambda>z. f k = f z) zs = filter (\<lambda>z. z = k) zs"
      by (intro filter_cong) auto
    with \<open>distinct zs\<close> \<open>k \<in> set zs\<close> show ?thesis by (simp add: filter_eq_singleton)
  qed
  have "sort_key f xs = ys"
    using assms(1,2) filt by (intro properties_for_sort_key) (simp_all, metis set_mset_mset)
  then show ?thesis by simp
qed

end
