(* ===== verification/Errors.thy ===== *)
theory Errors
  imports Prelude
begin

text \<open>
  Go's errors and the ways a call can end.

  \<^item> \<open>go_error\<close>: the sentinel errors of the packages \<open>storage\<close> (storage/errors.go), \<open>api/v1\<close>,
    \<open>storage/notifier\<close> and \<open>app/v1\<close>, \<open>database/sql\<close>'s \<open>ErrNoRows\<close>, errors built on the spot
    (\<open>ErrText\<close>), errors that come from libraries (\<open>ErrExternal\<close>), and the two shapes of
    \<open>fmt.Errorf\<close> the program uses: \<open>"text: %w"\<close> (\<open>ErrWrap\<close>) and \<open>"%w: %v"\<close> (\<open>ErrWrapText\<close>).
  \<^item> \<open>errors_is\<close>: \<open>errors.Is\<close>, which follows the \<open>%w\<close> chain and not the \<open>%v\<close> text.
  \<^item> \<open>outcome\<close>: a value, an error (with the zero value, or with a value beside it as in
    \<open>return d, err\<close>), a run-time panic, or a loop that never returns.
  \<^item> \<open>handle\<close>: the idiom \<open>x, err := f(); if err != nil { ... }\<close>; panics and divergence
    propagate through it.
\<close>

datatype go_error =
    ErrRootWithParentDirectory
  | ErrNoRowsAffected
  | ErrDirectoryWithoutParent
  | ErrDirectoryNotFound
  | ErrReadOnly
  | ErrNoRootAccess
  | ErrParsingID
  | ErrNotifyFailed
  | ErrNoReconciler
  | ErrNoRows
  | ErrText string
  | ErrExternal string
  | ErrWrap string go_error
  | ErrWrapText go_error go_error

fun errors_is :: "go_error \<Rightarrow> go_error \<Rightarrow> bool" where
  "errors_is (ErrWrap s e) t = (ErrWrap s e = t \<or> errors_is e t)"
| "errors_is (ErrWrapText e e') t = (ErrWrapText e e' = t \<or> errors_is e t)"
| "errors_is e t = (e = t)"

fun error_text :: "go_error \<Rightarrow> string" where
  "error_text ErrRootWithParentDirectory = ''root directory cannot have parent directory''"
| "error_text ErrNoRowsAffected = ''no rows affected''"
| "error_text ErrDirectoryWithoutParent = ''directory must have a parent directory''"
| "error_text ErrDirectoryNotFound = ''directory not found''"
| "error_text ErrReadOnly = ''attempted write operation on read-only driver''"
| "error_text ErrNoRootAccess = ''attempted to access root directory without root access''"
| "error_text ErrParsingID = ''error parsing id''"
| "error_text ErrNotifyFailed = ''notification failed''"
| "error_text ErrNoReconciler = ''no reconciler provided''"
| "error_text ErrNoRows = ''sql: no rows in result set''"
| "error_text (ErrText s) = s"
| "error_text (ErrExternal s) = s"
| "error_text (ErrWrap s e) = s @ '': '' @ error_text e"
| "error_text (ErrWrapText e e') = error_text e @ '': '' @ error_text e'"

datatype 'a outcome =
    Ok 'a
  | Err go_error
  | ErrWith 'a go_error
  | Panic
  | Diverge

fun handle :: "'w \<times> 'a outcome \<Rightarrow> ('w \<Rightarrow> go_error \<Rightarrow> 'w \<times> 'b outcome)
    \<Rightarrow> ('w \<Rightarrow> 'a \<Rightarrow> 'w \<times> 'b outcome) \<Rightarrow> 'w \<times> 'b outcome" where
  "handle (w, Ok x) on_err on_ok = on_ok w x"
| "handle (w, Err e) on_err on_ok = on_err w e"
| "handle (w, ErrWith x e) on_err on_ok = on_err w e"
| "handle (w, Panic) on_err on_ok = (w, Panic)"
| "handle (w, Diverge) on_err on_ok = (w, Diverge)"

text \<open>The same idiom for a call without state.\<close>

fun and_then :: "'a outcome \<Rightarrow> ('a \<Rightarrow> 'b outcome) \<Rightarrow> 'b outcome" where
  "and_then (Ok x) k = k x"
| "and_then (Err e) k = Err e"
| "and_then (ErrWith x e) k = Err e"
| "and_then Panic k = Panic"
| "and_then Diverge k = Diverge"

section \<open>Slices: indexing and slice expressions\<close>

definition go_index :: "'a list \<Rightarrow> int \<Rightarrow> 'a outcome" where
  "go_index xs i = (if 0 \<le> i \<and> i < int (length xs) then Ok (xs ! nat i) else Panic)"

text \<open>
  \<open>xs[lo:hi]\<close>. The upper bound of Go is the capacity; every use in the program has clamped
  \<open>hi\<close> to the length first.
\<close>

definition slice_expr :: "'a list \<Rightarrow> int \<Rightarrow> int \<Rightarrow> 'a list outcome" where
  "slice_expr xs lo hi =
     (if 0 \<le> lo \<and> lo \<le> hi \<and> hi \<le> int (length xs)
      then Ok (take (nat hi - nat lo) (drop (nat lo) xs)) else Panic)"

text \<open>
  \<open>out := make([]T, n); for i := range out { out[i] = xs[off+i] }\<close>: \<open>make\<close> panics on a
  negative length, and the first index out of range panics.
\<close>

fun copy_loop :: "'a list \<Rightarrow> int \<Rightarrow> nat \<Rightarrow> 'a list outcome" where
  "copy_loop xs off 0 = Ok []"
| "copy_loop xs off (Suc n) =
     and_then (go_index xs off) (\<lambda>x. and_then (copy_loop xs (off + 1) n) (\<lambda>ys. Ok (x # ys)))"

definition make_and_copy :: "'a list \<Rightarrow> int \<Rightarrow> int \<Rightarrow> 'a list outcome" where
  "make_and_copy xs off n = (if n < 0 then Panic else copy_loop xs off (nat n))"

lemma copy_loop_in_range:
  "k + n \<le> length xs \<Longrightarrow> copy_loop xs (int k) n = Ok (take n (drop k xs))"
proof (induction n arbitrary: k)
  case (Suc n)
  then have "copy_loop xs (int (Suc k)) n = Ok (take n (drop (Suc k) xs))"
    by (intro Suc.IH) simp
  moreover have "go_index xs (int k) = Ok (xs ! k)" using Suc.prems by (simp add: go_index_def)
  moreover have "take (Suc n) (drop k xs) = xs ! k # take n (drop (Suc k) xs)"
    using Suc.prems by (simp add: Cons_nth_drop_Suc [symmetric])
  ultimately show ?case by (simp add: add.commute)
qed simp

lemma make_and_copy_in_range:
  "k + n \<le> length xs \<Longrightarrow> make_and_copy xs (int k) (int n) = Ok (take n (drop k xs))"
  by (simp add: make_and_copy_def copy_loop_in_range)

lemma make_and_copy_negative: "off < 0 \<Longrightarrow> n \<noteq> 0 \<Longrightarrow> make_and_copy xs off n = Panic"
  by (cases "nat n") (auto simp: make_and_copy_def go_index_def)

lemma slice_expr_in_range:
  "k + n \<le> length xs \<Longrightarrow> slice_expr xs (int k) (int (k + n)) = Ok (take n (drop k xs))"
  by (simp add: slice_expr_def nat_add_distrib)

lemma handle_split:
  "P (handle r on_err on_ok) \<longleftrightarrow>
    (\<forall>w x. r = (w, Ok x) \<longrightarrow> P (on_ok w x))
    \<and> (\<forall>w e. r = (w, Err e) \<longrightarrow> P (on_err w e))
    \<and> (\<forall>w x e. r = (w, ErrWith x e) \<longrightarrow> P (on_err w e))
    \<and> (\<forall>w. r = (w, Panic) \<longrightarrow> P (w, Panic))
    \<and> (\<forall>w. r = (w, Diverge) \<longrightarrow> P (w, Diverge))"
  by (cases "(r, on_err, on_ok)" rule: handle.cases) simp_all

end
