(* ===== verification/Api.thy ===== *)
theory Api
  imports Errors "HOL-Library.Finite_Map"
begin

text \<open>
  The API types (api/v1): directories, requests, responses and events, with their helper
  methods.

  \<^item> \<open>time.Time\<close> is a reading in nanoseconds since Go's zero time, the one \<open>Before\<close> compares,
    and the identity of its location (0 is UTC). The operators \<open>==\<close> and \<open>!=\<close> compare both
    parts, \<open>Before\<close> only the reading.
  \<^item> \<open>DirectoryID\<close> is a \<open>uuid.UUID\<close>, 16 bytes; the model keeps the 128 bits. The functions of
    the uuid package (\<open>Parse\<close>, \<open>String\<close>, \<open>Scan\<close>) are arguments of the definitions that call
    them.
  \<^item> Pointers to values that are never written through (\<open>Parent\<close>, \<open>DeletedAt\<close>, \<open>Metadata\<close>)
    are options; a nil slice is the empty list.
\<close>

section \<open>Times\<close>

datatype go_time = GoTime (time_ns: int) (time_loc: nat)

definition time_Before :: "go_time \<Rightarrow> go_time \<Rightarrow> bool" where
  "time_Before t u \<longleftrightarrow> time_ns t < time_ns u"

definition time_IsZero :: "go_time \<Rightarrow> bool" where
  "time_IsZero t \<longleftrightarrow> time_ns t = 0"

definition time_UTC :: "go_time \<Rightarrow> go_time" where
  "time_UTC t = GoTime (time_ns t) 0"

definition zero_time :: go_time where
  "zero_time = GoTime 0 0"

section \<open>Directory identifiers\<close>

type_synonym uuid = "128 word"

datatype directory_id = DirectoryID (uuid_of: uuid)

instantiation directory_id :: linorder
begin

definition less_eq_directory_id :: "directory_id \<Rightarrow> directory_id \<Rightarrow> bool" where
  "less_eq_directory_id i j \<longleftrightarrow> uuid_of i \<le> uuid_of j"

definition less_directory_id :: "directory_id \<Rightarrow> directory_id \<Rightarrow> bool" where
  "less_directory_id i j \<longleftrightarrow> uuid_of i < uuid_of j"

instance
  by standard (auto simp: less_eq_directory_id_def less_directory_id_def intro: directory_id.expand)

end

definition ParseDirectoryID :: "(string \<Rightarrow> uuid option) \<Rightarrow> string \<Rightarrow> go_error + directory_id" where
  "ParseDirectoryID uuid_Parse s =
     (case uuid_Parse s of None \<Rightarrow> Inl ErrParsingID | Some u \<Rightarrow> Inr (DirectoryID u))"

definition DirectoryID_String :: "(uuid \<Rightarrow> string) \<Rightarrow> directory_id \<Rightarrow> string" where
  "DirectoryID_String uuid_String did = uuid_String (uuid_of did)"

definition DirectoryID_MarshalJSON ::
    "(uuid \<Rightarrow> string) \<Rightarrow> (string \<Rightarrow> string) \<Rightarrow> directory_id \<Rightarrow> string" where
  "DirectoryID_MarshalJSON uuid_String json_Marshal did =
     json_Marshal (DirectoryID_String uuid_String did)"

definition DirectoryID_UnmarshalJSON ::
    "(string \<Rightarrow> uuid option) \<Rightarrow> (string \<Rightarrow> go_error + string) \<Rightarrow> string \<Rightarrow> go_error + directory_id"
where
  "DirectoryID_UnmarshalJSON uuid_Parse json_Unmarshal b =
     (case json_Unmarshal b of
        Inl e \<Rightarrow> Inl e
      | Inr strUUID \<Rightarrow>
          (case uuid_Parse strUUID of
             None \<Rightarrow> Inl (ErrExternal ''invalid UUID'')
           | Some u \<Rightarrow> Inr (DirectoryID u)))"

section \<open>Database values\<close>

datatype driver_value = DBString string | DBBytes string | DBNull

definition DirectoryID_Value :: "(uuid \<Rightarrow> string) \<Rightarrow> directory_id \<Rightarrow> go_error + driver_value" where
  "DirectoryID_Value uuid_String did = Inr (DBString (uuid_String (uuid_of did)))"

definition DirectoryID_Scan ::
    "(driver_value \<Rightarrow> go_error + uuid) \<Rightarrow> driver_value \<Rightarrow> go_error + directory_id" where
  "DirectoryID_Scan uuid_Scan v =
     (case uuid_Scan v of Inl e \<Rightarrow> Inl e | Inr u \<Rightarrow> Inr (DirectoryID u))"

type_synonym directory_metadata = "(string, string) fmap"

definition DirectoryMetadata_Value ::
    "(directory_metadata \<Rightarrow> string) \<Rightarrow> directory_metadata \<Rightarrow> go_error + driver_value" where
  "DirectoryMetadata_Value json_Marshal dm = Inr (DBBytes (json_Marshal dm))"

definition DirectoryMetadata_Scan ::
    "(string \<Rightarrow> go_error + directory_metadata) \<Rightarrow> driver_value \<Rightarrow> go_error + directory_metadata"
where
  "DirectoryMetadata_Scan json_Unmarshal v =
     (case v of
        DBBytes b \<Rightarrow> json_Unmarshal b
      | _ \<Rightarrow> Inl (ErrText ''type assertion to []byte failed''))"

section \<open>Directories\<close>

record directory =
  CreatedAt :: go_time
  DeletedAt :: "go_time option"
  DirId :: directory_id
  Metadata :: "directory_metadata option"
  Name :: string
  Parent :: "directory_id option"
  UpdatedAt :: go_time

definition zero_directory :: directory where
  "zero_directory = \<lparr>CreatedAt = zero_time, DeletedAt = None, DirId = DirectoryID 0,
     Metadata = None, Name = '''', Parent = None, UpdatedAt = zero_time\<rparr>"

definition IsRoot :: "directory \<Rightarrow> bool" where
  "IsRoot d \<longleftrightarrow> Parent d = None"

definition IsDeleted :: "directory \<Rightarrow> bool" where
  "IsDeleted d \<longleftrightarrow> (case DeletedAt d of None \<Rightarrow> False | Some t \<Rightarrow> \<not> time_IsZero t)"

section \<open>Requests, responses and events\<close>

definition APIVersion :: string where
  "APIVersion = ''v1''"

record create_directory_request =
  create_Metadata :: "directory_metadata option"
  create_Name :: string
  create_Version :: string

record update_directory_request =
  update_Metadata :: "directory_metadata option"
  update_Name :: "string option"
  update_Version :: string

record pagination_links =
  Next :: "string option"

record pagination =
  pagination_Links :: pagination_links
  pagination_Page :: go_int
  pagination_PageSize :: go_int

record directory_list =
  list_Links :: pagination_links
  list_Directories :: "directory_id list"
  list_Page :: go_int
  list_PageSize :: go_int
  list_Version :: string

record directory_fetch =
  fetch_Directory :: directory
  fetch_Version :: string

datatype event_type = EventTypeCreate | EventTypeUpdate | EventTypeDelete | EventTypeDeleteHard

fun event_type_text :: "event_type \<Rightarrow> string" where
  "event_type_text EventTypeCreate = ''create''"
| "event_type_text EventTypeUpdate = ''update''"
| "event_type_text EventTypeDelete = ''delete''"
| "event_type_text EventTypeDeleteHard = ''deletehard''"

record directory_event =
  event_Version :: string
  event_Type :: event_type
  event_Time :: go_time
  event_Directory :: directory

section \<open>Lemmas\<close>

lemma IsDeleted_not_None: "IsDeleted d \<Longrightarrow> DeletedAt d \<noteq> None"
  by (auto simp: IsDeleted_def split: option.splits)

lemma ParseDirectoryID_cases:
  "ParseDirectoryID p s = Inl e \<Longrightarrow> e = ErrParsingID"
  by (auto simp: ParseDirectoryID_def split: option.splits)

lemma ParseDirectoryID_String:
  "(\<And>u. p (f u) = Some u) \<Longrightarrow> ParseDirectoryID p (DirectoryID_String f did) = Inr did"
  by (simp add: ParseDirectoryID_def DirectoryID_String_def)

lemma UnmarshalJSON_MarshalJSON:
  "(\<And>u. p (f u) = Some u) \<Longrightarrow> (\<And>s. dec (enc s) = Inr s) \<Longrightarrow>
    DirectoryID_UnmarshalJSON p dec (DirectoryID_MarshalJSON f enc did) = Inr did"
  by (simp add: DirectoryID_UnmarshalJSON_def DirectoryID_MarshalJSON_def DirectoryID_String_def)

end
