(* ===== verification/Storage_Options.thy ===== *)
theory Storage_Options
  imports Api
begin

text \<open>
  The storage options (storage/options.go) and the arithmetic of pages.

  \<open>Options\<close> is a record with Go's 64-bit integers; an \<open>Option\<close> is a function on it, and
  \<open>BuildOptions\<close> applies a list of them, in order, to the zero value. \<open>GetPageOffset\<close> is
  computed in 64 bits and wraps, as in the code: \<open>page_in_range\<close> says that it does not, and
  \<open>page_of\<close> is the page that is then returned.
\<close>

record storage_options =
  WithDeleted :: bool
  Page :: go_int
  PageSize :: go_int

definition DefaultPageSize :: go_int where
  "DefaultPageSize = 10"

definition GetPage :: "storage_options \<Rightarrow> go_int" where
  "GetPage opts = (if sint (Page opts) < 1 then 1 else Page opts)"

definition GetPageSize :: "storage_options \<Rightarrow> go_int" where
  "GetPageSize opts = (if sint (PageSize opts) < 1 then DefaultPageSize else PageSize opts)"

definition GetPageOffset :: "storage_options \<Rightarrow> go_int" where
  "GetPageOffset opts = GetPageSize opts * (GetPage opts - 1)"

type_synonym storage_option = "storage_options \<Rightarrow> storage_options"

definition WithDeletedDirectories :: storage_option where
  "WithDeletedDirectories opts = opts\<lparr>WithDeleted := True\<rparr>"

definition Pagination :: "go_int \<Rightarrow> go_int \<Rightarrow> storage_option" where
  "Pagination page psize = (\<lambda>opts. opts\<lparr>Page := page, PageSize := psize\<rparr>)"

definition new_options :: storage_options where
  "new_options = \<lparr>WithDeleted = False, Page = 0, PageSize = 0\<rparr>"

definition BuildOptions :: "storage_option list \<Rightarrow> storage_options" where
  "BuildOptions opts = fold (\<lambda>opt options. opt options) opts new_options"

section \<open>Effective page and size\<close>

lemma GetPage_pos: "1 \<le> sint (GetPage opts)"
  by (simp add: GetPage_def)

lemma GetPageSize_pos: "1 \<le> sint (GetPageSize opts)"
  by (simp add: GetPageSize_def DefaultPageSize_def)

definition page_in_range :: "storage_options \<Rightarrow> bool" where
  "page_in_range opts \<longleftrightarrow> sint (GetPageSize opts) * sint (GetPage opts) < 2 ^ 63 - 1"

lemma sint_GetPage_minus_1: "sint (GetPage opts - 1) = sint (GetPage opts) - 1"
  using GetPage_pos [of opts] sint_go_int_bounds [of "GetPage opts"]
  by (subst go_int_diff_exact) simp_all

lemma offset_product:
  "sint (GetPageSize opts) * (sint (GetPage opts) - 1) + sint (GetPageSize opts)
    = sint (GetPageSize opts) * sint (GetPage opts)"
  by (simp add: algebra_simps)

lemma offset_nonneg: "0 \<le> sint (GetPageSize opts) * (sint (GetPage opts) - 1)"
  using GetPage_pos [of opts] GetPageSize_pos [of opts] by simp

lemma sint_GetPageOffset:
  assumes "page_in_range opts"
  shows "sint (GetPageOffset opts) = sint (GetPageSize opts) * (sint (GetPage opts) - 1)"
proof -
  have "sint (GetPageSize opts) * (sint (GetPage opts) - 1) < 2 ^ 63"
    using assms offset_product [of opts] GetPageSize_pos [of opts]
    unfolding page_in_range_def by linarith
  then show ?thesis
    using offset_nonneg [of opts] unfolding GetPageOffset_def
    by (subst go_int_mult_exact) (simp_all add: sint_GetPage_minus_1)
qed

lemma sint_GetPageLimit:
  assumes "page_in_range opts"
  shows "sint (GetPageOffset opts + GetPageSize opts) = sint (GetPageSize opts) * sint (GetPage opts)"
proof -
  have "sint (GetPageOffset opts) + sint (GetPageSize opts)
      = sint (GetPageSize opts) * sint (GetPage opts)"
    using sint_GetPageOffset [OF assms] offset_product [of opts] by simp
  moreover from this have "sint (GetPageOffset opts) + sint (GetPageSize opts) < 2 ^ 63"
    "- (2 ^ 63) \<le> sint (GetPageOffset opts) + sint (GetPageSize opts)"
    using assms offset_nonneg [of opts] sint_GetPageOffset [OF assms] GetPageSize_pos [of opts]
    unfolding page_in_range_def by linarith+
  ultimately show ?thesis by (simp add: go_int_add_exact)
qed

text \<open>Without options: page 1 of \<open>DefaultPageSize\<close> items, deleted directories left out.\<close>

lemma BuildOptions_Nil [simp]: "BuildOptions [] = new_options"
  by (simp add: BuildOptions_def)

lemma new_options_simps [simp]:
  "WithDeleted new_options = False" "GetPage new_options = 1" "GetPageSize new_options = 10"
  by (simp_all add: new_options_def GetPage_def GetPageSize_def DefaultPageSize_def)

lemma page_in_range_new_options [simp]: "page_in_range new_options"
  by (simp add: page_in_range_def)

section \<open>Pages\<close>

definition page_offset :: "storage_options \<Rightarrow> nat" where
  "page_offset opts = nat (sint (GetPageSize opts)) * (nat (sint (GetPage opts)) - 1)"

definition page_of :: "storage_options \<Rightarrow> 'a list \<Rightarrow> 'a list" where
  "page_of opts xs = take (nat (sint (GetPageSize opts))) (drop (page_offset opts) xs)"

lemma sint_GetPageOffset_nat:
  assumes "page_in_range opts"
  shows "sint (GetPageOffset opts) = int (page_offset opts)"
  using sint_GetPageOffset [OF assms] GetPage_pos [of opts] GetPageSize_pos [of opts]
  by (simp add: page_offset_def of_nat_diff)

lemma sint_GetPageLimit_nat:
  assumes "page_in_range opts"
  shows "sint (GetPageOffset opts + GetPageSize opts)
    = int (page_offset opts + nat (sint (GetPageSize opts)))"
  using sint_GetPageLimit [OF assms] sint_GetPageOffset [OF assms]
    sint_GetPageOffset_nat [OF assms] GetPageSize_pos [of opts] offset_product [of opts]
  by simp

lemma set_page_of: "set (page_of opts xs) \<subseteq> set xs"
  unfolding page_of_def by (meson in_set_dropD in_set_takeD subsetI)

lemma length_page_of: "length (page_of opts xs) \<le> nat (sint (GetPageSize opts))"
  by (simp add: page_of_def)

lemma distinct_page_of: "distinct xs \<Longrightarrow> distinct (page_of opts xs)"
  by (simp add: page_of_def)

lemma page_of_map: "page_of opts (map f xs) = map f (page_of opts xs)"
  by (simp add: page_of_def take_map drop_map)

lemma page_of_new_options [simp]: "page_of new_options xs = take 10 xs"
  by (simp add: page_of_def page_offset_def)

lemma page_of_whole:
  "sint (GetPage opts) = 1 \<Longrightarrow> int (length xs) \<le> sint (GetPageSize opts) \<Longrightarrow> page_of opts xs = xs"
  by (simp add: page_of_def page_offset_def)

text \<open>
  Following the pages: the pages \<open>1, \<dots>, k\<close> of one size, in order, are the first \<open>k\<close> sizes of
  the list, with nothing skipped and nothing twice; a page shorter than the size is the last.
\<close>

definition page_at :: "bool \<Rightarrow> go_int \<Rightarrow> nat \<Rightarrow> storage_options" where
  "page_at dels psize k = \<lparr>WithDeleted = dels, Page = word_of_int (int k), PageSize = psize\<rparr>"

lemma sint_GetPage_page_at:
  assumes "1 \<le> k" "int k < 2 ^ 63"
  shows "sint (GetPage (page_at dels psize k)) = int k"
  using assms sint_go_int_of_int [of "int k"] by (simp add: GetPage_def page_at_def)

lemma page_of_page_at:
  assumes "1 \<le> k" "int k < 2 ^ 63" "1 \<le> sint psize"
  shows "page_of (page_at dels psize k) xs = take (nat (sint psize)) (drop (nat (sint psize) * (k - 1)) xs)"
  using sint_GetPage_page_at [OF assms(1,2), of dels psize] assms(3)
  by (simp add: page_of_def page_offset_def GetPageSize_def page_at_def)

lemma concat_pages:
  assumes "1 \<le> sint psize" "int k < 2 ^ 63"
  shows "concat (map (\<lambda>i. page_of (page_at dels psize i) xs) [1..<Suc k]) = take (nat (sint psize) * k) xs"
  using assms(2)
proof (induction k)
  case (Suc k)
  have "page_of (page_at dels psize (Suc k)) xs = take (nat (sint psize)) (drop (nat (sint psize) * k) xs)"
    using page_of_page_at [of "Suc k" psize dels xs] Suc.prems assms(1) by simp
  then show ?case
    using Suc by (simp add: take_add [symmetric] algebra_simps)
qed simp

end
