(* ===== verification/Go_Strings.thy ===== *)
theory Go_Strings
  imports Errors "HOL-Library.Char_ord" "HOL-Library.List_Lexorder"
begin

text \<open>
  The parts of Go's standard library that the HTTP layer uses on strings: \<open>strconv\<close>'s \<open>Itoa\<close>,
  \<open>Atoi\<close> and \<open>ParseBool\<close> (error texts leave out the function and the input), and \<open>net/url\<close>'s
  \<open>Values\<close> (\<open>Set\<close>, \<open>Get\<close>, \<open>Encode\<close>) and \<open>URL.String\<close> for a URL without user, opaque part,
  raw path or fragment. Strings are bytes.
\<close>

section \<open>strconv\<close>

definition digit :: "nat \<Rightarrow> char" where
  "digit n = char_of (48 + n)"

definition digit_val :: "char \<Rightarrow> nat option" where
  "digit_val c = (let n = of_char c :: nat in if 48 \<le> n \<and> n \<le> 57 then Some (n - 48) else None)"

fun nat_digits :: "nat \<Rightarrow> string" where
  "nat_digits n = (if n < 10 then [digit n] else nat_digits (n div 10) @ [digit (n mod 10)])"

declare nat_digits.simps [simp del]

definition Itoa :: "go_int \<Rightarrow> string" where
  "Itoa w = (if sint w < 0 then CHR ''-'' # nat_digits (nat (- sint w)) else nat_digits (nat (sint w)))"

fun digits_val :: "nat \<Rightarrow> string \<Rightarrow> nat option" where
  "digits_val acc [] = Some acc"
| "digits_val acc (c # cs) =
     (case digit_val c of None \<Rightarrow> None | Some d \<Rightarrow> digits_val (10 * acc + d) cs)"

definition parse_digits :: "string \<Rightarrow> nat option" where
  "parse_digits s = (if s = [] then None else digits_val 0 s)"

definition invalid_syntax :: go_error where
  "invalid_syntax = ErrText ''invalid syntax''"

definition out_of_range :: go_error where
  "out_of_range = ErrText ''value out of range''"

definition Atoi :: "string \<Rightarrow> go_error + go_int" where
  "Atoi s =
     (let neg = (s \<noteq> [] \<and> hd s = CHR ''-'');
          digits = (if s \<noteq> [] \<and> (hd s = CHR ''-'' \<or> hd s = CHR ''+'') then tl s else s)
      in case parse_digits digits of
           None \<Rightarrow> Inl invalid_syntax
         | Some n \<Rightarrow>
             (if neg then (if int n \<le> 2 ^ 63 then Inr (word_of_int (- int n)) else Inl out_of_range)
              else (if int n < 2 ^ 63 then Inr (word_of_int (int n)) else Inl out_of_range)))"

definition ParseBool :: "string \<Rightarrow> go_error + bool" where
  "ParseBool s =
     (if s \<in> set [''1'', ''t'', ''T'', ''TRUE'', ''true'', ''True''] then Inr True
      else if s \<in> set [''0'', ''f'', ''F'', ''FALSE'', ''false'', ''False''] then Inr False
      else Inl invalid_syntax)"

lemma digit_val_digit: "n < 10 \<Longrightarrow> digit_val (digit n) = Some n"
  by (simp add: digit_val_def digit_def)

lemma digits_val_append:
  "digits_val acc (xs @ ys) = (case digits_val acc xs of None \<Rightarrow> None | Some v \<Rightarrow> digits_val v ys)"
  by (induction xs arbitrary: acc) (simp_all split: option.splits)

lemma digits_val_nat_digits: "digits_val 0 (nat_digits n) = Some n"
proof (induction n rule: nat_digits.induct)
  case (1 n)
  then show ?case
    by (subst nat_digits.simps) (simp add: digits_val_append digit_val_digit)
qed

lemma nat_digits_Cons: "\<exists>d cs. nat_digits n = digit d # cs \<and> d < 10"
proof (induction n rule: nat_digits.induct)
  case (1 n)
  then show ?case by (subst (1) nat_digits.simps) (auto, blast+)
qed

lemma digit_sign: "d < 10 \<Longrightarrow> digit d \<noteq> CHR ''-'' \<and> digit d \<noteq> CHR ''+''"
  using digit_val_digit [of d] by (auto simp: digit_val_def)

lemma parse_digits_nat_digits: "parse_digits (nat_digits n) = Some n"
  using nat_digits_Cons [of n] digits_val_nat_digits [of n] by (auto simp: parse_digits_def)

lemma Atoi_Itoa: "Atoi (Itoa w) = Inr w"
proof (cases "sint w < 0")
  case True
  then show ?thesis
    using sint_go_int_bounds [of w]
    by (simp add: Atoi_def Itoa_def parse_digits_nat_digits)
next
  case False
  obtain d cs where d: "nat_digits (nat (sint w)) = digit d # cs" "d < 10"
    using nat_digits_Cons by blast
  have "parse_digits (digit d # cs) = Some (nat (sint w))"
    using parse_digits_nat_digits [of "nat (sint w)"] d(1) by simp
  then show ?thesis
    using False d digit_sign [OF d(2)] sint_go_int_bounds [of w]
    by (simp add: Atoi_def Itoa_def)
qed

lemma ParseBool_true [simp]: "ParseBool ''true'' = Inr True"
  by (simp add: ParseBool_def)

section \<open>net/url\<close>

type_synonym url_values = "(string \<times> string) list"

definition values_Set :: "string \<Rightarrow> string \<Rightarrow> url_values \<Rightarrow> url_values" where
  "values_Set k v vs = (k, v) # filter (\<lambda>(l, _). l \<noteq> k) vs"

lemma map_of_values_Set [simp]: "map_of (values_Set k v vs) = (map_of vs)(k \<mapsto> v)"
proof -
  have "l \<noteq> k \<Longrightarrow> map_of (filter (\<lambda>(l, _). l \<noteq> k) vs) l = map_of vs l" for l
    by (induction vs) auto
  then show ?thesis by (auto simp: values_Set_def fun_eq_iff)
qed

definition hex_digit :: "nat \<Rightarrow> char" where
  "hex_digit n = (if n < 10 then digit n else char_of (55 + n))"

definition is_alnum :: "char \<Rightarrow> bool" where
  "is_alnum c \<longleftrightarrow> (let n = of_char c :: nat in
     (48 \<le> n \<and> n \<le> 57) \<or> (65 \<le> n \<and> n \<le> 90) \<or> (97 \<le> n \<and> n \<le> 122))"

definition escape :: "string \<Rightarrow> bool \<Rightarrow> string \<Rightarrow> string" where
  "escape unreserved plus_for_space s = concat (map (\<lambda>c.
     if is_alnum c \<or> c \<in> set unreserved then [c]
     else if plus_for_space \<and> c = CHR '' '' then ''+''
     else [CHR ''%'', hex_digit (of_char c div 16), hex_digit (of_char c mod 16)]) s)"

definition QueryEscape :: "string \<Rightarrow> string" where
  "QueryEscape = escape ''-_.~'' True"

definition path_escape :: "string \<Rightarrow> string" where
  "path_escape = escape ''-_.~$&+,/:;=@'' False"

definition host_escape :: "string \<Rightarrow> string" where
  "host_escape = escape (''-_.~!$&'' @ [CHR 0x27] @ ''()*+,;=:[]<>'' @ [CHR 0x22]) False"

fun join_with :: "string \<Rightarrow> string list \<Rightarrow> string" where
  "join_with sep [] = ''''"
| "join_with sep [s] = s"
| "join_with sep (s # ss) = s @ sep @ join_with sep ss"

definition values_Encode :: "url_values \<Rightarrow> string" where
  "values_Encode vs =
     join_with ''&'' (map (\<lambda>(k, v). QueryEscape k @ ''='' @ QueryEscape v) (sort_key fst vs))"

record go_url =
  url_Scheme :: string
  url_Host :: string
  url_Path :: string
  url_RawQuery :: string

definition new_url :: go_url where
  "new_url = \<lparr>url_Scheme = '''', url_Host = '''', url_Path = '''', url_RawQuery = ''''\<rparr>"

definition url_String :: "go_url \<Rightarrow> string" where
  "url_String u =
     (let scheme = (if url_Scheme u \<noteq> '''' then url_Scheme u @ '':'' else '''');
          authority = (if (url_Scheme u \<noteq> '''' \<or> url_Host u \<noteq> '''') \<and> (url_Host u \<noteq> '''' \<or> url_Path u \<noteq> '''')
                       then ''//'' @ host_escape (url_Host u) else '''');
          path = (if url_Path u = ''*'' then ''*'' else path_escape (url_Path u));
          slash = (if path \<noteq> '''' \<and> hd path \<noteq> CHR ''/'' \<and> url_Host u \<noteq> '''' then ''/'' else '''');
          dot = (if scheme @ authority @ slash = '''' \<and> CHR '':'' \<in> set (takeWhile (\<lambda>c. c \<noteq> CHR ''/'') path)
                 then ''./'' else '''')
      in scheme @ authority @ slash @ dot @ path
           @ (if url_RawQuery u \<noteq> '''' then ''?'' @ url_RawQuery u else ''''))"

end
