(* ===== verification/Go_Url.thy ===== *)
theory Go_Url
  imports Go_Strings
begin

text \<open>
  The parts of net/url and path that the HTTP client uses, beside those in \<open>Go_Strings\<close>.

  \<^item> \<open>unescape\<close>, \<open>ParseQuery\<close>: percent-decoding and \<open>URL.Query\<close>. The values of a query are a list of
    pairs in order; \<open>Values.Set\<close> and \<open>Values.Get\<close> are \<open>values_Set\<close> and \<open>map_of\<close>.
  \<^item> \<open>url_Parse\<close>: a reference that starts with a slash, has a path in canonical encoding and may
    have a query is parsed here, which covers the paths that the client builds; for any other
    string the result is the argument \<open>other\<close>, the rest of \<open>url.Parse\<close>.
  \<^item> \<open>URL_JoinPath\<close>, \<open>url_JoinPath\<close>: the method and the function \<open>JoinPath\<close>, over \<open>path.Join\<close> and
    \<open>path.Clean\<close> of a rooted path.

  The lemmas are round trips: what was escaped is unescaped, an encoded query is parsed back,
  a printed reference is parsed back.
\<close>

fun split_on :: "char \<Rightarrow> string \<Rightarrow> string list" where
  "split_on c [] = [[]]"
| "split_on c (x # xs) =
     (if x = c then [] # split_on c xs
      else case split_on c xs of [] \<Rightarrow> [[x]] | ys # yss \<Rightarrow> (x # ys) # yss)"

definition cut :: "char \<Rightarrow> string \<Rightarrow> string \<times> string" where
  "cut c s = (takeWhile (\<lambda>x. x \<noteq> c) s, drop 1 (dropWhile (\<lambda>x. x \<noteq> c) s))"

section \<open>Unescaping\<close>

definition hex_val :: "char \<Rightarrow> nat option" where
  "hex_val c = (let n = of_char c :: nat in
     if 48 \<le> n \<and> n \<le> 57 then Some (n - 48)
     else if 65 \<le> n \<and> n \<le> 70 then Some (n - 55)
     else if 97 \<le> n \<and> n \<le> 102 then Some (n - 87) else None)"

fun unescape :: "bool \<Rightarrow> string \<Rightarrow> string option" where
  "unescape sp [] = Some []"
| "unescape sp (c # cs) =
     (if c = CHR ''%''
      then (case cs of
              a # b # rest \<Rightarrow>
                (case (hex_val a, hex_val b) of
                   (Some x, Some y) \<Rightarrow> map_option (Cons (char_of (16 * x + y))) (unescape sp rest)
                 | _ \<Rightarrow> None)
            | _ \<Rightarrow> None)
      else map_option (Cons (if sp \<and> c = CHR ''+'' then CHR '' '' else c)) (unescape sp cs))"

lemma hex_val_hex_digit: "n < 16 \<Longrightarrow> hex_val (hex_digit n) = Some n"
  by (simp add: hex_val_def hex_digit_def digit_def)

lemma unescape_escape:
  assumes "CHR ''%'' \<notin> set unres" "sp \<Longrightarrow> CHR ''+'' \<notin> set unres"
  shows "unescape sp (escape unres sp s) = Some s"
proof (induction s)
  case (Cons c s)
  have code: "of_char c div 16 < (16::nat)" "of_char c mod 16 < (16::nat)"
    using nat_of_char_less_256 [of c] by (simp_all add: less_mult_imp_div_less)
  have hex: "char_of (16 * (of_char c div 16) + of_char c mod (16::nat)) = c" by simp
  have tail: "escape unres sp (c # s) = escape unres sp [c] @ escape unres sp s"
    by (simp add: escape_def)
  have "is_alnum c \<Longrightarrow> c \<noteq> CHR ''%'' \<and> c \<noteq> CHR ''+''" by (auto simp: is_alnum_def)
  then consider "escape unres sp [c] = [c]" "c \<noteq> CHR ''%''" "\<not> (sp \<and> c = CHR ''+'')"
    | "escape unres sp [c] = ''+''" "c = CHR '' ''" sp
    | "escape unres sp [c] = [CHR ''%'', hex_digit (of_char c div 16), hex_digit (of_char c mod 16)]"
    using assms by (cases "is_alnum c \<or> c \<in> set unres"; cases "sp \<and> c = CHR '' ''")
      (auto simp: escape_def)
  then show ?case
    unfolding tail by cases (use Cons in \<open>simp_all add: hex_val_hex_digit code hex\<close>)
qed (simp add: escape_def)

lemma QueryEscape_unescape [simp]: "unescape True (QueryEscape s) = Some s"
  unfolding QueryEscape_def by (rule unescape_escape) simp_all

lemma path_escape_unescape [simp]: "unescape False (path_escape s) = Some s"
  unfolding path_escape_def by (rule unescape_escape) simp_all

lemma set_escape: "set (escape unres sp s) \<subseteq> {c. is_alnum c} \<union> set unres \<union> {CHR ''+'', CHR ''%''}"
proof -
  have "is_alnum (hex_digit n)" if "n < 16" for n
    using that by (auto simp: is_alnum_def hex_digit_def digit_def)
  moreover have "of_char c div 16 < (16::nat)" "of_char c mod 16 < (16::nat)" for c :: char
    using nat_of_char_less_256 [of c] by (simp_all add: less_mult_imp_div_less)
  ultimately show ?thesis by (auto simp: escape_def split: if_splits)
qed

lemma QueryEscape_plain: "x \<in> set (QueryEscape s) \<Longrightarrow> x \<notin> set ''&=;?#/''"
  using set_escape [of "''-_.~''" True s] by (auto simp: QueryEscape_def is_alnum_def)

section \<open>Queries\<close>

definition parse_pair :: "string \<Rightarrow> url_values" where
  "parse_pair s =
     (if CHR '';'' \<in> set s \<or> s = [] then []
      else let (k, v) = cut (CHR ''='') s
           in case (unescape True k, unescape True v) of
                (Some k, Some v) \<Rightarrow> [(k, v)] | _ \<Rightarrow> [])"

definition ParseQuery :: "string \<Rightarrow> url_values" where
  "ParseQuery s = concat (map parse_pair (split_on (CHR ''&'') s))"

lemma split_on_plain [simp]: "c \<notin> set p \<Longrightarrow> split_on c p = [p]"
  by (induction p) auto

lemma split_on_append: "c \<notin> set p \<Longrightarrow> split_on c (p @ c # r) = p # split_on c r"
  by (induction p) auto

lemma split_on_join: "ss \<noteq> [] \<Longrightarrow> \<forall>s \<in> set ss. c \<notin> set s \<Longrightarrow> split_on c (join_with [c] ss) = ss"
proof (induction "[c]" ss rule: join_with.induct)
  case (3 s s' ss)
  then show ?case using split_on_append [of c s "join_with [c] (s' # ss)"] by simp
qed simp_all

lemma cut_plain: "c \<notin> set p \<Longrightarrow> cut c (p @ c # r) = (p, r)"
  by (induction p) (auto simp: cut_def)

lemma cut_none: "c \<notin> set p \<Longrightarrow> cut c p = (p, [])"
  by (induction p) (auto simp: cut_def)

lemma parse_pair_encoded: "parse_pair (QueryEscape k @ CHR ''='' # QueryEscape v) = [(k, v)]"
proof -
  have "CHR ''='' \<notin> set (QueryEscape k)" "CHR '';'' \<notin> set (QueryEscape k)" "CHR '';'' \<notin> set (QueryEscape v)"
    using QueryEscape_plain [of "CHR ''=''" k] QueryEscape_plain [of "CHR '';''" k]
      QueryEscape_plain [of "CHR '';''" v] by auto
  then show ?thesis by (simp add: parse_pair_def cut_plain)
qed

lemma ParseQuery_Encode: "ParseQuery (values_Encode vs) = sort_key fst vs"
proof (cases "vs = []")
  case False
  let ?ss = "map (\<lambda>(k, v). QueryEscape k @ CHR ''='' # QueryEscape v) (sort_key fst vs)"
  have "?ss \<noteq> []" using False by (metis length_0_conv length_map length_sort)
  moreover have "\<forall>s \<in> set ?ss. CHR ''&'' \<notin> set s" using QueryEscape_plain by fastforce
  ultimately have "split_on (CHR ''&'') (join_with ''&'' ?ss) = ?ss" by (rule split_on_join)
  then have "ParseQuery (values_Encode vs) = concat (map (\<lambda>p. [p]) (sort_key fst vs))"
    by (simp add: ParseQuery_def values_Encode_def o_def case_prod_beta parse_pair_encoded)
  then show ?thesis by simp
qed (simp add: ParseQuery_def values_Encode_def parse_pair_def)

lemma map_of_sort_key_fst: "map_of (sort_key fst vs) = map_of (vs :: url_values)"
proof
  fix k
  have "map_of ps k = (case filter (\<lambda>p. k = fst p) ps of [] \<Rightarrow> None | p # _ \<Rightarrow> Some (snd p))"
    for ps :: "(string \<times> string) list" by (induction ps) auto
  moreover have "filter (\<lambda>p. k = fst p) (sort_key fst vs) = filter (\<lambda>p. k = fst p) vs"
    using sort_key_stable [of fst k vs] by (simp add: eq_commute)
  ultimately show "map_of (sort_key fst vs) k = map_of vs k" by simp
qed

section \<open>Parsing and printing references\<close>

definition rooted_form :: "string \<Rightarrow> bool" where
  "rooted_form s \<longleftrightarrow> s \<noteq> [] \<and> hd s = CHR ''/'' \<and> take 2 s \<noteq> ''//'' \<and> CHR ''#'' \<notin> set s
     \<and> (\<forall>c \<in> set s. 32 \<le> (of_char c :: nat) \<and> (of_char c :: nat) \<noteq> 127) \<and> last s \<noteq> CHR ''?''"

definition url_Parse :: "(string \<Rightarrow> go_error + go_url) \<Rightarrow> string \<Rightarrow> go_error + go_url" where
  "url_Parse other s =
     (if \<not> rooted_form s then other s
      else let (p, q) = cut (CHR ''?'') s
           in case unescape False p of
                None \<Rightarrow> Inl (ErrExternal ''invalid URL escape'')
              | Some path \<Rightarrow>
                  (if path_escape path = p then Inr (new_url\<lparr>url_Path := path, url_RawQuery := q\<rparr>)
                   else other s))"

lemma of_char_alnum: "is_alnum c \<Longrightarrow> 48 \<le> (of_char c :: nat) \<and> (of_char c :: nat) \<le> 122 \<and> c \<noteq> CHR ''#'' \<and> c \<noteq> CHR ''?''"
  by (auto simp: is_alnum_def Let_def)

text \<open>\<open>plain_char\<close>: what needs no escape in a path.\<close>

definition plain_char :: "char \<Rightarrow> bool" where
  "plain_char c \<longleftrightarrow> is_alnum c \<or> c \<in> set ''-_.~/''"

lemma path_escape_plain: "\<forall>c \<in> set s. plain_char c \<Longrightarrow> path_escape s = s"
  by (induction s) (auto simp: path_escape_def escape_def plain_char_def)

definition query_ok :: "string \<Rightarrow> bool" where
  "query_ok q \<longleftrightarrow> (\<forall>c \<in> set q. c \<noteq> CHR ''#'' \<and> c \<noteq> CHR ''?'' \<and> 32 \<le> (of_char c :: nat) \<and> (of_char c :: nat) \<noteq> 127)"

lemma set_join_with: "set (join_with sep ss) \<subseteq> \<Union> (set ` set ss) \<union> set sep"
  by (induction sep ss rule: join_with.induct) auto

lemma query_ok_Encode: "query_ok (values_Encode vs)"
proof -
  have q: "query_ok (QueryEscape s)" for s
  proof -
    have "c \<noteq> CHR ''#'' \<and> c \<noteq> CHR ''?'' \<and> 32 \<le> (of_char c :: nat) \<and> (of_char c :: nat) \<noteq> 127"
      if "c \<in> {c. is_alnum c} \<union> set ''-_.~'' \<union> {CHR ''+'', CHR ''%''}" for c
      using that of_char_alnum [of c] by auto
    then show ?thesis
      using set_escape [of "''-_.~''" True s] unfolding query_ok_def QueryEscape_def by blast
  qed
  have join: "\<forall>s \<in> set ss. query_ok s \<Longrightarrow> query_ok (join_with ''&'' ss)" for ss
    using set_join_with [of "''&''" ss] unfolding query_ok_def by fastforce
  have "query_ok (QueryEscape k @ ''='' @ QueryEscape v)" for k v
    using q [of k] q [of v] by (simp add: query_ok_def ball_Un)
  then show ?thesis
    unfolding values_Encode_def by (intro join ballI) (clarsimp simp del: append.simps)
qed

definition reference :: "string \<Rightarrow> string \<Rightarrow> string" where
  "reference path q = path @ (if q = [] then [] else CHR ''?'' # q)"

lemma url_Parse_reference:
  assumes "\<forall>c \<in> set path. plain_char c" "path \<noteq> []" "hd path = CHR ''/''" "take 2 path \<noteq> ''//''" "query_ok q"
  shows "url_Parse other (reference path q) = Inr (new_url\<lparr>url_Path := path, url_RawQuery := q\<rparr>)"
proof -
  have chars: "32 \<le> (of_char c :: nat) \<and> (of_char c :: nat) \<noteq> 127 \<and> c \<noteq> CHR ''#'' \<and> c \<noteq> CHR ''?''"
    if "c \<in> set path" for c
    using that assms(1) of_char_alnum [of c] by (fastforce simp: plain_char_def)
  have "take 2 (reference path q) \<noteq> ''//''"
    using assms(2,4) by (cases path; cases "tl path") (auto simp: reference_def numeral_2_eq_2)
  moreover have "last (reference path q) \<noteq> CHR ''?''"
    using chars assms(2,5) by (auto simp: reference_def query_ok_def)
  ultimately have "rooted_form (reference path q)"
    using chars assms(2,3,5) by (auto simp: rooted_form_def reference_def query_ok_def)
  moreover have "CHR ''?'' \<notin> set path" using chars by blast
  then have "cut (CHR ''?'') (reference path q) = (path, q)"
    by (simp add: reference_def cut_plain cut_none)
  moreover have "unescape False path = Some path"
    using path_escape_unescape [of path] path_escape_plain [OF assms(1)] by simp
  ultimately show ?thesis using path_escape_plain [OF assms(1)] by (simp add: url_Parse_def)
qed

lemma url_String_reference:
  assumes "\<forall>c \<in> set path. plain_char c" "path \<noteq> []" "hd path = CHR ''/''"
  shows "url_String (new_url\<lparr>url_Path := path, url_RawQuery := q\<rparr>) = reference path q"
proof -
  have "takeWhile (\<lambda>c. c \<noteq> CHR ''/'') path = []" using assms(2,3) by (cases path) auto
  moreover have "path \<noteq> ''*''" using assms(3) by auto
  ultimately show ?thesis
    using path_escape_plain [OF assms(1)] by (simp add: url_String_def new_url_def reference_def)
qed

section \<open>path.Join and JoinPath\<close>

definition clean_step :: "string \<Rightarrow> string list \<Rightarrow> string list" where
  "clean_step seg acc =
     (if seg = [] \<or> seg = ''.'' then acc else if seg = ''..'' then butlast acc else acc @ [seg])"

definition path_Clean :: "string \<Rightarrow> string" where
  "path_Clean p = CHR ''/'' # join_with ''/'' (fold clean_step (split_on (CHR ''/'') p) [])"

definition path_Join :: "string list \<Rightarrow> string" where
  "path_Join elems =
     (let es = dropWhile (\<lambda>e. e = []) elems in if es = [] then [] else path_Clean (join_with ''/'' es))"

definition has_suffix_slash :: "string \<Rightarrow> bool" where
  "has_suffix_slash s \<longleftrightarrow> s \<noteq> [] \<and> last s = CHR ''/''"

definition EscapedPath :: "go_url \<Rightarrow> string" where
  "EscapedPath u = (if url_Path u = ''*'' then ''*'' else path_escape (url_Path u))"

definition URL_JoinPath :: "go_url \<Rightarrow> string list \<Rightarrow> go_url" where
  "URL_JoinPath u elem =
     (let rooted = (EscapedPath u \<noteq> [] \<and> hd (EscapedPath u) = CHR ''/'');
          e = (if rooted then EscapedPath u else CHR ''/'' # EscapedPath u);
          p = (if rooted then path_Join (e # elem) else drop 1 (path_Join (e # elem)));
          p = (if has_suffix_slash (last (e # elem)) \<and> \<not> has_suffix_slash p then p @ ''/'' else p)
      in case unescape False p of None \<Rightarrow> u | Some q \<Rightarrow> u\<lparr>url_Path := q\<rparr>)"

definition url_JoinPath :: "(string \<Rightarrow> go_error + go_url) \<Rightarrow> string \<Rightarrow> string list \<Rightarrow> go_error + string" where
  "url_JoinPath other base elem =
     (case url_Parse other base of Inl e \<Rightarrow> Inl e | Inr u \<Rightarrow> Inr (url_String (URL_JoinPath u elem)))"

text \<open>A segment that survives cleaning.\<close>

definition segment :: "string \<Rightarrow> bool" where
  "segment s \<longleftrightarrow> s \<noteq> [] \<and> s \<noteq> ''.'' \<and> s \<noteq> ''..'' \<and> (\<forall>c \<in> set s. is_alnum c \<or> c = CHR ''-'')"

definition segs_path :: "string list \<Rightarrow> string" where
  "segs_path segs = CHR ''/'' # join_with ''/'' segs"

lemma segment_no_slash: "segment s \<Longrightarrow> CHR ''/'' \<notin> set s"
  by (auto simp: segment_def is_alnum_def)

lemma fold_clean_segments: "\<forall>s \<in> set segs. segment s \<Longrightarrow> fold clean_step segs acc = acc @ segs"
  by (induction segs arbitrary: acc) (auto simp: clean_step_def segment_def)

lemma split_segs_path:
  "segs \<noteq> [] \<Longrightarrow> \<forall>s \<in> set segs. segment s \<Longrightarrow> split_on (CHR ''/'') (segs_path segs) = [] # segs"
  using split_on_join [of segs "CHR ''/''"] segment_no_slash by (simp add: segs_path_def)

lemma clean_segs_path:
  assumes "segs \<noteq> []" "\<forall>s \<in> set segs. segment s"
  shows "path_Clean (segs_path segs) = segs_path segs"
  unfolding path_Clean_def split_segs_path [OF assms]
  using fold_clean_segments [OF assms(2), of "[]"] by (simp add: clean_step_def segs_path_def)

lemma join_with_append:
  "xs \<noteq> [] \<Longrightarrow> ys \<noteq> [] \<Longrightarrow> join_with sep (xs @ ys) = join_with sep xs @ sep @ join_with sep ys"
proof (induction xs)
  case (Cons x xs)
  show ?case
  proof (cases xs)
    case Nil
    with Cons.prems(2) show ?thesis by (cases ys) simp_all
  next
    case (Cons x' xs')
    with Cons.IH Cons.prems(2) show ?thesis by simp
  qed
qed simp

lemma segs_path_plain: "\<forall>s \<in> set segs. segment s \<Longrightarrow> \<forall>c \<in> set (segs_path segs). plain_char c"
proof -
  assume "\<forall>s \<in> set segs. segment s"
  then have "\<forall>c \<in> set (join_with ''/'' segs). plain_char c"
    by (induction "''/''" segs rule: join_with.induct) (auto simp: plain_char_def segment_def)
  then show ?thesis by (simp add: segs_path_def plain_char_def)
qed

lemma segs_path_no_double:
  "segs \<noteq> [] \<Longrightarrow> \<forall>s \<in> set segs. segment s \<Longrightarrow> take 2 (segs_path segs) \<noteq> ''//''"
  by (cases segs; cases "hd segs"; cases "tl segs") (auto simp: segs_path_def segment_def is_alnum_def)

lemma segs_path_suffix: "segs \<noteq> [] \<Longrightarrow> \<forall>s \<in> set segs. segment s \<Longrightarrow> \<not> has_suffix_slash (segs_path segs)"
proof -
  assume "segs \<noteq> []" "\<forall>s \<in> set segs. segment s"
  then have "join_with ''/'' segs \<noteq> [] \<and> last (join_with ''/'' segs) \<noteq> CHR ''/''"
    by (induction "''/''" segs rule: join_with.induct)
      (auto simp: segment_def is_alnum_def dest!: last_in_set)
  then show ?thesis by (auto simp: has_suffix_slash_def segs_path_def)
qed

lemma segs_path_rooted [simp]: "segs_path segs \<noteq> []" "hd (segs_path segs) = CHR ''/''" "segs_path segs \<noteq> ''*''"
  by (simp_all add: segs_path_def)

lemma path_escape_segs: "\<forall>s \<in> set segs. segment s \<Longrightarrow> path_escape (segs_path segs) = segs_path segs"
  by (intro path_escape_plain segs_path_plain)

lemma unescape_segs: "\<forall>s \<in> set segs. segment s \<Longrightarrow> unescape False (segs_path segs) = Some (segs_path segs)"
  using path_escape_unescape [of "segs_path segs"] path_escape_segs [of segs] by simp

text \<open>Joining segments to a path of segments, with whatever query the reference carries, and joining
  a path of segments to a URL without a path or to a path of segments.\<close>

lemma URL_JoinPath_rooted:
  assumes "url_Path u = segs_path base" "\<forall>s \<in> set base. segment s" "elem \<noteq> []"
    "\<not> has_suffix_slash (last elem)" "path_Join (segs_path base # elem) = segs_path segs"
    "segs \<noteq> []" "\<forall>s \<in> set segs. segment s"
  shows "URL_JoinPath u elem = u\<lparr>url_Path := segs_path segs\<rparr>"
  using assms path_escape_segs [of base] unescape_segs [of segs] segs_path_suffix [of segs]
  by (simp add: URL_JoinPath_def EscapedPath_def)

lemma segment_no_suffix: "segment s \<Longrightarrow> \<not> has_suffix_slash s"
  using segment_no_slash last_in_set by (fastforce simp: has_suffix_slash_def)

lemma URL_JoinPath_segs:
  assumes "url_Path u = segs_path segs" "segs \<noteq> []" "elem \<noteq> []" "\<forall>s \<in> set (segs @ elem). segment s"
  shows "URL_JoinPath u elem = u\<lparr>url_Path := segs_path (segs @ elem)\<rparr>"
proof (rule URL_JoinPath_rooted [OF assms(1)])
  have "join_with ''/'' (segs_path segs # elem) = segs_path (segs @ elem)"
    using assms(2,3) join_with_append [of segs elem "''/''"] join_with_append [of "[segs_path segs]" elem "''/''"]
    by (simp add: segs_path_def)
  then show "path_Join (segs_path segs # elem) = segs_path (segs @ elem)"
    using clean_segs_path [of "segs @ elem"] assms(2,4) by (simp add: path_Join_def)
  show "\<not> has_suffix_slash (last elem)"
    using assms(3,4) last_in_set [of elem] segment_no_suffix by simp
qed (use assms in auto)

lemma split_on_not_Nil [simp]: "split_on c s \<noteq> []"
  by (induction s) (auto split: list.splits)

lemma split_on_append2: "split_on c (x @ c # y) = split_on c x @ split_on c y"
  by (induction x) (auto simp: neq_Nil_conv split: list.splits)

lemma fold_clean_Nil [simp]: "fold clean_step [[]] acc = acc"
  by (simp add: clean_step_def)

lemma path_Clean_join:
  assumes "\<forall>s \<in> set base. segment s" "segs \<noteq> []" "\<forall>s \<in> set segs. segment s"
  shows "path_Clean (segs_path base @ CHR ''/'' # segs_path segs) = segs_path (base @ segs)"
proof -
  have "fold clean_step (split_on (CHR ''/'') (segs_path base)) [] = base"
    using split_segs_path [of base] fold_clean_segments [OF assms(1), of "[]"] assms(1)
    by (cases "base = []") (simp_all add: segs_path_def clean_step_def)
  then show ?thesis
    using assms(2,3) fold_clean_segments [OF assms(3), of base]
    by (simp add: path_Clean_def split_on_append2 split_segs_path clean_step_def segs_path_def [of "base @ segs"])
qed

lemma URL_JoinPath_path:
  assumes "url_Path u = segs_path base" "\<forall>s \<in> set base. segment s" "segs \<noteq> []" "\<forall>s \<in> set segs. segment s"
  shows "URL_JoinPath u [segs_path segs] = u\<lparr>url_Path := segs_path (base @ segs)\<rparr>"
  using assms path_Clean_join [of base segs] segs_path_suffix [of segs]
  by (intro URL_JoinPath_rooted [OF assms(1)]) (auto simp: path_Join_def)

lemma URL_JoinPath_no_path:
  assumes "url_Path u = []" "segs \<noteq> []" "\<forall>s \<in> set segs. segment s"
  shows "URL_JoinPath u [segs_path segs] = u\<lparr>url_Path := join_with ''/'' segs\<rparr>"
proof -
  have "path_Join [''/'', segs_path segs] = segs_path segs"
    using path_Clean_join [of "[]" segs] assms(2,3) by (simp add: path_Join_def segs_path_def [of "[]"])
  moreover have "path_escape [] = []" by (simp add: path_escape_def escape_def)
  moreover have "unescape False (join_with ''/'' segs) = Some (join_with ''/'' segs)"
    using unescape_segs [OF assms(3)] by (auto simp: segs_path_def)
  ultimately show ?thesis
    using segs_path_suffix [OF assms(2,3)] assms(1)
    by (simp add: URL_JoinPath_def EscapedPath_def) (simp add: segs_path_def)
qed

end
