(* ===== verification/Http_Client.thy ===== *)
theory Http_Client
  imports Api Storage_Options Go_Url
begin

text \<open>
  The HTTP client of the tree manager (client/v1/impl.go, cfg.go, interface.go) and the parsers
  of its answers (api/v1/crudhelpers.go).

  \<^item> \<open>client_libs\<close> is what the client takes from libraries: encoding/json for the two request
    types and the two answers, \<open>String\<close> of the uuid package, and \<open>url.Parse\<close> of references that
    \<open>url_Parse\<close> does not parse itself.
  \<^item> \<open>http_Client\<close> is net/http: \<open>t_check\<close> is what \<open>NewRequest\<close> objects to the method or the URL,
    \<open>t_Do\<close> sends a request and waits for the answer, acting on the state \<open>'w\<close> of the network.
  \<^item> \<open>'j\<close> is the type of JSON texts; a body is a \<open>stream\<close>: its text, and the error that ends the reading, if it is not the end
    of the body.
  \<^item> A nil \<open>*ClientConfig\<close>, \<open>*url.URL\<close> or \<open>*http.Client\<close> is \<open>None\<close>. \<open>newFullHTTPClient\<close> writes
    its defaults into the configuration it was given, so it returns that, too.
\<close>

section \<open>Libraries, transport and answers\<close>

type_synonym 'j stream = "'j \<times> go_error option"

record 'j client_libs =
  url_Parse_other :: "string \<Rightarrow> go_error + go_url"
  uuid_String :: "uuid \<Rightarrow> string"
  encode_create :: "create_directory_request \<Rightarrow> go_error + 'j"
  encode_update :: "update_directory_request \<Rightarrow> go_error + 'j"
  decode_fetch :: "'j stream \<Rightarrow> go_error + directory_fetch"
  decode_list :: "'j stream \<Rightarrow> go_error + directory_list"

definition DirectoryList_Parse :: "'j client_libs \<Rightarrow> 'j stream \<Rightarrow> go_error + directory_list" where
  [simp]: "DirectoryList_Parse L = decode_list L"

definition DirectoryFetch_Parse :: "'j client_libs \<Rightarrow> 'j stream \<Rightarrow> go_error + directory_fetch" where
  [simp]: "DirectoryFetch_Parse L = decode_fetch L"

record 'j http_answer =
  StatusCode :: nat
  Status :: string
  Body :: "'j stream"

record ('j, 'w) http_Client =
  t_check :: "string \<Rightarrow> string \<Rightarrow> go_error option"
  t_Do :: "string \<Rightarrow> string \<Rightarrow> 'j option \<Rightarrow> 'w \<Rightarrow> 'w \<times> 'j http_answer outcome"

section \<open>Configuration\<close>

record ('j, 'w) client_config =
  cfg_managerURL :: "go_url option"
  cfg_client :: "('j, 'w) http_Client option"

record ('j, 'w) http_client =
  hc_c :: "('j, 'w) http_Client"
  managerURL :: go_url

definition NewClientConfig :: "('j, 'w) client_config" where
  "NewClientConfig = \<lparr>cfg_managerURL = None, cfg_client = None\<rparr>"

definition WithManagerURL :: "go_url option \<Rightarrow> ('j, 'w) client_config \<Rightarrow> ('j, 'w) client_config" where
  "WithManagerURL u cfg = cfg\<lparr>cfg_managerURL := u\<rparr>"

definition WithClient :: "('j, 'w) http_Client option \<Rightarrow> ('j, 'w) client_config \<Rightarrow> ('j, 'w) client_config" where
  "WithClient cl cfg = cfg\<lparr>cfg_client := cl\<rparr>"

definition WithManagerURLFromString ::
    "'j client_libs \<Rightarrow> string \<Rightarrow> ('j, 'w) client_config \<Rightarrow> go_error + ('j, 'w) client_config" where
  "WithManagerURLFromString L s cfg =
     (case url_Parse (url_Parse_other L) s of
        Inl e \<Rightarrow> Inl e
      | Inr u \<Rightarrow> Inr (cfg\<lparr>cfg_managerURL := Some u\<rparr>))"

definition newFullHTTPClient ::
    "('j, 'w) http_Client \<Rightarrow> ('j, 'w) client_config option \<Rightarrow> ('j, 'w) client_config \<times> ('j, 'w) http_client" where
  "newFullHTTPClient DefaultTransport ptr =
     (let cfg = (case ptr of None \<Rightarrow> \<lparr>cfg_managerURL = None, cfg_client = None\<rparr> | Some cfg \<Rightarrow> cfg);
          cfg = (if cfg_managerURL cfg = None
                 then cfg\<lparr>cfg_managerURL := Some (new_url\<lparr>url_Scheme := ''http'', url_Host := ''localhost:8080''\<rparr>)\<rparr>
                 else cfg);
          cfg = (case cfg_client cfg of None \<Rightarrow> cfg\<lparr>cfg_client := Some DefaultTransport\<rparr> | Some _ \<Rightarrow> cfg)
      in (cfg, \<lparr>hc_c = the (cfg_client cfg), managerURL = the (cfg_managerURL cfg)\<rparr>))"

section \<open>URLs and bodies\<close>

definition addStorageOptionsToURL ::
    "'j client_libs \<Rightarrow> string \<Rightarrow> storage_option list \<Rightarrow> go_error + string" where
  "addStorageOptionsToURL L urlstr options =
     (case url_Parse (url_Parse_other L) urlstr of
        Inl e \<Rightarrow> Inl e
      | Inr u \<Rightarrow>
          (let opts = BuildOptions options;
               vals = ParseQuery (url_RawQuery u);
               vals = (if WithDeleted opts then values_Set ''with_deleted'' ''true'' vals else vals);
               vals = (if 0 < sint (Page opts) then values_Set ''page'' (Itoa (Page opts)) vals else vals);
               vals = (if 0 < sint (PageSize opts) then values_Set ''limit'' (Itoa (PageSize opts)) vals else vals)
           in Inr (url_String (u\<lparr>url_RawQuery := values_Encode vals\<rparr>))))"

definition client_encode :: "('r \<Rightarrow> go_error + 'j) \<Rightarrow> 'r \<Rightarrow> go_error + 'j" where
  "client_encode enc r =
     (case enc r of Inl e \<Rightarrow> Inl (ErrWrap ''error encoding request'' e) | Inr s \<Rightarrow> Inr s)"

text \<open>\<open>for k, v := range new { values[k] = v }\<close>: every key of \<open>new\<close> replaces that of \<open>old\<close>.\<close>

definition merge_values :: "url_values \<Rightarrow> url_values \<Rightarrow> url_values" where
  "merge_values old new = new @ filter (\<lambda>(k, _). k \<notin> fst ` set new) old"

definition DoRaw :: "'j client_libs \<Rightarrow> ('j, 'w) http_client \<Rightarrow> string \<Rightarrow> string \<Rightarrow> 'j option
    \<Rightarrow> 'w \<Rightarrow> 'w \<times> 'j http_answer outcome" where
  "DoRaw L c meth path data w =
     (case url_Parse (url_Parse_other L) path of
        Inl e \<Rightarrow> (w, Err (ErrWrap ''error handling path'' e))
      | Inr uPath \<Rightarrow>
          (let u = URL_JoinPath (managerURL c) [url_Path uPath];
               vals = merge_values (ParseQuery (url_RawQuery u)) (ParseQuery (url_RawQuery uPath));
               u = u\<lparr>url_RawQuery := values_Encode vals\<rparr>
           in case t_check (hc_c c) meth (url_String u) of
                Some e \<Rightarrow> (w, Err (ErrWrap ''error creating request'' e))
              | None \<Rightarrow> t_Do (hc_c c) meth (url_String u) data w))"

text \<open>
  What every method does with the answer: another status than the expected one is an error that
  carries the status line, a body that cannot be parsed is an error, too.
\<close>

definition read_answer :: "string \<Rightarrow> nat \<Rightarrow> ('j stream \<Rightarrow> go_error + 'a) \<Rightarrow> 'w \<times> 'j http_answer outcome
    \<Rightarrow> 'w \<times> 'a outcome" where
  "read_answer what code dec run =
     handle run (\<lambda>w e. (w, Err (ErrWrap what e))) (\<lambda>w resp.
       if StatusCode resp \<noteq> code then (w, Err (ErrText (what @ '': '' @ Status resp)))
       else case dec (Body resp) of
              Inl e \<Rightarrow> (w, Err (ErrWrap ''error parsing response'' e))
            | Inr x \<Rightarrow> (w, Ok x))"

abbreviation id_text :: "'j client_libs \<Rightarrow> directory_id \<Rightarrow> string" where
  "id_text L i \<equiv> DirectoryID_String (uuid_String L) i"

section \<open>Writes\<close>

definition http_CreateDirectory :: "'j client_libs \<Rightarrow> ('j, 'w) http_client \<Rightarrow> create_directory_request
    \<Rightarrow> directory_id \<Rightarrow> 'w \<Rightarrow> 'w \<times> directory_fetch outcome" where
  "http_CreateDirectory L c cdr parent w =
     (case client_encode (encode_create L) cdr of
        Inl e \<Rightarrow> (w, Err e)
      | Inr r \<Rightarrow>
          (case url_JoinPath (url_Parse_other L) ''/api/v1/directories'' [id_text L parent] of
             Inl e \<Rightarrow> (w, Err (ErrWrap ''error creating directory'' e))
           | Inr path \<Rightarrow>
               read_answer ''error creating directory'' 201 (DirectoryFetch_Parse L)
                 (DoRaw L c ''POST'' path (Some r) w)))"

definition http_UpdateDirectory :: "'j client_libs \<Rightarrow> ('j, 'w) http_client \<Rightarrow> directory_id
    \<Rightarrow> update_directory_request \<Rightarrow> 'w \<Rightarrow> 'w \<times> directory_fetch outcome" where
  "http_UpdateDirectory L c did udr w =
     (case client_encode (encode_update L) udr of
        Inl e \<Rightarrow> (w, Err e)
      | Inr r \<Rightarrow>
          (case url_JoinPath (url_Parse_other L) ''/api/v1/directories'' [id_text L did] of
             Inl e \<Rightarrow> (w, Err (ErrWrap ''error updating directory'' e))
           | Inr path \<Rightarrow>
               read_answer ''error updating directory'' 200 (DirectoryFetch_Parse L)
                 (DoRaw L c ''PATCH'' path (Some r) w)))"

definition http_CreateRoot :: "'j client_libs \<Rightarrow> ('j, 'w) http_client \<Rightarrow> create_directory_request
    \<Rightarrow> 'w \<Rightarrow> 'w \<times> directory_fetch outcome" where
  "http_CreateRoot L c cdr w =
     (case client_encode (encode_create L) cdr of
        Inl e \<Rightarrow> (w, Err e)
      | Inr r \<Rightarrow> read_answer ''error creating root'' 201 (DirectoryFetch_Parse L)
                   (DoRaw L c ''POST'' ''/api/v1/roots'' (Some r) w))"

definition http_DeleteDirectory :: "'j client_libs \<Rightarrow> ('j, 'w) http_client \<Rightarrow> directory_id
    \<Rightarrow> 'w \<Rightarrow> 'w \<times> directory_list outcome" where
  "http_DeleteDirectory L c did w =
     (case url_JoinPath (url_Parse_other L) ''/api/v1/directories'' [id_text L did] of
        Inl e \<Rightarrow> (w, Err (ErrWrap ''error getting directory'' e))
      | Inr path \<Rightarrow> read_answer ''error getting directory'' 200 (DirectoryList_Parse L)
                      (DoRaw L c ''DELETE'' path None w))"

section \<open>Reads\<close>

definition http_ListRoots :: "'j client_libs \<Rightarrow> ('j, 'w) http_client \<Rightarrow> storage_option list
    \<Rightarrow> 'w \<Rightarrow> 'w \<times> directory_list outcome" where
  "http_ListRoots L c options w =
     (case addStorageOptionsToURL L ''/api/v1/roots'' options of
        Inl e \<Rightarrow> (w, Err (ErrWrap ''error adding options to url'' e))
      | Inr path \<Rightarrow> read_answer ''error listing roots'' 200 (DirectoryList_Parse L)
                      (DoRaw L c ''GET'' path None w))"

definition http_GetDirectory :: "'j client_libs \<Rightarrow> ('j, 'w) http_client \<Rightarrow> directory_id
    \<Rightarrow> storage_option list \<Rightarrow> 'w \<Rightarrow> 'w \<times> directory_fetch outcome" where
  "http_GetDirectory L c did options w =
     (case url_JoinPath (url_Parse_other L) ''/api/v1/directories'' [id_text L did] of
        Inl e \<Rightarrow> (w, Err (ErrWrap ''error getting directory'' e))
      | Inr path \<Rightarrow>
          (case addStorageOptionsToURL L path options of
             Inl e \<Rightarrow> (w, Err (ErrWrap ''error adding options to url'' e))
           | Inr path \<Rightarrow> read_answer ''error getting directory'' 200 (DirectoryFetch_Parse L)
                           (DoRaw L c ''GET'' path None w)))"

definition http_doGetParents :: "'j client_libs \<Rightarrow> ('j, 'w) http_client \<Rightarrow> directory_id \<Rightarrow> directory_id option
    \<Rightarrow> storage_option list \<Rightarrow> 'w \<Rightarrow> 'w \<times> directory_list outcome" where
  "http_doGetParents L c did until options w =
     (case url_JoinPath (url_Parse_other L) ''/api/v1/directories'' [id_text L did, ''parents''] of
        Inl e \<Rightarrow> (w, Err (ErrWrap ''error getting parents'' e))
      | Inr path \<Rightarrow>
          (case addStorageOptionsToURL L path options of
             Inl e \<Rightarrow> (w, Err (ErrWrap ''error adding options to url'' e))
           | Inr path \<Rightarrow>
               (case (case until of
                        None \<Rightarrow> Inr path
                      | Some u \<Rightarrow> url_JoinPath (url_Parse_other L) path [id_text L u]) of
                  Inl e \<Rightarrow> (w, Err (ErrWrap ''error getting parents'' e))
                | Inr path \<Rightarrow> read_answer ''error getting parents'' 200 (DirectoryList_Parse L)
                                (DoRaw L c ''GET'' path None w))))"

definition http_GetParents :: "'j client_libs \<Rightarrow> ('j, 'w) http_client \<Rightarrow> directory_id
    \<Rightarrow> storage_option list \<Rightarrow> 'w \<Rightarrow> 'w \<times> directory_list outcome" where
  "http_GetParents L c did options = http_doGetParents L c did None options"

definition http_GetParentsUntil :: "'j client_libs \<Rightarrow> ('j, 'w) http_client \<Rightarrow> directory_id \<Rightarrow> directory_id
    \<Rightarrow> storage_option list \<Rightarrow> 'w \<Rightarrow> 'w \<times> directory_list outcome" where
  "http_GetParentsUntil L c did until options = http_doGetParents L c did (Some until) options"

definition http_GetChildren :: "'j client_libs \<Rightarrow> ('j, 'w) http_client \<Rightarrow> directory_id
    \<Rightarrow> storage_option list \<Rightarrow> 'w \<Rightarrow> 'w \<times> directory_list outcome" where
  "http_GetChildren L c did options w =
     (case url_JoinPath (url_Parse_other L) ''/api/v1/directories'' [id_text L did, ''children''] of
        Inl e \<Rightarrow> (w, Err (ErrWrap ''error getting children'' e))
      | Inr path \<Rightarrow>
          (case addStorageOptionsToURL L path options of
             Inl e \<Rightarrow> (w, Err (ErrWrap ''error adding options to url'' e))
           | Inr path \<Rightarrow> read_answer ''error getting children'' 200 (DirectoryList_Parse L)
                           (DoRaw L c ''GET'' path None w)))"

section \<open>The interfaces\<close>

text \<open>The interfaces of interface.go, each embedding the one before; \<open>HTTPClient\<close> and \<open>HTTPRootClient\<close> add \<open>DoRaw\<close>.\<close>

record 'w read_only_methods =
  ro_GetDirectory :: "directory_id \<Rightarrow> storage_option list \<Rightarrow> 'w \<Rightarrow> 'w \<times> directory_fetch outcome"
  ro_GetParents :: "directory_id \<Rightarrow> storage_option list \<Rightarrow> 'w \<Rightarrow> 'w \<times> directory_list outcome"
  ro_GetParentsUntil :: "directory_id \<Rightarrow> directory_id \<Rightarrow> storage_option list \<Rightarrow> 'w \<Rightarrow> 'w \<times> directory_list outcome"
  ro_GetChildren :: "directory_id \<Rightarrow> storage_option list \<Rightarrow> 'w \<Rightarrow> 'w \<times> directory_list outcome"

record 'w client_methods = "'w read_only_methods" +
  cl_CreateDirectory :: "create_directory_request \<Rightarrow> directory_id \<Rightarrow> 'w \<Rightarrow> 'w \<times> directory_fetch outcome"
  cl_UpdateDirectory :: "directory_id \<Rightarrow> update_directory_request \<Rightarrow> 'w \<Rightarrow> 'w \<times> directory_fetch outcome"
  cl_DeleteDirectory :: "directory_id \<Rightarrow> 'w \<Rightarrow> 'w \<times> directory_list outcome"

record 'w root_client_methods = "'w client_methods" +
  rt_CreateRoot :: "create_directory_request \<Rightarrow> 'w \<Rightarrow> 'w \<times> directory_fetch outcome"
  rt_ListRoots :: "storage_option list \<Rightarrow> 'w \<Rightarrow> 'w \<times> directory_list outcome"

type_synonym ('j, 'w) raw_http = "string \<Rightarrow> string \<Rightarrow> 'j option \<Rightarrow> 'w \<Rightarrow> 'w \<times> 'j http_answer outcome"

definition http_methods :: "'j client_libs \<Rightarrow> ('j, 'w) http_client \<Rightarrow> 'w client_methods" where
  "http_methods L c = \<lparr>
     ro_GetDirectory = http_GetDirectory L c, ro_GetParents = http_GetParents L c,
     ro_GetParentsUntil = http_GetParentsUntil L c, ro_GetChildren = http_GetChildren L c,
     cl_CreateDirectory = http_CreateDirectory L c, cl_UpdateDirectory = http_UpdateDirectory L c,
     cl_DeleteDirectory = http_DeleteDirectory L c\<rparr>"

definition NewHTTPClient :: "'j client_libs \<Rightarrow> ('j, 'w) http_Client \<Rightarrow> ('j, 'w) client_config option
    \<Rightarrow> ('j, 'w) client_config \<times> 'w client_methods \<times> ('j, 'w) raw_http" where
  "NewHTTPClient L DefaultTransport cfg =
     (let (cfg, c) = newFullHTTPClient DefaultTransport cfg in (cfg, http_methods L c, DoRaw L c))"

definition NewHTTPRootClient :: "'j client_libs \<Rightarrow> ('j, 'w) http_Client \<Rightarrow> ('j, 'w) client_config option
    \<Rightarrow> ('j, 'w) client_config \<times> 'w root_client_methods \<times> ('j, 'w) raw_http" where
  "NewHTTPRootClient L DefaultTransport cfg =
     (let (cfg, c) = newFullHTTPClient DefaultTransport cfg
      in (cfg, client_methods.extend (http_methods L c)
                 (root_client_methods.fields (http_CreateRoot L c) (http_ListRoots L c)), DoRaw L c))"

end
