(* ===== verification/Http_Client_Laws.thy ===== *)
theory Http_Client_Laws
  imports Http_Client
begin

text \<open>
  What the client sends. For identifiers whose text is a plain path segment and a manager URL
  without path and query, each method sends one request, whose URL is the origin, the path of the
  API and the query of the options (\<open>send\<close>), and reads the answer. The query is read back as the
  values that the options stand for (\<open>ParseQuery_Encode\<close>).
\<close>

section \<open>Paths and queries\<close>

definition api_path :: "string list \<Rightarrow> string list" where
  "api_path segs = [''api'', ''v1''] @ segs"

definition options_values :: "storage_option list \<Rightarrow> url_values" where
  "options_values options =
     (let opts = BuildOptions options;
          vals = (if WithDeleted opts then values_Set ''with_deleted'' ''true'' [] else []);
          vals = (if 0 < sint (Page opts) then values_Set ''page'' (Itoa (Page opts)) vals else vals)
      in if 0 < sint (PageSize opts) then values_Set ''limit'' (Itoa (PageSize opts)) vals else vals)"

lemma segment_literals [simp]: "segment ''api''" "segment ''v1''" "segment ''roots''"
  "segment ''directories''" "segment ''parents''" "segment ''children''"
  by (simp_all add: segment_def is_alnum_def)

lemma api_path_literals: "''/api/v1/roots'' = segs_path (api_path [''roots''])"
  "''/api/v1/directories'' = segs_path (api_path [''directories''])"
  by (simp_all add: segs_path_def api_path_def)

lemma api_path_simps [simp]: "api_path segs \<noteq> []" "api_path xs @ ys = api_path (xs @ ys)"
  "set (api_path segs) = {''api'', ''v1''} \<union> set segs"
  by (simp_all add: api_path_def)

lemma ParseQuery_Nil [simp]: "ParseQuery [] = []"
  by (simp add: ParseQuery_def parse_pair_def)

lemma values_Encode_Nil [simp]: "values_Encode [] = []"
  by (simp add: values_Encode_def)

lemma values_Encode_sort: "values_Encode (sort_key fst vs) = values_Encode vs"
  by (simp add: values_Encode_def sort_key_id_if_sorted)

lemma url_Parse_segs:
  assumes "segs \<noteq> []" "\<forall>s \<in> set segs. segment s" "query_ok q"
  shows "url_Parse other (reference (segs_path segs) q)
    = Inr (new_url\<lparr>url_Path := segs_path segs, url_RawQuery := q\<rparr>)"
  using url_Parse_reference [OF segs_path_plain [OF assms(2)] _ _ _ assms(3)] assms
  by (simp add: segs_path_no_double)

lemma url_String_segs:
  "\<forall>s \<in> set segs. segment s \<Longrightarrow>
    url_String (new_url\<lparr>url_Path := segs_path segs, url_RawQuery := q\<rparr>) = reference (segs_path segs) q"
  by (rule url_String_reference [OF segs_path_plain]) simp_all

lemma reference_Nil: "reference p [] = p"
  by (simp add: reference_def)

lemma query_ok_Nil [simp]: "query_ok []"
  by (simp add: query_ok_def)

lemma new_url_simps [simp]: "url_Path new_url = []" "url_RawQuery new_url = []"
  "new_url\<lparr>url_RawQuery := []\<rparr> = new_url" "new_url\<lparr>url_Path := p, url_RawQuery := []\<rparr> = new_url\<lparr>url_Path := p\<rparr>"
  by (simp_all add: new_url_def)

lemma url_JoinPath_api:
  assumes "segs \<noteq> []" "elem \<noteq> []" "\<forall>s \<in> set (segs @ elem). segment s" "query_ok q"
  shows "url_JoinPath other (reference (segs_path segs) q) elem = Inr (reference (segs_path (segs @ elem)) q)"
proof -
  have "URL_JoinPath (new_url\<lparr>url_Path := segs_path segs, url_RawQuery := q\<rparr>) elem
      = new_url\<lparr>url_Path := segs_path (segs @ elem), url_RawQuery := q\<rparr>"
    using URL_JoinPath_segs [of "new_url\<lparr>url_Path := segs_path segs, url_RawQuery := q\<rparr>" segs elem] assms
    by simp
  then show ?thesis
    using assms url_Parse_segs [of segs q other] url_String_segs [of "segs @ elem" q]
    by (simp add: url_JoinPath_def)
qed

lemma addStorageOptionsToURL_api:
  assumes "segs \<noteq> []" "\<forall>s \<in> set segs. segment s"
  shows "addStorageOptionsToURL L (segs_path segs) options
    = Inr (reference (segs_path segs) (values_Encode (options_values options)))"
  using url_Parse_segs [OF assms, of "[]" "url_Parse_other L"]
    url_String_segs [OF assms(2), of "values_Encode (options_values options)"]
  by (simp add: addStorageOptionsToURL_def options_values_def reference_Nil Let_def)

section \<open>Requests\<close>

definition origin_ok :: "go_url \<Rightarrow> bool" where
  "origin_ok u \<longleftrightarrow> url_Scheme u \<noteq> [] \<and> url_Host u \<noteq> [] \<and> url_Path u = [] \<and> url_RawQuery u = []"

definition origin :: "go_url \<Rightarrow> string" where
  "origin u = url_Scheme u @ ''://'' @ host_escape (url_Host u)"

definition send :: "('j, 'w) http_client \<Rightarrow> string \<Rightarrow> string list \<Rightarrow> url_values \<Rightarrow> 'j option
    \<Rightarrow> 'w \<Rightarrow> 'w \<times> 'j http_answer outcome" where
  "send c meth segs vs data w =
     (let u = origin (managerURL c) @ reference (segs_path segs) (values_Encode vs)
      in case t_check (hc_c c) meth u of
           Some e \<Rightarrow> (w, Err (ErrWrap ''error creating request'' e))
         | None \<Rightarrow> t_Do (hc_c c) meth u data w)"

lemma url_String_origin:
  assumes "origin_ok u" "segs \<noteq> []" "\<forall>s \<in> set segs. segment s"
  shows "url_String (u\<lparr>url_Path := join_with ''/'' segs, url_RawQuery := q\<rparr>)
    = origin u @ reference (segs_path segs) q"
proof -
  let ?p = "join_with ''/'' segs"
  have plain: "\<forall>c \<in> set ?p. plain_char c" using segs_path_plain [OF assms(3)] by (simp add: segs_path_def)
  then have esc: "path_escape ?p = ?p" by (rule path_escape_plain)
  obtain s ss where segs: "segs = s # ss" using assms(2) by (cases segs) auto
  have s: "segment s" using assms(3) segs by simp
  then obtain x xs where x: "s = x # xs" by (auto simp: segment_def neq_Nil_conv)
  have "x \<noteq> CHR ''/''" using segment_no_slash [OF s] x by auto
  moreover have hd: "?p \<noteq> []" "hd ?p = x" using segs x by (cases ss, simp_all)+
  moreover have "?p \<noteq> ''*''" using plain hd by (auto simp: plain_char_def is_alnum_def)
  ultimately show ?thesis
    using assms(1) esc by (simp add: url_String_def origin_def origin_ok_def reference_def segs_path_def)
qed

lemma DoRaw_send:
  assumes "origin_ok (managerURL c)" "segs \<noteq> []" "\<forall>s \<in> set segs. segment s"
  shows "DoRaw L c meth (reference (segs_path segs) (values_Encode vs)) data w = send c meth segs vs data w"
  using assms url_Parse_segs [OF assms(2,3) query_ok_Encode, of "url_Parse_other L" vs]
    URL_JoinPath_no_path [OF _ assms(2,3), of "managerURL c"] url_String_origin [OF assms, of "values_Encode vs"]
  by (simp add: DoRaw_def send_def origin_ok_def ParseQuery_Encode merge_values_def values_Encode_sort
      Let_def cong: option.case_cong)

section \<open>The methods\<close>

text \<open>\<open>plain_ids\<close>: what uuid.UUID.String promises, hexadecimal digits and dashes.\<close>

definition plain_ids :: "'j client_libs \<Rightarrow> bool" where
  "plain_ids L \<longleftrightarrow> (\<forall>u. segment (uuid_String L u))"

abbreviation dir_path :: "'j client_libs \<Rightarrow> directory_id \<Rightarrow> string list \<Rightarrow> string list" where
  "dir_path L i segs \<equiv> api_path (''directories'' # id_text L i # segs)"

lemma segment_id_text: "plain_ids L \<Longrightarrow> segment (id_text L i)"
  by (simp add: plain_ids_def DirectoryID_String_def)

lemma DoRaw_path:
  assumes "origin_ok (managerURL c)" "segs \<noteq> []" "\<forall>s \<in> set segs. segment s"
  shows "DoRaw L c meth (segs_path segs) data w = send c meth segs [] data w"
  using DoRaw_send [OF assms, of L meth "[]"] by (simp add: reference_Nil)

lemma url_JoinPath_directories:
  assumes "plain_ids L" "\<forall>s \<in> set segs. segment s"
  shows "url_JoinPath other ''/api/v1/directories'' (id_text L i # segs) = Inr (segs_path (dir_path L i segs))"
  using url_JoinPath_api [of "api_path [''directories'']" "id_text L i # segs" "[]" other]
    segment_id_text [OF assms(1), of i] assms(2)
  by (simp add: reference_Nil api_path_literals(2))

lemma http_CreateDirectory_send:
  assumes "origin_ok (managerURL c)" "plain_ids L" "encode_create L r = Inr b"
  shows "http_CreateDirectory L c r i w
    = read_answer ''error creating directory'' 201 (decode_fetch L) (send c ''POST'' (dir_path L i []) [] (Some b) w)"
  using assms segment_id_text [OF assms(2), of i]
  by (simp add: http_CreateDirectory_def client_encode_def url_JoinPath_directories DoRaw_path)

lemma http_UpdateDirectory_send:
  assumes "origin_ok (managerURL c)" "plain_ids L" "encode_update L r = Inr b"
  shows "http_UpdateDirectory L c i r w
    = read_answer ''error updating directory'' 200 (decode_fetch L) (send c ''PATCH'' (dir_path L i []) [] (Some b) w)"
  using assms segment_id_text [OF assms(2), of i]
  by (simp add: http_UpdateDirectory_def client_encode_def url_JoinPath_directories DoRaw_path)

lemma http_CreateRoot_send:
  assumes "origin_ok (managerURL c)" "encode_create L r = Inr b"
  shows "http_CreateRoot L c r w
    = read_answer ''error creating root'' 201 (decode_fetch L) (send c ''POST'' (api_path [''roots'']) [] (Some b) w)"
  using assms
  by (simp add: http_CreateRoot_def client_encode_def api_path_literals(1) DoRaw_path del: list.inject)

lemma http_DeleteDirectory_send:
  assumes "origin_ok (managerURL c)" "plain_ids L"
  shows "http_DeleteDirectory L c i w
    = read_answer ''error getting directory'' 200 (decode_list L) (send c ''DELETE'' (dir_path L i []) [] None w)"
  using assms segment_id_text [OF assms(2), of i]
  by (simp add: http_DeleteDirectory_def url_JoinPath_directories DoRaw_path)

lemma http_ListRoots_send:
  assumes "origin_ok (managerURL c)"
  shows "http_ListRoots L c options w = read_answer ''error listing roots'' 200 (decode_list L)
    (send c ''GET'' (api_path [''roots'']) (options_values options) None w)"
  using assms
  by (simp add: http_ListRoots_def api_path_literals(1) addStorageOptionsToURL_api DoRaw_send)

lemma http_GetDirectory_send:
  assumes "origin_ok (managerURL c)" "plain_ids L"
  shows "http_GetDirectory L c i options w = read_answer ''error getting directory'' 200 (decode_fetch L)
    (send c ''GET'' (dir_path L i []) (options_values options) None w)"
  using assms segment_id_text [OF assms(2), of i]
  by (simp add: http_GetDirectory_def url_JoinPath_directories addStorageOptionsToURL_api DoRaw_send)

lemma http_GetChildren_send:
  assumes "origin_ok (managerURL c)" "plain_ids L"
  shows "http_GetChildren L c i options w = read_answer ''error getting children'' 200 (decode_list L)
    (send c ''GET'' (dir_path L i [''children'']) (options_values options) None w)"
  using assms segment_id_text [OF assms(2), of i]
  by (simp add: http_GetChildren_def url_JoinPath_directories addStorageOptionsToURL_api DoRaw_send)

lemma http_GetParents_send:
  assumes "origin_ok (managerURL c)" "plain_ids L"
  shows "http_GetParents L c i options w = read_answer ''error getting parents'' 200 (decode_list L)
    (send c ''GET'' (dir_path L i [''parents'']) (options_values options) None w)"
  using assms segment_id_text [OF assms(2), of i]
  by (simp add: http_GetParents_def http_doGetParents_def url_JoinPath_directories
      addStorageOptionsToURL_api DoRaw_send)

lemma http_GetParentsUntil_send:
  assumes "origin_ok (managerURL c)" "plain_ids L"
  shows "http_GetParentsUntil L c i until options w = read_answer ''error getting parents'' 200 (decode_list L)
    (send c ''GET'' (dir_path L i [''parents'', id_text L until]) (options_values options) None w)"
  using assms segment_id_text [OF assms(2)]
    url_JoinPath_api [of "dir_path L i [''parents'']" "[id_text L until]" "values_Encode (options_values options)"
      "url_Parse_other L"]
  by (simp add: http_GetParentsUntil_def http_doGetParents_def url_JoinPath_directories query_ok_Encode
      addStorageOptionsToURL_api DoRaw_send)

end
