(* ===== verification/Forest.thy ===== *)
theory Forest
  imports Storage_Options
begin

text \<open>
  The abstract specification of a directory store: a finite map from identifiers to
  directories that forms a forest.

  \<^item> \<open>tree_ok\<close>: the map is finite, each directory is filed under its own identifier, each
    parent exists, and some rank grows from every parent to its children (so there is no
    cycle of parents).
  \<^item> \<open>visible\<close>: what a read with the given options may return.
  \<^item> \<open>parent_chain\<close>: the parents of a directory, nearest first, when all are visible.
  \<^item> \<open>descends\<close>: \<open>descends F v r i\<close> when \<open>i\<close> is reached from \<open>r\<close> through visible children.
  \<^item> \<open>mark_deleted\<close>: the soft deletion of a set of directories.
  \<^item> \<open>forest_grows\<close>: what every later version keeps of an earlier one.
\<close>

type_synonym forest = "directory_id \<Rightarrow> directory option"

definition visible :: "bool \<Rightarrow> directory \<Rightarrow> bool" where
  "visible dels d \<longleftrightarrow> dels \<or> DeletedAt d = None"

definition rank_ok :: "(directory_id \<Rightarrow> nat) \<Rightarrow> forest \<Rightarrow> bool" where
  "rank_ok rk F \<longleftrightarrow> (\<forall>i d p. F i = Some d \<longrightarrow> Parent d = Some p \<longrightarrow> rk p < rk i)"

definition tree_ok :: "forest \<Rightarrow> bool" where
  "tree_ok F \<longleftrightarrow> finite (dom F) \<and> (\<forall>i d. F i = Some d \<longrightarrow> DirId d = i)
    \<and> (\<forall>i d p. F i = Some d \<longrightarrow> Parent d = Some p \<longrightarrow> p \<in> dom F)
    \<and> (\<exists>rk. rank_ok rk F)"

definition mark_deleted :: "directory_id set \<Rightarrow> go_time \<Rightarrow> forest \<Rightarrow> forest" where
  "mark_deleted I t F = (\<lambda>i. if i \<in> I then map_option (DeletedAt_update (\<lambda>_. Some t)) (F i) else F i)"

inductive parent_chain :: "forest \<Rightarrow> bool \<Rightarrow> directory_id \<Rightarrow> directory_id list \<Rightarrow> bool"
  for F :: forest and dels :: bool where
  chain_root: "F i = Some d \<Longrightarrow> visible dels d \<Longrightarrow> Parent d = None \<Longrightarrow> parent_chain F dels i []"
| chain_step: "F i = Some d \<Longrightarrow> visible dels d \<Longrightarrow> Parent d = Some p \<Longrightarrow> parent_chain F dels p ps
    \<Longrightarrow> parent_chain F dels i (p # ps)"

inductive descends :: "forest \<Rightarrow> bool \<Rightarrow> directory_id \<Rightarrow> directory_id \<Rightarrow> bool"
  for F :: forest and dels :: bool and r :: directory_id where
  child: "F i = Some d \<Longrightarrow> visible dels d \<Longrightarrow> Parent d = Some r \<Longrightarrow> descends F dels r i"
| below: "descends F dels r p \<Longrightarrow> F i = Some d \<Longrightarrow> visible dels d \<Longrightarrow> Parent d = Some p
    \<Longrightarrow> descends F dels r i"

inductive_cases parent_chain_NilE: "parent_chain F dels i []"
inductive_cases parent_chain_ConsE: "parent_chain F dels i (p # ps)"
inductive_simps parent_chain_Nil_iff: "parent_chain F dels i []"
inductive_simps parent_chain_Cons_iff: "parent_chain F dels i (p # ps)"

definition descendants :: "forest \<Rightarrow> bool \<Rightarrow> directory_id \<Rightarrow> directory_id set" where
  "descendants F dels r = {i. descends F dels r i}"

definition roots_of :: "forest \<Rightarrow> bool \<Rightarrow> directory_id set" where
  "roots_of F dels = {i. \<exists>d. F i = Some d \<and> visible dels d \<and> Parent d = None}"

section \<open>What later versions keep\<close>

definition row_kept :: "directory \<Rightarrow> directory \<Rightarrow> bool" where
  "row_kept d e \<longleftrightarrow> DirId e = DirId d \<and> Parent e = Parent d \<and> CreatedAt e = CreatedAt d
     \<and> (DeletedAt d \<noteq> None \<longrightarrow> DeletedAt e = DeletedAt d)"

definition forest_grows :: "forest \<Rightarrow> forest \<Rightarrow> bool" where
  "forest_grows F F' \<longleftrightarrow> (\<forall>i d. F i = Some d \<longrightarrow> (\<exists>e. F' i = Some e \<and> row_kept d e))"

lemma row_kept_refl [simp]: "row_kept d d"
  by (simp add: row_kept_def)

lemma row_kept_trans: "row_kept d e \<Longrightarrow> row_kept e f \<Longrightarrow> row_kept d f"
  by (auto simp: row_kept_def)

lemma forest_grows_refl [simp]: "forest_grows F F"
  by (simp add: forest_grows_def)

lemma forest_grows_trans: "forest_grows F G \<Longrightarrow> forest_grows G H \<Longrightarrow> forest_grows F H"
  unfolding forest_grows_def by (meson row_kept_trans)

lemma forest_grows_new: "F i = None \<Longrightarrow> forest_grows F (F(i \<mapsto> d))"
  by (auto simp: forest_grows_def)

lemma forest_grows_overwrite: "F i = Some d \<Longrightarrow> row_kept d e \<Longrightarrow> forest_grows F (F(i \<mapsto> e))"
  by (auto simp: forest_grows_def)

lemma forest_grows_mark_deleted:
  "(\<And>i d. i \<in> I \<Longrightarrow> F i = Some d \<Longrightarrow> DeletedAt d = None) \<Longrightarrow> forest_grows F (mark_deleted I t F)"
  by (auto simp: forest_grows_def mark_deleted_def row_kept_def)

section \<open>Consequences of tree_ok\<close>

lemma tree_ok_finite: "tree_ok F \<Longrightarrow> finite (dom F)"
  and tree_ok_id: "tree_ok F \<Longrightarrow> F i = Some d \<Longrightarrow> DirId d = i"
  and tree_ok_parent: "tree_ok F \<Longrightarrow> F i = Some d \<Longrightarrow> Parent d = Some p \<Longrightarrow> p \<in> dom F"
  and tree_ok_rank: "tree_ok F \<Longrightarrow> \<exists>rk. rank_ok rk F"
  by (simp_all add: tree_ok_def)

lemma tree_ok_parent_Some:
  "tree_ok F \<Longrightarrow> F i = Some d \<Longrightarrow> Parent d = Some p \<Longrightarrow> \<exists>d'. F p = Some d'"
  using tree_ok_parent by fast

lemmas tree_ok_dest = tree_ok_finite tree_ok_id tree_ok_parent

lemma tree_okI:
  "finite (dom F) \<Longrightarrow> (\<And>i d. F i = Some d \<Longrightarrow> DirId d = i) \<Longrightarrow>
    (\<And>i d p. F i = Some d \<Longrightarrow> Parent d = Some p \<Longrightarrow> p \<in> dom F) \<Longrightarrow> rank_ok rk F \<Longrightarrow> tree_ok F"
  by (auto simp: tree_ok_def)

lemma rank_okD: "rank_ok rk F \<Longrightarrow> F i = Some d \<Longrightarrow> Parent d = Some p \<Longrightarrow> rk p < rk i"
  by (simp add: rank_ok_def)

lemma descends_rank: "descends F dels r i \<Longrightarrow> rank_ok rk F \<Longrightarrow> rk r < rk i"
  by (induction rule: descends.induct) (blast intro: rank_okD less_trans)+

lemma descends_irrefl: "tree_ok F \<Longrightarrow> \<not> descends F dels r r"
  using tree_ok_rank descends_rank by fast

lemma descends_visible:
  "descends F dels r i \<Longrightarrow> \<exists>d. F i = Some d \<and> visible dels d"
  by (induction rule: descends.induct) auto

lemma descendants_subset_dom: "descendants F dels r \<subseteq> dom F"
  by (auto simp: descendants_def dest: descends_visible)

lemma finite_descendants: "tree_ok F \<Longrightarrow> finite (descendants F dels r)"
  by (rule finite_subset [OF descendants_subset_dom tree_ok_finite])

lemma descends_trans: "descends F dels q i \<Longrightarrow> descends F dels r q \<Longrightarrow> descends F dels r i"
proof (induction rule: descends.induct)
  case (child i d)
  from child.prems child.hyps show ?case by (rule descends.below)
next
  case (below p i d)
  from below.IH [OF below.prems] below.hyps(2-) show ?case by (rule descends.below)
qed

text \<open>A set that holds the children of \<open>r\<close> and of its own members holds the descendants.\<close>

lemma descends_closed:
  assumes "descends F dels r i"
    and "\<And>j d p. F j = Some d \<Longrightarrow> visible dels d \<Longrightarrow> Parent d = Some p \<Longrightarrow> p = r \<or> p \<in> S \<Longrightarrow> j \<in> S"
  shows "i \<in> S"
  using assms by (induction rule: descends.induct) blast+

section \<open>Chains of parents\<close>

lemma parent_chain_deterministic:
  "parent_chain F dels i ps \<Longrightarrow> parent_chain F dels i qs \<Longrightarrow> ps = qs"
proof (induction arbitrary: qs rule: parent_chain.induct)
  case (chain_root i d)
  then show ?case by (auto elim: parent_chain.cases)
next
  case (chain_step i d p ps)
  from chain_step.prems chain_step.hyps obtain qs' where "qs = p # qs'" "parent_chain F dels p qs'"
    by (auto elim: parent_chain.cases)
  with chain_step.IH show ?case by simp
qed

lemma parent_chain_rank:
  "parent_chain F dels i ps \<Longrightarrow> rank_ok rk F \<Longrightarrow> \<forall>p \<in> set ps. rk p < rk i"
  by (induction rule: parent_chain.induct) (auto dest: rank_okD intro: less_trans)

lemma parent_chain_distinct:
  assumes "tree_ok F" "parent_chain F dels i ps"
  shows "distinct (i # ps)"
  using assms(2)
proof (induction rule: parent_chain.induct)
  case (chain_step i d p ps)
  obtain rk where "rank_ok rk F" using tree_ok_rank [OF assms(1)] by blast
  moreover have "parent_chain F dels i (p # ps)"
    using chain_step.hyps by (rule parent_chain.chain_step)
  ultimately have "\<forall>q \<in> set (p # ps). rk q < rk i" by (blast dest: parent_chain_rank)
  with chain_step.IH show ?case by auto
qed simp

lemma parent_chain_visible:
  "parent_chain F dels i ps \<Longrightarrow> j \<in> set (i # ps) \<Longrightarrow> \<exists>d. F j = Some d \<and> visible dels d"
  by (induction rule: parent_chain.induct) auto

lemma parent_chain_in_dom: "parent_chain F dels i ps \<Longrightarrow> set (i # ps) \<subseteq> dom F"
  by (induction rule: parent_chain.induct) auto

text \<open>With deleted directories included, every directory has its chain of parents.\<close>

lemma parent_chain_exists:
  assumes "tree_ok F" "F i = Some d"
  shows "\<exists>ps. parent_chain F True i ps"
proof -
  obtain rk where rk: "rank_ok rk F" using tree_ok_rank [OF assms(1)] by blast
  show ?thesis using assms(2)
  proof (induction "rk i" arbitrary: i d rule: less_induct)
    case less
    show ?case
    proof (cases "Parent d")
      case None
      with less.prems have "parent_chain F True i []" by (intro chain_root) (simp_all add: visible_def)
      then show ?thesis by blast
    next
      case (Some p)
      with less.prems rk have "rk p < rk i" by (blast dest: rank_okD)
      moreover obtain d' where "F p = Some d'" using tree_ok_parent_Some [OF assms(1) less.prems Some] by blast
      ultimately obtain ps where "parent_chain F True p ps" using less.hyps by blast
      with less.prems Some have "parent_chain F True i (p # ps)"
        by (intro chain_step) (simp_all add: visible_def)
      then show ?thesis by blast
    qed
  qed
qed

section \<open>Operations on forests\<close>

lemma tree_ok_insert:
  assumes "tree_ok F" "F i = None" "DirId d = i" "\<And>p. Parent d = Some p \<Longrightarrow> p \<in> dom F"
  shows "tree_ok (F(i \<mapsto> d))"
proof -
  obtain rk where rk: "rank_ok rk F" using tree_ok_rank [OF assms(1)] by blast
  let ?rk = "rk(i := Suc (case Parent d of None \<Rightarrow> 0 | Some p \<Rightarrow> rk p))"
  have "rank_ok ?rk (F(i \<mapsto> d))"
    unfolding rank_ok_def
  proof (intro allI impI)
    fix j e p assume j: "(F(i \<mapsto> d)) j = Some e" "Parent e = Some p"
    show "?rk p < ?rk j"
    proof (cases "j = i")
      case True
      with j have "Parent d = Some p" by simp
      moreover from this assms(2,4) have "p \<noteq> i" by blast
      ultimately show ?thesis using True by simp
    next
      case False
      with j have "F j = Some e" by simp
      moreover from this j(2) have "p \<in> dom F" by (rule tree_ok_parent [OF assms(1)])
      moreover from this assms(2) have "p \<noteq> i" by blast
      ultimately show ?thesis using False rk j(2) by (simp add: rank_okD)
    qed
  qed
  moreover have "finite (dom (F(i \<mapsto> d)))" using tree_ok_finite [OF assms(1)] by simp
  ultimately show ?thesis
    using assms(3,4) by (intro tree_okI) (auto split: if_splits dest: tree_ok_id [OF assms(1)] tree_ok_parent [OF assms(1)])
qed

text \<open>Overwriting a directory keeps the forest when identifier and parent stay.\<close>

lemma tree_ok_overwrite:
  assumes "tree_ok F" "F i = Some d" "DirId d' = i" "Parent d' = Parent d"
  shows "tree_ok (F(i \<mapsto> d'))"
proof -
  obtain rk where rk: "rank_ok rk F" using tree_ok_rank [OF assms(1)] by blast
  have "rank_ok rk (F(i \<mapsto> d'))"
    using rk assms by (auto simp: rank_ok_def)
  moreover have "finite (dom (F(i \<mapsto> d')))" using tree_ok_finite [OF assms(1)] by simp
  ultimately show ?thesis
    using assms(2,3,4)
    by (intro tree_okI) (auto split: if_splits dest: tree_ok_id [OF assms(1)]
      intro: tree_ok_parent_Some [OF assms(1)])
qed

lemma tree_ok_map:
  assumes "tree_ok F" "\<And>i d. DirId (f i d) = DirId d" "\<And>i d. Parent (f i d) = Parent d"
  shows "tree_ok (\<lambda>i. map_option (f i) (F i))"
proof -
  obtain rk where rk: "rank_ok rk F" using tree_ok_rank [OF assms(1)] by blast
  have dom: "dom (\<lambda>i. map_option (f i) (F i)) = dom F" by (auto simp: dom_def)
  have "rank_ok rk (\<lambda>i. map_option (f i) (F i))"
    using rk assms(3) by (auto simp: rank_ok_def)
  then show ?thesis
    using assms(2,3) tree_ok_finite [OF assms(1)] by (intro tree_okI) (auto simp: dom dest: tree_ok_id [OF assms(1)] tree_ok_parent [OF assms(1)])
qed

lemma mark_deleted_eq_map:
  "mark_deleted I t F = (\<lambda>i. map_option (\<lambda>d. if i \<in> I then d\<lparr>DeletedAt := Some t\<rparr> else d) (F i))"
  by (auto simp: mark_deleted_def fun_eq_iff map_option_case split: option.splits)

lemma tree_ok_mark_deleted: "tree_ok F \<Longrightarrow> tree_ok (mark_deleted I t F)"
  unfolding mark_deleted_eq_map by (rule tree_ok_map) simp_all

lemma tree_ok_empty: "tree_ok Map.empty"
  by (simp add: tree_ok_def rank_ok_def)

end
