(* ===== verification/Storage.thy ===== *)
theory Storage
  imports Forest
begin

text \<open>
  The storage interfaces (storage/interface.go) and the world their methods act on.

  \<^item> \<open>world\<close>: Go's heap of \<open>Directory\<close> values with the next unused address, the driver's own
    state \<open>db\<close>, and the state \<open>bus\<close> of whatever is notified. Methods pass pointers
    (\<open>*v1.Directory\<close>), so a driver that keeps the pointer it was given shares the object with
    its caller; the heap makes that sharing visible.
  \<^item> \<open>inputs\<close>: what a call reads from outside: a fresh identifier and two clock readings; for a
    database driver also the error of the statement if it fails, what the cursor does at
    each row of the answer, and how many writes a follower read lags behind.
  \<^item> \<open>directory_admin\<close>: the interface \<open>storage.DirectoryAdmin\<close>, a record of methods.
\<close>

type_synonym addr = nat

record ('db, 'bus) world =
  heap :: "addr \<Rightarrow> directory"
  brk :: addr
  db :: 'db
  bus :: 'bus

definition write_ptr :: "addr \<Rightarrow> directory \<Rightarrow> ('db, 'bus) world \<Rightarrow> ('db, 'bus) world" where
  "write_ptr a d w = w\<lparr>heap := (heap w)(a := d)\<rparr>"

definition alloc :: "directory \<Rightarrow> ('db, 'bus) world \<Rightarrow> addr \<times> ('db, 'bus) world" where
  "alloc d w = (brk w, w\<lparr>heap := (heap w)(brk w := d), brk := Suc (brk w)\<rparr>)"

datatype row_step = RowOk | RowScanErr go_error | RowStop go_error

record inputs =
  in_uuid :: directory_id
  in_time1 :: go_time
  in_time2 :: go_time
  in_fault :: "go_error option"
  in_row :: "nat \<Rightarrow> row_step"
  in_lag :: nat

record ('db, 'bus) directory_admin =
  GetDirectory :: "inputs \<Rightarrow> directory_id \<Rightarrow> storage_option list
    \<Rightarrow> ('db, 'bus) world \<Rightarrow> ('db, 'bus) world \<times> addr outcome"
  GetParents :: "inputs \<Rightarrow> directory_id \<Rightarrow> storage_option list
    \<Rightarrow> ('db, 'bus) world \<Rightarrow> ('db, 'bus) world \<times> directory_id list outcome"
  GetParentsUntilAncestor :: "inputs \<Rightarrow> directory_id \<Rightarrow> directory_id \<Rightarrow> storage_option list
    \<Rightarrow> ('db, 'bus) world \<Rightarrow> ('db, 'bus) world \<times> directory_id list outcome"
  GetChildren :: "inputs \<Rightarrow> directory_id \<Rightarrow> storage_option list
    \<Rightarrow> ('db, 'bus) world \<Rightarrow> ('db, 'bus) world \<times> directory_id list outcome"
  ListRoots :: "inputs \<Rightarrow> storage_option list
    \<Rightarrow> ('db, 'bus) world \<Rightarrow> ('db, 'bus) world \<times> directory_id list outcome"
  CreateDirectory :: "inputs \<Rightarrow> addr
    \<Rightarrow> ('db, 'bus) world \<Rightarrow> ('db, 'bus) world \<times> addr outcome"
  UpdateDirectory :: "inputs \<Rightarrow> addr option
    \<Rightarrow> ('db, 'bus) world \<Rightarrow> ('db, 'bus) world \<times> unit outcome"
  DeleteDirectory :: "inputs \<Rightarrow> directory_id
    \<Rightarrow> ('db, 'bus) world \<Rightarrow> ('db, 'bus) world \<times> addr list outcome"
  CreateRoot :: "inputs \<Rightarrow> addr
    \<Rightarrow> ('db, 'bus) world \<Rightarrow> ('db, 'bus) world \<times> addr outcome"

section \<open>Reads after writes\<close>

lemma heap_write_ptr [world_simps]: "heap (write_ptr a d w) b = (if b = a then d else heap w b)"
  and brk_write_ptr [world_simps]: "brk (write_ptr a d w) = brk w"
  and db_write_ptr [world_simps]: "db (write_ptr a d w) = db w"
  and bus_write_ptr [world_simps]: "bus (write_ptr a d w) = bus w"
  by (simp_all add: write_ptr_def)

lemma alloc_fst [world_simps]: "fst (alloc d w) = brk w"
  and heap_alloc [world_simps]: "heap (snd (alloc d w)) b = (if b = brk w then d else heap w b)"
  and brk_alloc [world_simps]: "brk (snd (alloc d w)) = Suc (brk w)"
  and db_alloc [world_simps]: "db (snd (alloc d w)) = db w"
  and bus_alloc [world_simps]: "bus (snd (alloc d w)) = bus w"
  by (simp_all add: alloc_def)

section \<open>The metadata default shared by all writes\<close>

text \<open>\<open>if d.Metadata == nil { d.Metadata = &v1.DirectoryMetadata{} }\<close>\<close>

definition default_metadata :: "directory \<Rightarrow> directory" where
  "default_metadata d = (if Metadata d = None then d\<lparr>Metadata := Some fmempty\<rparr> else d)"

lemma default_metadata_simps [simp]:
  "CreatedAt (default_metadata d) = CreatedAt d" "DeletedAt (default_metadata d) = DeletedAt d"
  "DirId (default_metadata d) = DirId d" "Name (default_metadata d) = Name d"
  "Parent (default_metadata d) = Parent d" "UpdatedAt (default_metadata d) = UpdatedAt d"
  "Metadata (default_metadata d) \<noteq> None"
  by (simp_all add: default_metadata_def)

lemma default_metadata_idem [simp]: "default_metadata (default_metadata d) = default_metadata d"
  by (simp add: default_metadata_def)

end
