(* ===== verification/Memory_Driver.thy ===== *)
theory Memory_Driver
  imports Storage
begin

text \<open>
  The in-memory driver (storage/memory/memory.go).

  Its state is the \<open>sync.Map\<close> from identifiers to values, an association list in the order
  \<open>Range\<close> visits it (Go promises no order; every theorem holds for every order of the list).
  A value is a pointer to a directory, or something of another type, which
  \<open>WithDirectoryMap\<close> lets a caller put there. The loops of \<open>GetParents\<close>,
  \<open>GetParentsUntilAncestor\<close> and \<open>getChildren\<close> do not stop on a cycle of parents: they are
  partial functions, and a loop that never returns is the outcome \<open>Diverge\<close>.
  Texts of errors that print an identifier leave it out.
\<close>

datatype map_value = DirPtr addr | Foreign

type_synonym dir_map = "(directory_id \<times> map_value) list"
type_synonym 'bus mem_world = "(dir_map, 'bus) world"

section \<open>The driver\<close>

definition not_a_directory :: go_error where
  "not_a_directory = ErrText ''directory is not of type *v1.Directory''"

definition found_not_a_directory :: go_error where
  "found_not_a_directory = ErrText ''found directory that is not of type *v1.Directory''"

definition LoadOrStore :: "directory_id \<Rightarrow> map_value \<Rightarrow> dir_map \<Rightarrow> dir_map \<times> map_value" where
  "LoadOrStore k v m =
     (case map_of m k of Some v' \<Rightarrow> (m, v') | None \<Rightarrow> (AList.update k v m, v))"

definition mem_NewDirectoryDriver :: "(dir_map \<Rightarrow> dir_map) list \<Rightarrow> dir_map" where
  "mem_NewDirectoryDriver opts = fold (\<lambda>opt d. opt d) opts []"

definition WithDirectoryMap :: "dir_map \<Rightarrow> dir_map \<Rightarrow> dir_map" where
  "WithDirectoryMap dirMap d = dirMap"

text \<open>The part that \<open>CreateRoot\<close> and \<open>CreateDirectory\<close> share after their guard.\<close>

definition mem_store_new :: "inputs \<Rightarrow> addr \<Rightarrow> 'bus mem_world \<Rightarrow> 'bus mem_world \<times> addr outcome" where
  "mem_store_new inp a w =
     (let d = (default_metadata (heap w a))
            \<lparr>DirId := in_uuid inp, CreatedAt := in_time1 inp, UpdatedAt := in_time2 inp\<rparr>;
          w1 = write_ptr a d w;
          (m, rawdir) = LoadOrStore (DirId d) (DirPtr a) (db w1);
          w2 = w1\<lparr>db := m\<rparr>
      in case rawdir of DirPtr p \<Rightarrow> (w2, Ok p) | Foreign \<Rightarrow> (w2, Err not_a_directory))"

definition mem_CreateRoot :: "inputs \<Rightarrow> addr \<Rightarrow> 'bus mem_world \<Rightarrow> 'bus mem_world \<times> addr outcome" where
  "mem_CreateRoot inp a w =
     (if Parent (heap w a) \<noteq> None then (w, Err ErrRootWithParentDirectory)
      else mem_store_new inp a w)"

definition mem_CreateDirectory ::
    "inputs \<Rightarrow> addr \<Rightarrow> 'bus mem_world \<Rightarrow> 'bus mem_world \<times> addr outcome" where
  "mem_CreateDirectory inp a w =
     (if Parent (heap w a) = None then (w, Err ErrDirectoryWithoutParent)
      else mem_store_new inp a w)"

definition mem_UpdateDirectory ::
    "inputs \<Rightarrow> addr option \<Rightarrow> 'bus mem_world \<Rightarrow> 'bus mem_world \<times> unit outcome" where
  "mem_UpdateDirectory inp ptr w =
     (case ptr of
        None \<Rightarrow> (w, Panic)
      | Some a \<Rightarrow>
          (let d = (default_metadata (heap w a))\<lparr>UpdatedAt := in_time1 inp\<rparr>;
               w1 = write_ptr a d w
           in (w1\<lparr>db := AList.update (DirId d) (DirPtr a) (db w1)\<rparr>, Ok ())))"

definition mem_GetDirectory ::
    "directory_id \<Rightarrow> storage_option list \<Rightarrow> 'bus mem_world \<Rightarrow> addr outcome" where
  "mem_GetDirectory i options w =
     (case map_of (db w) i of
        None \<Rightarrow> Err ErrDirectoryNotFound
      | Some Foreign \<Rightarrow> Err not_a_directory
      | Some (DirPtr a) \<Rightarrow>
          (let opts = BuildOptions options
           in if DeletedAt (heap w a) \<noteq> None \<and> \<not> WithDeleted opts then Err ErrDirectoryNotFound
              else Ok a))"

text \<open>
  The two endings of a paged listing: a copy through a fresh slice (\<open>ListRoots\<close>,
  \<open>GetChildren\<close>) and a slice expression (\<open>GetParents\<close>, \<open>GetParentsUntilAncestor\<close>). The limit
  is a 64-bit sum, clamped to the length.
\<close>

definition clamp_limit :: "storage_options \<Rightarrow> 'a list \<Rightarrow> go_int" where
  "clamp_limit opts xs =
     (let limit = GetPageOffset opts + GetPageSize opts
      in if int (length xs) < sint limit then word_of_nat (length xs) else limit)"

definition page_copy :: "storage_options \<Rightarrow> 'a list \<Rightarrow> 'a list outcome" where
  "page_copy opts xs =
     make_and_copy xs (sint (GetPageOffset opts)) (sint (clamp_limit opts xs - GetPageOffset opts))"

definition page_slice :: "storage_options \<Rightarrow> 'a list \<Rightarrow> 'a list outcome" where
  "page_slice opts xs = slice_expr xs (sint (GetPageOffset opts)) (sint (clamp_limit opts xs))"

fun collect_roots :: "(addr \<Rightarrow> directory) \<Rightarrow> bool \<Rightarrow> dir_map \<Rightarrow> addr list \<Rightarrow> addr list outcome" where
  "collect_roots h dels [] roots = Ok roots"
| "collect_roots h dels ((k, Foreign) # es) roots = Err found_not_a_directory"
| "collect_roots h dels ((k, DirPtr a) # es) roots =
     collect_roots h dels es
       (if (DeletedAt (h a) = None \<or> dels) \<and> Parent (h a) = None then roots @ [a] else roots)"

definition by_creation :: "(addr \<Rightarrow> directory) \<Rightarrow> addr list \<Rightarrow> nat \<Rightarrow> nat \<Rightarrow> bool" where
  "by_creation h ys i j = time_Before (CreatedAt (h (ys ! i))) (CreatedAt (h (ys ! j)))"

definition mem_ListRoots :: "storage_option list \<Rightarrow> 'bus mem_world \<Rightarrow> directory_id list outcome" where
  "mem_ListRoots options w =
     (let opts = BuildOptions options
      in and_then (collect_roots (heap w) (WithDeleted opts) (db w) []) (\<lambda>roots.
           if int (length roots) < sint (GetPageOffset opts) then Ok []
           else and_then (page_copy opts (sort_slice (by_creation (heap w)) roots))
                  (\<lambda>rs. Ok (map (\<lambda>a. DirId (heap w a)) rs))))"

partial_function (option) parents_loop ::
    "(directory_id \<Rightarrow> addr outcome) \<Rightarrow> (addr \<Rightarrow> directory) \<Rightarrow> directory_id \<Rightarrow> directory_id list
      \<Rightarrow> addr list \<Rightarrow> (directory_id list \<times> addr list) outcome option" where
  "parents_loop get h i parentIDs parents =
     (case get i of
        Ok dir \<Rightarrow>
          (let parents' = (if parentIDs \<noteq> [] then parents @ [dir] else parents)
           in case Parent (h dir) of
                None \<Rightarrow> Some (Ok (parentIDs, parents'))
              | Some p \<Rightarrow> parents_loop get h p (parentIDs @ [p]) parents')
      | Err e \<Rightarrow> Some (Err e)
      | ErrWith x e \<Rightarrow> Some (Err e)
      | Panic \<Rightarrow> Some Panic
      | Diverge \<Rightarrow> Some Diverge)"

definition returned :: "'a outcome option \<Rightarrow> 'a outcome" where
  "returned r = (case r of None \<Rightarrow> Diverge | Some x \<Rightarrow> x)"

text \<open>
  The less function of the two sorts of parents compares \<open>parents[i]\<close> and \<open>parents[j]\<close>, a
  slice that the sort does not move.
\<close>

definition parents_less ::
    "(addr \<Rightarrow> directory) \<Rightarrow> addr list \<Rightarrow> directory_id list \<Rightarrow> nat \<Rightarrow> nat \<Rightarrow> bool" where
  "parents_less h parents ids i j =
     time_Before (CreatedAt (h (parents ! i))) (CreatedAt (h (parents ! j)))"

definition mem_GetParents ::
    "directory_id \<Rightarrow> storage_option list \<Rightarrow> 'bus mem_world \<Rightarrow> directory_id list outcome" where
  "mem_GetParents i options w =
     (let opts = BuildOptions options
      in and_then (returned (parents_loop (\<lambda>j. mem_GetDirectory j options w) (heap w) i [] []))
           (\<lambda>(parentIDs, parents).
              if int (length parents) < sint (GetPageOffset opts) then Ok []
              else page_slice opts (sort_slice (parents_less (heap w) parents) parentIDs)))"

partial_function (option) until_loop ::
    "(directory_id \<Rightarrow> addr outcome) \<Rightarrow> (addr \<Rightarrow> directory) \<Rightarrow> directory_id \<Rightarrow> addr \<Rightarrow> directory_id
      \<Rightarrow> directory_id list \<Rightarrow> addr list \<Rightarrow> (directory_id list \<times> addr list) outcome option" where
  "until_loop get h ancestor ancestorDir child parentIDs parents =
     (case get child of
        Ok dir \<Rightarrow>
          (let parents' = (if parentIDs \<noteq> [] then parents @ [dir] else parents)
           in if Parent (h dir) = None \<and> DirId (h dir) \<noteq> ancestor
              then Some (Err ErrDirectoryNotFound)
              else case Parent (h dir) of
                     None \<Rightarrow> Some Panic
                   | Some p \<Rightarrow>
                       if p = ancestor then Some (Ok (parentIDs @ [p], parents' @ [ancestorDir]))
                       else until_loop get h ancestor ancestorDir p (parentIDs @ [p]) parents')
      | Err e \<Rightarrow> Some (Err e)
      | ErrWith x e \<Rightarrow> Some (Err e)
      | Panic \<Rightarrow> Some Panic
      | Diverge \<Rightarrow> Some Diverge)"

definition mem_GetParentsUntilAncestor ::
    "directory_id \<Rightarrow> directory_id \<Rightarrow> storage_option list \<Rightarrow> 'bus mem_world
      \<Rightarrow> directory_id list outcome" where
  "mem_GetParentsUntilAncestor child ancestor options w =
     (let opts = BuildOptions options
      in and_then (mem_GetDirectory ancestor options w) (\<lambda>ancestorDir.
         and_then (returned (until_loop (\<lambda>j. mem_GetDirectory j options w) (heap w)
                     ancestor ancestorDir child [] []))
           (\<lambda>(parentIDs, parents).
              if int (length parents) < sint (GetPageOffset opts) then Ok []
              else page_slice opts (sort_slice (parents_less (heap w) parents) parentIDs))))"

fun group_children :: "(addr \<Rightarrow> directory) \<Rightarrow> bool \<Rightarrow> dir_map \<Rightarrow> (directory_id \<Rightarrow> addr list)
    \<Rightarrow> (directory_id \<Rightarrow> addr list) outcome" where
  "group_children h dels [] kids = Ok kids"
| "group_children h dels ((k, Foreign) # es) kids = Err found_not_a_directory"
| "group_children h dels ((k, DirPtr a) # es) kids =
     (if DeletedAt (h a) \<noteq> None \<and> \<not> dels \<or> Parent (h a) = None then group_children h dels es kids
      else (let parent = the (Parent (h a))
            in group_children h dels es (kids(parent := kids parent @ [a]))))"

partial_function (option) children_loop ::
    "(directory_id \<Rightarrow> addr list) \<Rightarrow> (addr \<Rightarrow> directory) \<Rightarrow> nat \<Rightarrow> addr list \<Rightarrow> addr list option" where
  "children_loop kids h i children =
     (if i < length children
      then children_loop kids h (Suc i) (children @ kids (DirId (h (children ! i))))
      else Some children)"

definition mem_getChildren ::
    "directory_id \<Rightarrow> storage_options \<Rightarrow> 'bus mem_world \<Rightarrow> addr list outcome" where
  "mem_getChildren i opts w =
     and_then (group_children (heap w) (WithDeleted opts) (db w) (\<lambda>_. []))
       (\<lambda>kids. case children_loop kids (heap w) 0 (kids i) of
                 None \<Rightarrow> Diverge | Some children \<Rightarrow> Ok children)"

definition mem_GetChildren ::
    "directory_id \<Rightarrow> storage_option list \<Rightarrow> 'bus mem_world \<Rightarrow> directory_id list outcome" where
  "mem_GetChildren i options w =
     (let opts = BuildOptions options
      in and_then (mem_getChildren i opts w) (\<lambda>children.
           if int (length children) < sint (GetPageOffset opts) then Ok []
           else and_then (page_copy opts (sort_slice (by_creation (heap w)) children))
                  (\<lambda>cs. Ok (map (\<lambda>a. DirId (heap w a)) cs))))"

fun delete_loop :: "go_time \<Rightarrow> directory_id list \<Rightarrow> addr list \<Rightarrow> 'bus mem_world
    \<Rightarrow> 'bus mem_world \<times> addr list outcome" where
  "delete_loop t [] affected w = (w, Ok affected)"
| "delete_loop t (childID # rest) affected w =
     handle (w, mem_GetDirectory childID [] w)
       (\<lambda>w e. (w, Err (ErrWrap ''error getting child'' e)))
       (\<lambda>w child. delete_loop t rest (affected @ [child])
                    (write_ptr child ((heap w child)\<lparr>DeletedAt := Some t\<rparr>) w))"

definition mem_DeleteDirectory ::
    "inputs \<Rightarrow> directory_id \<Rightarrow> 'bus mem_world \<Rightarrow> 'bus mem_world \<times> addr list outcome" where
  "mem_DeleteDirectory inp i w =
     handle (w, mem_GetDirectory i [] w) (\<lambda>w e. (w, Err e)) (\<lambda>w dir.
       if Parent (heap w dir) = None then (w, Err ErrDirectoryNotFound)
       else handle (w, mem_GetChildren i [] w)
              (\<lambda>w e. (w, Err (ErrWrap ''error getting children'' e)))
              (\<lambda>w children.
                 let deletedTime = in_time1 inp
                 in delete_loop deletedTime children [dir]
                      (write_ptr dir ((heap w dir)\<lparr>DeletedAt := Some deletedTime\<rparr>) w)))"

definition memory_driver :: "(dir_map, 'bus) directory_admin" where
  "memory_driver = \<lparr>
     GetDirectory = (\<lambda>inp i options w. (w, mem_GetDirectory i options w)),
     GetParents = (\<lambda>inp i options w. (w, mem_GetParents i options w)),
     GetParentsUntilAncestor = (\<lambda>inp c a options w. (w, mem_GetParentsUntilAncestor c a options w)),
     GetChildren = (\<lambda>inp i options w. (w, mem_GetChildren i options w)),
     ListRoots = (\<lambda>inp options w. (w, mem_ListRoots options w)),
     CreateDirectory = mem_CreateDirectory,
     UpdateDirectory = mem_UpdateDirectory,
     DeleteDirectory = mem_DeleteDirectory,
     CreateRoot = mem_CreateRoot\<rparr>"

end
