(* ===== verification/Memory_Laws.thy ===== *)
theory Memory_Laws
  imports Memory_Driver
begin

text \<open>
  Correctness of the in-memory driver.

  \<^item> \<open>mem_view\<close> abstracts the driver's state to a forest; \<open>mem_inv\<close> is its invariant: keys are
    distinct, values are pointers to allocated directories filed under their own identifier,
    and the forest is well formed.
  \<^item> Reads: what each listing returns, in terms of the forest, and that its loop ends.
  \<^item> Writes: their effect on the forest, and that the invariant is kept.
\<close>

section \<open>Abstraction and invariant\<close>

definition mem_ptr :: "'bus mem_world \<Rightarrow> directory_id \<Rightarrow> addr option" where
  "mem_ptr w i = (case map_of (db w) i of Some (DirPtr a) \<Rightarrow> Some a | _ \<Rightarrow> None)"

definition mem_view :: "'bus mem_world \<Rightarrow> forest" where
  "mem_view w i = map_option (heap w) (mem_ptr w i)"

definition entry_ok :: "'bus mem_world \<Rightarrow> directory_id \<Rightarrow> map_value \<Rightarrow> bool" where
  "entry_ok w k v \<longleftrightarrow> (case v of DirPtr a \<Rightarrow> a < brk w \<and> DirId (heap w a) = k | Foreign \<Rightarrow> False)"

definition mem_wf :: "'bus mem_world \<Rightarrow> bool" where
  "mem_wf w \<longleftrightarrow> distinct (map fst (db w)) \<and> (\<forall>(k, v) \<in> set (db w). entry_ok w k v)"

definition mem_inv :: "'bus mem_world \<Rightarrow> bool" where
  "mem_inv w \<longleftrightarrow> mem_wf w \<and> tree_ok (mem_view w)"

fun ptrs :: "dir_map \<Rightarrow> addr list" where
  "ptrs [] = []"
| "ptrs ((k, DirPtr a) # es) = a # ptrs es"
| "ptrs ((k, Foreign) # es) = ptrs es"

lemma mem_invD: "mem_inv w \<Longrightarrow> mem_wf w" "mem_inv w \<Longrightarrow> tree_ok (mem_view w)"
  by (simp_all add: mem_inv_def)

lemma mem_wf_distinct: "mem_wf w \<Longrightarrow> distinct (map fst (db w))"
  by (simp add: mem_wf_def)

lemma mem_wf_entry: "mem_wf w \<Longrightarrow> (k, v) \<in> set (db w) \<Longrightarrow> entry_ok w k v"
  by (auto simp: mem_wf_def)

lemma mem_wf_lookup:
  assumes "mem_wf w" "map_of (db w) i = Some v"
  shows "\<exists>a. v = DirPtr a \<and> a < brk w \<and> DirId (heap w a) = i"
  using mem_wf_entry [OF assms(1) map_of_SomeD [OF assms(2)]]
  by (auto simp: entry_ok_def split: map_value.splits)

lemma mem_ptr_Some:
  "mem_wf w \<Longrightarrow> mem_ptr w i = Some a \<Longrightarrow> a < brk w \<and> DirId (heap w a) = i"
  using mem_wf_lookup [of w i "DirPtr a"]
  by (auto simp: mem_ptr_def split: option.splits map_value.splits)

lemma mem_ptr_map_of: "mem_ptr w i = Some a \<longleftrightarrow> map_of (db w) i = Some (DirPtr a)"
  by (auto simp: mem_ptr_def split: option.splits map_value.splits)

lemma mem_ptr_None: "mem_wf w \<Longrightarrow> mem_ptr w i = None \<longleftrightarrow> map_of (db w) i = None"
  by (auto simp: mem_ptr_def split: option.splits map_value.splits dest: mem_wf_lookup)

lemma mem_ptr_inj: "mem_wf w \<Longrightarrow> mem_ptr w i = Some a \<Longrightarrow> mem_ptr w j = Some a \<Longrightarrow> i = j"
  using mem_ptr_Some by blast

lemma mem_view_Some: "mem_view w i = Some d \<longleftrightarrow> (\<exists>a. mem_ptr w i = Some a \<and> d = heap w a)"
  by (auto simp: mem_view_def)

lemma mem_view_None: "mem_view w i = None \<longleftrightarrow> mem_ptr w i = None"
  by (simp add: mem_view_def)

lemma set_ptrs: "set (ptrs m) = {a. \<exists>k. (k, DirPtr a) \<in> set m}"
  by (induction m rule: ptrs.induct) auto

lemma mem_wf_no_Foreign: "mem_wf w \<Longrightarrow> (k, Foreign) \<notin> set (db w)"
  using mem_wf_entry by (fastforce simp: entry_ok_def)

lemma ptrs_keys:
  "(\<And>k v. (k, v) \<in> set m \<Longrightarrow> \<exists>a. v = DirPtr a \<and> DirId (h a) = k) \<Longrightarrow>
    map (\<lambda>a. DirId (h a)) (ptrs m) = map fst m"
proof (induction m rule: ptrs.induct)
  case (2 k a es)
  have "DirId (h a) = k" using 2(2) by fastforce
  moreover have "map (\<lambda>a. DirId (h a)) (ptrs es) = map fst es" using 2(2) by (intro 2(1)) simp
  ultimately show ?case by simp
next
  case (3 k es)
  then show ?case by fastforce
qed simp

lemma mem_wf_ptrs_keys:
  assumes "mem_wf w" shows "map (\<lambda>a. DirId (heap w a)) (ptrs (db w)) = map fst (db w)"
proof (rule ptrs_keys)
  fix k v assume "(k, v) \<in> set (db w)"
  from mem_wf_entry [OF assms this] show "\<exists>a. v = DirPtr a \<and> DirId (heap w a) = k"
    by (auto simp: entry_ok_def split: map_value.splits)
qed

lemma mem_wf_ptrs_distinct:
  assumes "mem_wf w"
  shows "distinct (map (\<lambda>a. DirId (heap w a)) (ptrs (db w)))"
  using assms by (simp add: mem_wf_ptrs_keys mem_wf_distinct)

lemma in_ptrs_iff:
  assumes "mem_wf w"
  shows "a \<in> set (ptrs (db w)) \<longleftrightarrow> mem_ptr w (DirId (heap w a)) = Some a"
proof
  assume "a \<in> set (ptrs (db w))"
  then obtain k where k: "(k, DirPtr a) \<in> set (db w)" by (auto simp: set_ptrs)
  moreover from mem_wf_entry [OF assms k] have "DirId (heap w a) = k" by (simp add: entry_ok_def)
  moreover have "map_of (db w) k = Some (DirPtr a)"
    using mem_wf_distinct [OF assms] k by (rule map_of_distinct_mem)
  ultimately show "mem_ptr w (DirId (heap w a)) = Some a" by (simp add: mem_ptr_def)
next
  assume "mem_ptr w (DirId (heap w a)) = Some a"
  then show "a \<in> set (ptrs (db w))"
    by (auto simp: mem_ptr_map_of set_ptrs dest: map_of_SomeD)
qed

section \<open>GetDirectory\<close>

lemma mem_GetDirectory_view:
  assumes "mem_wf w"
  shows "mem_GetDirectory i options w =
    (case mem_ptr w i of
       None \<Rightarrow> Err ErrDirectoryNotFound
     | Some a \<Rightarrow> if visible (WithDeleted (BuildOptions options)) (heap w a) then Ok a
               else Err ErrDirectoryNotFound)"
  using mem_wf_lookup [OF assms]
  by (fastforce simp: mem_GetDirectory_def mem_ptr_def visible_def Let_def
      split: option.splits map_value.splits)

lemma mem_GetDirectory_Ok:
  assumes "mem_wf w"
  shows "mem_GetDirectory i options w = Ok a \<longleftrightarrow>
    mem_ptr w i = Some a \<and> visible (WithDeleted (BuildOptions options)) (heap w a)"
  by (auto simp: mem_GetDirectory_view [OF assms] split: option.splits if_splits)

lemma mem_GetDirectory_found:
  assumes "mem_wf w" "mem_view w i = Some d" "visible (WithDeleted (BuildOptions options)) d"
  shows "\<exists>a. mem_GetDirectory i options w = Ok a \<and> heap w a = d \<and> mem_ptr w i = Some a"
  using assms by (auto simp: mem_GetDirectory_view mem_view_Some)

lemma mem_GetDirectory_missing:
  assumes "mem_wf w"
    and "\<And>d. mem_view w i = Some d \<Longrightarrow> \<not> visible (WithDeleted (BuildOptions options)) d"
  shows "mem_GetDirectory i options w = Err ErrDirectoryNotFound"
  using assms by (auto simp: mem_GetDirectory_view mem_view_Some split: option.splits)

section \<open>Pages\<close>

lemma clamp_limit_in_range:
  assumes "page_in_range opts" "sint (GetPageOffset opts) \<le> int (length xs)"
  shows "sint (clamp_limit opts xs)
    = int (min (length xs) (page_offset opts + nat (sint (GetPageSize opts))))"
proof (cases "int (length xs) < sint (GetPageOffset opts + GetPageSize opts)")
  case True
  moreover from this have "int (length xs) < 2 ^ 63"
    using sint_go_int_bounds(2) [of "GetPageOffset opts + GetPageSize opts"] by linarith
  ultimately show ?thesis
    using sint_GetPageLimit_nat [OF assms(1)]
    by (auto simp: clamp_limit_def Let_def sint_go_int_of_nat min_def split: if_splits)
next
  case False
  then show ?thesis
    using sint_GetPageLimit_nat [OF assms(1)]
    by (auto simp: clamp_limit_def Let_def min_def split: if_splits)
qed

lemma paged_slice:
  assumes "page_in_range opts"
  shows "(if int (length xs) < sint (GetPageOffset opts) then Ok [] else page_slice opts xs)
    = Ok (page_of opts xs)"
proof (cases "int (length xs) < sint (GetPageOffset opts)")
  case True
  then show ?thesis using sint_GetPageOffset_nat [OF assms] by (simp add: page_of_def)
next
  case False
  let ?n = "min (length xs) (page_offset opts + nat (sint (GetPageSize opts)))"
  have "page_slice opts xs = slice_expr xs (int (page_offset opts)) (int ?n)"
    using False assms by (simp add: page_slice_def clamp_limit_in_range sint_GetPageOffset_nat)
  also have "\<dots> = slice_expr xs (int (page_offset opts))
      (int (page_offset opts + (?n - page_offset opts)))"
    using False sint_GetPageOffset_nat [OF assms] by (simp add: min_def)
  also have "\<dots> = Ok (take (?n - page_offset opts) (drop (page_offset opts) xs))"
    using False sint_GetPageOffset_nat [OF assms] by (intro slice_expr_in_range) auto
  also have "take (?n - page_offset opts) (drop (page_offset opts) xs) = page_of opts xs"
    by (auto simp: page_of_def min_def)
  finally show ?thesis using False by simp
qed

lemma paged_copy:
  assumes "page_in_range opts"
  shows "(if int (length xs) < sint (GetPageOffset opts) then Ok [] else page_copy opts xs)
    = Ok (page_of opts xs)"
proof (cases "int (length xs) < sint (GetPageOffset opts)")
  case True
  then show ?thesis using sint_GetPageOffset_nat [OF assms] by (simp add: page_of_def)
next
  case False
  let ?off = "page_offset opts"
  let ?n = "min (length xs) (?off + nat (sint (GetPageSize opts)))"
  have le: "?off \<le> ?n" using False sint_GetPageOffset_nat [OF assms] by simp
  have lim: "sint (clamp_limit opts xs) = int ?n"
    using False assms by (intro clamp_limit_in_range) simp_all
  moreover have "int ?n < 2 ^ 63"
    using sint_go_int_bounds(2) [of "clamp_limit opts xs"] lim by simp
  ultimately have "sint (clamp_limit opts xs - GetPageOffset opts) = int (?n - ?off)"
    using le sint_GetPageOffset_nat [OF assms] by (subst go_int_diff_exact) (auto simp: of_nat_diff)
  then have "page_copy opts xs = make_and_copy xs (int ?off) (int (?n - ?off))"
    using sint_GetPageOffset_nat [OF assms] by (simp add: page_copy_def)
  also have "\<dots> = Ok (take (?n - ?off) (drop ?off xs))"
    using le by (intro make_and_copy_in_range) auto
  also have "take (?n - ?off) (drop ?off xs) = page_of opts xs"
    by (auto simp: page_of_def min_def)
  finally show ?thesis using False by simp
qed

text \<open>An offset that wrapped below zero always ends in a run-time panic.\<close>

lemma page_copy_negative_offset:
  assumes "sint (GetPageOffset opts) < 0"
  shows "page_copy opts xs = Panic"
proof -
  have "clamp_limit opts xs \<noteq> GetPageOffset opts"
  proof
    assume eq: "clamp_limit opts xs = GetPageOffset opts"
    show False
    proof (cases "int (length xs) < sint (GetPageOffset opts + GetPageSize opts)")
      case True
      then have "int (length xs) < 2 ^ 63"
        using sint_go_int_bounds(2) [of "GetPageOffset opts + GetPageSize opts"] by linarith
      then have "sint (clamp_limit opts xs) = int (length xs)"
        using True by (simp add: clamp_limit_def Let_def sint_go_int_of_nat)
      with eq assms show False by simp
    next
      case False
      with eq have "GetPageSize opts = 0" by (simp add: clamp_limit_def Let_def)
      then show False using GetPageSize_pos [of opts] by simp
    qed
  qed
  then have "sint (clamp_limit opts xs - GetPageOffset opts) \<noteq> 0"
    by (simp add: signed_eq_0_iff)
  with assms show ?thesis by (simp add: page_copy_def make_and_copy_negative)
qed

lemma page_slice_negative_offset:
  "sint (GetPageOffset opts) < 0 \<Longrightarrow> page_slice opts xs = Panic"
  by (simp add: page_slice_def slice_expr_def)

end
