(* ===== verification/Memory_Listing.thy ===== *)
theory Memory_Listing
  imports Memory_Laws
begin

text \<open>
  What the listings of the in-memory driver return, in terms of the forest, for every state
  that satisfies the invariant: \<open>ListRoots\<close> the visible roots, \<open>GetChildren\<close> all visible
  descendants (breadth first, then sorted by creation), \<open>GetParents\<close> and
  \<open>GetParentsUntilAncestor\<close> the chain of parents. That the three loops end is part of each
  statement.
\<close>

abbreviation ids_of :: "'bus mem_world \<Rightarrow> addr list \<Rightarrow> directory_id list" where
  "ids_of w as \<equiv> map (\<lambda>a. DirId (heap w a)) as"

definition creation_key :: "'bus mem_world \<Rightarrow> addr \<Rightarrow> int" where
  "creation_key w a = time_ns (CreatedAt (heap w a))"

lemma by_creation_less_by: "by_creation (heap w) = less_by (creation_key w)"
  by (simp add: by_creation_def [abs_def] time_Before_def creation_key_def)

lemma sort_by_creation: "sort_slice (by_creation (heap w)) as = sort_key (creation_key w) as"
  by (simp add: by_creation_less_by sort_slice_less_by)

section \<open>ListRoots\<close>

definition root_ptrs :: "bool \<Rightarrow> 'bus mem_world \<Rightarrow> addr list" where
  "root_ptrs dels w =
     filter (\<lambda>a. visible dels (heap w a) \<and> Parent (heap w a) = None) (ptrs (db w))"

lemma collect_roots_filter:
  "(\<And>k. (k, Foreign) \<notin> set m) \<Longrightarrow>
    collect_roots h dels m acc
      = Ok (acc @ filter (\<lambda>a. visible dels (h a) \<and> Parent (h a) = None) (ptrs m))"
proof (induction h dels m acc rule: collect_roots.induct)
  case (2 h dels k es roots)
  then show ?case by (meson list.set_intros(1))
next
  case (3 h dels k a es roots)
  then show ?case by (auto simp: visible_def)
qed simp

lemma ids_root_ptrs:
  assumes "mem_wf w"
  shows "set (ids_of w (root_ptrs dels w)) = roots_of (mem_view w) dels"
    and "distinct (ids_of w (root_ptrs dels w))"
proof -
  show "set (ids_of w (root_ptrs dels w)) = roots_of (mem_view w) dels"
  proof (rule set_eqI, rule iffI)
    fix i assume "i \<in> set (ids_of w (root_ptrs dels w))"
    then show "i \<in> roots_of (mem_view w) dels"
      using assms by (auto simp: root_ptrs_def roots_of_def mem_view_Some in_ptrs_iff)
  next
    fix i assume "i \<in> roots_of (mem_view w) dels"
    then obtain a where a: "mem_ptr w i = Some a" "visible dels (heap w a)" "Parent (heap w a) = None"
      by (auto simp: roots_of_def mem_view_Some)
    moreover from this assms have "DirId (heap w a) = i" by (blast dest: mem_ptr_Some)
    ultimately show "i \<in> set (ids_of w (root_ptrs dels w))"
      using assms by (force simp: root_ptrs_def in_ptrs_iff)
  qed
  show "distinct (ids_of w (root_ptrs dels w))"
    using mem_wf_ptrs_distinct [OF assms] by (simp add: root_ptrs_def distinct_map_filter)
qed

lemma mem_ListRoots_eq:
  assumes "mem_wf w" "page_in_range (BuildOptions options)"
  shows "mem_ListRoots options w = Ok (page_of (BuildOptions options)
    (ids_of w (sort_key (creation_key w) (root_ptrs (WithDeleted (BuildOptions options)) w))))"
proof -
  let ?opts = "BuildOptions options"
  let ?rs = "root_ptrs (WithDeleted ?opts) w"
  have "collect_roots (heap w) (WithDeleted ?opts) (db w) [] = Ok ?rs"
    using mem_wf_no_Foreign [OF assms(1)] by (simp add: collect_roots_filter root_ptrs_def)
  moreover have "(if int (length ?rs) < sint (GetPageOffset ?opts) then Ok []
      else page_copy ?opts (sort_key (creation_key w) ?rs))
    = Ok (page_of ?opts (sort_key (creation_key w) ?rs))"
    using paged_copy [OF assms(2), of "sort_key (creation_key w) ?rs"] by simp
  ultimately show ?thesis
    by (auto simp: mem_ListRoots_def Let_def sort_by_creation page_of_map split: if_splits)
qed

section \<open>GetChildren\<close>

definition kids_of :: "bool \<Rightarrow> 'bus mem_world \<Rightarrow> directory_id \<Rightarrow> addr list" where
  "kids_of dels w p =
     filter (\<lambda>a. visible dels (heap w a) \<and> Parent (heap w a) = Some p) (ptrs (db w))"

lemma group_children_filter:
  "(\<And>k. (k, Foreign) \<notin> set m) \<Longrightarrow>
    group_children h dels m kids
      = Ok (\<lambda>p. kids p @ filter (\<lambda>a. visible dels (h a) \<and> Parent (h a) = Some p) (ptrs m))"
proof (induction h dels m kids rule: group_children.induct)
  case (2 h dels k es kids)
  then show ?case by (meson list.set_intros(1))
next
  case (3 h dels k a es kids)
  have no: "\<And>k. (k, Foreign) \<notin> set es" using 3(3) by auto
  show ?case
  proof (cases "DeletedAt (h a) \<noteq> None \<and> \<not> dels \<or> Parent (h a) = None")
    case True
    with 3(1) no show ?thesis by (auto simp: visible_def fun_eq_iff)
  next
    case False
    then obtain p where p: "Parent (h a) = Some p" "visible dels (h a)" by (auto simp: visible_def)
    let ?kids = "kids(p := kids p @ [a])"
    let ?rest = "\<lambda>q. filter (\<lambda>a. visible dels (h a) \<and> Parent (h a) = Some q) (ptrs es)"
    have "group_children h dels ((k, DirPtr a) # es) kids = group_children h dels es ?kids"
      using False p by (simp only: group_children.simps if_False Let_def option.sel)
    also have "\<dots> = Ok (\<lambda>q. ?kids q @ ?rest q)" using 3(2) [OF False refl no] p
      by (simp only: option.sel)
    also have "(\<lambda>q. ?kids q @ ?rest q) = (\<lambda>q. kids q @ filter
        (\<lambda>a. visible dels (h a) \<and> Parent (h a) = Some q) (ptrs ((k, DirPtr a) # es)))"
      using p by (auto simp: fun_eq_iff)
    finally show ?thesis .
  qed
qed simp

lemma in_kids_of:
  assumes "mem_wf w"
  shows "a \<in> set (kids_of dels w p) \<longleftrightarrow>
    mem_ptr w (DirId (heap w a)) = Some a \<and> visible dels (heap w a) \<and> Parent (heap w a) = Some p"
  by (auto simp: kids_of_def in_ptrs_iff [OF assms])

lemma distinct_ids_kids: "mem_wf w \<Longrightarrow> distinct (ids_of w (kids_of dels w p))"
  by (simp add: kids_of_def distinct_map_filter mem_wf_ptrs_distinct)

lemma kids_view:
  assumes "mem_wf w" "a \<in> set (kids_of dels w p)"
  shows "mem_view w (DirId (heap w a)) = Some (heap w a)"
  using assms by (auto simp: in_kids_of mem_view_Some)

text \<open>
  The state of the breadth-first loop after \<open>i\<close> rounds: the list holds the children of the
  root and of its first \<open>i\<close> elements, each once, all of them descendants of the root.
\<close>

definition children_state ::
    "bool \<Rightarrow> 'bus mem_world \<Rightarrow> directory_id \<Rightarrow> nat \<Rightarrow> addr list \<Rightarrow> bool" where
  "children_state dels w r i xs \<longleftrightarrow> i \<le> length xs
    \<and> xs = kids_of dels w r @ concat (map (\<lambda>a. kids_of dels w (DirId (heap w a))) (take i xs))
    \<and> distinct (ids_of w xs) \<and> set xs \<subseteq> set (ptrs (db w))
    \<and> (\<forall>a \<in> set xs. descends (mem_view w) dels r (DirId (heap w a)))"

lemma children_state_start:
  assumes "mem_wf w" shows "children_state dels w r 0 (kids_of dels w r)"
  using assms distinct_ids_kids [OF assms, of dels r]
  by (auto simp: children_state_def in_ptrs_iff in_kids_of kids_view intro!: descends.child)

lemma children_state_set:
  assumes "children_state dels w r i xs"
  shows "set xs = set (kids_of dels w r)
    \<union> (\<Union>a \<in> set (take i xs). set (kids_of dels w (DirId (heap w a))))"
proof -
  have "xs = kids_of dels w r @ concat (map (\<lambda>a. kids_of dels w (DirId (heap w a))) (take i xs))"
    using assms by (simp add: children_state_def)
  from arg_cong [OF this, of set] show ?thesis by simp
qed

lemma children_state_kid_origin:
  assumes "mem_wf w" "children_state dels w r i xs" "c \<in> set xs"
  shows "Parent (heap w c) = Some r \<or>
    (\<exists>j < i. j < length xs \<and> Parent (heap w c) = Some (DirId (heap w (xs ! j))))"
proof -
  consider "c \<in> set (kids_of dels w r)"
    | a where "a \<in> set (take i xs)" "c \<in> set (kids_of dels w (DirId (heap w a)))"
    using assms(3) children_state_set [OF assms(2)] by auto
  then show ?thesis
  proof cases
    case 1
    then show ?thesis by (simp add: in_kids_of [OF assms(1)])
  next
    case 2
    then obtain j where "j < i" "j < length xs" "xs ! j = a" by (auto simp: in_set_conv_nth)
    with 2 show ?thesis by (auto simp: in_kids_of [OF assms(1)])
  qed
qed

lemma children_state_step:
  assumes inv: "mem_inv w" and st: "children_state dels w r i xs" and i: "i < length xs"
  shows "children_state dels w r (Suc i) (xs @ kids_of dels w (DirId (heap w (xs ! i))))"
proof -
  let ?q = "DirId (heap w (xs ! i))" and ?ids = "\<lambda>as. ids_of w as"
  have wf: "mem_wf w" and ok: "tree_ok (mem_view w)" using inv by (simp_all add: mem_invD)
  have xs: "distinct (?ids xs)" "set xs \<subseteq> set (ptrs (db w))"
    "\<forall>a \<in> set xs. descends (mem_view w) dels r (DirId (heap w a))"
    using st by (simp_all add: children_state_def)
  have desc: "descends (mem_view w) dels r (DirId (heap w c))" if "c \<in> set (kids_of dels w ?q)" for c
  proof -
    from that have c: "visible dels (heap w c)" "Parent (heap w c) = Some ?q"
      by (simp_all add: in_kids_of [OF wf])
    from i xs(3) have "descends (mem_view w) dels r ?q" by simp
    from this kids_view [OF wf that] c show ?thesis by (rule descends.below)
  qed
  have new: "DirId (heap w c) \<notin> set (?ids xs)" if c: "c \<in> set (kids_of dels w ?q)" for c
  proof
    assume "DirId (heap w c) \<in> set (?ids xs)"
    then obtain b where b: "b \<in> set xs" "DirId (heap w b) = DirId (heap w c)" by auto
    then have "c = b" using c xs(2) by (force simp: in_kids_of [OF wf] in_ptrs_iff [OF wf])
    with b children_state_kid_origin [OF wf st, of c] c
    have "?q = r \<or> (\<exists>j < i. DirId (heap w (xs ! j)) = ?q)" by (auto simp: in_kids_of [OF wf])
    moreover have "?q \<noteq> r" using xs(3) i descends_irrefl [OF ok] by (metis nth_mem)
    ultimately obtain j where "j < i" "?ids xs ! j = ?ids xs ! i" using i by auto
    with i nth_eq_iff_index_eq [OF xs(1), of j i] show False by simp
  qed
  have "take (Suc i) (xs @ kids_of dels w ?q) = take i xs @ [xs ! i]"
    using i by (simp add: take_Suc_conv_app_nth)
  moreover have "xs = kids_of dels w r @ concat (map (\<lambda>a. kids_of dels w (DirId (heap w a))) (take i xs))"
    using st by (simp add: children_state_def)
  ultimately have eq: "xs @ kids_of dels w ?q = kids_of dels w r @ concat
      (map (\<lambda>a. kids_of dels w (DirId (heap w a))) (take (Suc i) (xs @ kids_of dels w ?q)))"
    by simp
  have dist: "distinct (?ids (xs @ kids_of dels w ?q))"
  proof -
    have "\<forall>x \<in> set (?ids (kids_of dels w ?q)). x \<notin> set (?ids xs)" using new by simp
    then show ?thesis
      unfolding map_append distinct_append using xs(1) distinct_ids_kids [OF wf, of dels ?q] by blast
  qed
  have sub: "set (xs @ kids_of dels w ?q) \<subseteq> set (ptrs (db w))"
    using xs(2) by (auto simp: kids_of_def)
  have "Suc i \<le> length (xs @ kids_of dels w ?q)" using i by simp
  moreover have "\<forall>a \<in> set (xs @ kids_of dels w ?q). descends (mem_view w) dels r (DirId (heap w a))"
    using xs(3) desc by auto
  ultimately show ?thesis
    unfolding children_state_def using eq dist sub by blast
qed

lemma children_state_length:
  assumes "mem_wf w" "children_state dels w r i xs"
  shows "length xs \<le> length (ptrs (db w))"
proof -
  have "distinct xs" using assms(2) by (auto simp: children_state_def distinct_map)
  then have "length xs = card (set xs)" by (simp add: distinct_card)
  also have "\<dots> \<le> card (set (ptrs (db w)))"
    using assms(2) by (intro card_mono) (auto simp: children_state_def)
  also have "\<dots> \<le> length (ptrs (db w))" by (rule card_length)
  finally show ?thesis .
qed

text \<open>The loop ends, because no directory enters the list twice.\<close>

lemma children_loop_ends:
  assumes "mem_inv w" "children_state dels w r i xs"
  shows "\<exists>ys. children_loop (kids_of dels w) (heap w) i xs = Some ys
    \<and> children_state dels w r (length ys) ys"
  using assms(2)
proof (induction "length (ptrs (db w)) - i" arbitrary: i xs rule: less_induct)
  case less
  show ?case
  proof (cases "i < length xs")
    case True
    then have step: "children_state dels w r (Suc i) (xs @ kids_of dels w (DirId (heap w (xs ! i))))"
      using children_state_step assms(1) less.prems by blast
    have "i < length (ptrs (db w))"
      using True children_state_length [OF mem_invD(1) [OF assms(1)] less.prems] by simp
    then have "length (ptrs (db w)) - Suc i < length (ptrs (db w)) - i" by simp
    from less.hyps [OF this step] True show ?thesis by (subst children_loop.simps) simp
  next
    case False
    with less.prems have "i = length xs" by (simp add: children_state_def)
    moreover from this have "children_loop (kids_of dels w) (heap w) i xs = Some xs"
      by (subst children_loop.simps) simp
    ultimately show ?thesis using less.prems by auto
  qed
qed

lemma children_state_complete:
  assumes "mem_inv w" "children_state dels w r (length ys) ys"
  shows "set (ids_of w ys) = descendants (mem_view w) dels r"
proof (rule set_eqI, rule iffI)
  fix i assume "i \<in> set (ids_of w ys)"
  with assms(2) show "i \<in> descendants (mem_view w) dels r"
    by (auto simp: children_state_def descendants_def)
next
  fix i assume "i \<in> descendants (mem_view w) dels r"
  then have "descends (mem_view w) dels r i" by (simp add: descendants_def)
  then show "i \<in> set (ids_of w ys)"
  proof (rule descends_closed)
    fix j d p
    assume j: "mem_view w j = Some d" "visible dels d" "Parent d = Some p"
      "p = r \<or> p \<in> set (ids_of w ys)"
    have wf: "mem_wf w" using assms(1) by (rule mem_invD)
    from j(1) obtain a where a: "mem_ptr w j = Some a" "d = heap w a" by (auto simp: mem_view_Some)
    with wf have id: "DirId (heap w a) = j" by (blast dest: mem_ptr_Some)
    with a j(2,3) have "a \<in> set (kids_of dels w p)" by (simp add: in_kids_of [OF wf])
    then have "a \<in> set ys" using j(4) by (subst children_state_set [OF assms(2)]) auto
    with id show "j \<in> set (ids_of w ys)" by force
  qed
qed

lemma mem_getChildren_spec:
  assumes "mem_inv w"
  shows "\<exists>as. mem_getChildren r opts w = Ok as \<and> distinct (ids_of w as)
    \<and> set (ids_of w as) = descendants (mem_view w) (WithDeleted opts) r
    \<and> set as \<subseteq> set (ptrs (db w))"
proof -
  let ?dels = "WithDeleted opts"
  have wf: "mem_wf w" using assms by (rule mem_invD)
  have "group_children (heap w) ?dels (db w) (\<lambda>_. []) = Ok (kids_of ?dels w)"
    using mem_wf_no_Foreign [OF wf] by (simp add: group_children_filter kids_of_def [abs_def])
  moreover obtain ys where "children_loop (kids_of ?dels w) (heap w) 0 (kids_of ?dels w r) = Some ys"
    "children_state ?dels w r (length ys) ys"
    using children_loop_ends [OF assms children_state_start [OF wf]] by blast
  ultimately show ?thesis
    using children_state_complete [OF assms, of ?dels r ys]
    by (auto simp: mem_getChildren_def children_state_def)
qed

lemma mem_GetChildren_eq:
  assumes "mem_getChildren r (BuildOptions options) w = Ok as" "page_in_range (BuildOptions options)"
  shows "mem_GetChildren r options w
    = Ok (page_of (BuildOptions options) (ids_of w (sort_key (creation_key w) as)))"
  using assms paged_copy [OF assms(2), of "sort_key (creation_key w) as"]
  by (auto simp: mem_GetChildren_def Let_def sort_by_creation page_of_map split: if_splits)

end
