(* ===== verification/Memory_Parents.thy ===== *)
theory Memory_Parents
  imports Memory_Laws
begin

text \<open>
  What \<open>GetParents\<close> and \<open>GetParentsUntilAncestor\<close> of the in-memory driver return: the chain of
  parents, permuted by a sort whose less function looks at another slice than the one it
  sorts; the error when some parent is hidden; the nil dereference when the ancestor asked for
  is the starting directory and a root. Every case also says that the loop ends.
\<close>

definition ptr_of :: "'bus mem_world \<Rightarrow> directory_id \<Rightarrow> addr" where
  "ptr_of w i = the (mem_ptr w i)"

lemma mem_GetDirectory_visible:
  assumes "mem_wf w" "mem_view w i = Some d" "visible (WithDeleted (BuildOptions options)) d"
  shows "mem_GetDirectory i options w = Ok (ptr_of w i)" and "heap w (ptr_of w i) = d"
  using mem_GetDirectory_found [OF assms] by (auto simp: ptr_of_def)

lemma mem_GetDirectory_hidden:
  assumes "mem_wf w" "mem_view w i = Some d" "\<not> visible (WithDeleted (BuildOptions options)) d"
  shows "mem_GetDirectory i options w = Err ErrDirectoryNotFound"
  using assms by (intro mem_GetDirectory_missing) auto

section \<open>The loop of GetParents\<close>

lemma parents_loop_chain:
  assumes "mem_wf w"
    and "parent_chain (mem_view w) (WithDeleted (BuildOptions options)) i ps"
  shows "parents_loop (\<lambda>j. mem_GetDirectory j options w) (heap w) i ids parents
    = Some (Ok (ids @ ps, parents @ (if ids = [] then [] else [ptr_of w i]) @ map (ptr_of w) ps))"
  using assms(2)
proof (induction arbitrary: ids parents rule: parent_chain.induct)
  case (chain_root i d)
  then show ?case
    using mem_GetDirectory_visible [OF assms(1) chain_root(1,2)]
    by (subst parents_loop.simps) simp
next
  case (chain_step i d p ps)
  then show ?case
    using mem_GetDirectory_visible [OF assms(1) chain_step(1,2)]
    by (subst parents_loop.simps) simp
qed

lemma parents_loop_broken:
  assumes inv: "mem_inv w"
    and "mem_view w i = Some d"
    and "\<not> (\<exists>ps. parent_chain (mem_view w) (WithDeleted (BuildOptions options)) i ps)"
  shows "parents_loop (\<lambda>j. mem_GetDirectory j options w) (heap w) i ids parents
    = Some (Err ErrDirectoryNotFound)"
proof -
  have wf: "mem_wf w" using inv by (rule mem_invD)
  let ?F = "mem_view w" and ?dels = "WithDeleted (BuildOptions options)"
  obtain rk where rk: "rank_ok rk ?F" using tree_ok_rank [OF mem_invD(2) [OF inv]] by blast
  show ?thesis using assms(2,3)
  proof (induction "rk i" arbitrary: i d ids parents rule: less_induct)
    case less
    show ?case
    proof (cases "visible ?dels d")
      case False
      then show ?thesis
        using mem_GetDirectory_hidden [OF wf less.prems(1)] by (subst parents_loop.simps) simp
    next
      case True
      note get = mem_GetDirectory_visible [OF wf less.prems(1) True]
      have "Parent d \<noteq> None" using less.prems True parent_chain.chain_root by metis
      then obtain p where p: "Parent d = Some p" by blast
      then obtain d' where d': "?F p = Some d'"
        using tree_ok_parent_Some [OF mem_invD(2) [OF inv] less.prems(1)] by blast
      have "\<not> (\<exists>ps. parent_chain ?F ?dels p ps)"
        using less.prems True p parent_chain.chain_step by metis
      from less.hyps [OF rank_okD [OF rk less.prems(1) p] d' this] get p show ?thesis
        by (subst parents_loop.simps) simp
    qed
  qed
qed

lemma mem_GetParents_eq:
  assumes "mem_wf w" "page_in_range (BuildOptions options)"
    and "parent_chain (mem_view w) (WithDeleted (BuildOptions options)) i ps"
  shows "mem_GetParents i options w = Ok (page_of (BuildOptions options)
    (sort_slice (parents_less (heap w) (map (ptr_of w) ps)) ps))"
  using parents_loop_chain [OF assms(1,3), of "[]" "[]"]
    paged_slice [OF assms(2), of "sort_slice (parents_less (heap w) (map (ptr_of w) ps)) ps"]
  by (simp add: mem_GetParents_def returned_def Let_def)

lemma mem_GetParents_hidden:
  assumes "mem_inv w" "mem_view w i = Some d"
    and "\<not> (\<exists>ps. parent_chain (mem_view w) (WithDeleted (BuildOptions options)) i ps)"
  shows "mem_GetParents i options w = Err ErrDirectoryNotFound"
  using parents_loop_broken [OF assms, of "[]" "[]"]
  by (simp add: mem_GetParents_def returned_def Let_def)

section \<open>The loop of GetParentsUntilAncestor\<close>

lemma until_loop_found:
  assumes "mem_wf w"
    and "parent_chain (mem_view w) (WithDeleted (BuildOptions options)) i ps" "anc \<in> set ps"
  shows "\<exists>ms. length ms = length (takeWhile (\<lambda>p. p \<noteq> anc) ps) + (if ids = [] then 1 else 2)
    \<and> until_loop (\<lambda>j. mem_GetDirectory j options w) (heap w) anc ancDir i ids parents
      = Some (Ok (ids @ takeWhile (\<lambda>p. p \<noteq> anc) ps @ [anc], parents @ ms))"
  using assms(2,3)
proof (induction arbitrary: ids parents rule: parent_chain.induct)
  case (chain_step i d p ps)
  note get = mem_GetDirectory_visible [OF assms(1) chain_step(1,2)]
  show ?case
  proof (cases "p = anc")
    case True
    with get chain_step(3) show ?thesis
      by (subst until_loop.simps)
        (auto intro: exI [of _ "if ids = [] then [ancDir] else [ptr_of w i, ancDir]"])
  next
    case False
    with chain_step.prems have "anc \<in> set ps" by simp
    let ?parents = "if ids \<noteq> [] then parents @ [ptr_of w i] else parents"
    from chain_step.IH [OF \<open>anc \<in> set ps\<close>, of "ids @ [p]" ?parents]
    obtain ms where ms: "length ms = length (takeWhile (\<lambda>p. p \<noteq> anc) ps) + 2"
      "until_loop (\<lambda>j. mem_GetDirectory j options w) (heap w) anc ancDir p (ids @ [p]) ?parents
        = Some (Ok ((ids @ [p]) @ takeWhile (\<lambda>p. p \<noteq> anc) ps @ [anc], ?parents @ ms))"
      by auto
    have "until_loop (\<lambda>j. mem_GetDirectory j options w) (heap w) anc ancDir i ids parents
      = Some (Ok (ids @ takeWhile (\<lambda>p. p \<noteq> anc) (p # ps) @ [anc],
          parents @ (if ids = [] then ms else ptr_of w i # ms)))"
      using get chain_step(3) False ms(2) by (subst until_loop.simps) (simp split: if_splits)
    with ms(1) False show ?thesis
      by (intro exI [of _ "if ids = [] then ms else ptr_of w i # ms"]) simp
  qed
qed simp

lemma until_loop_not_above:
  assumes "mem_wf w"
    and "parent_chain (mem_view w) (WithDeleted (BuildOptions options)) i ps"
    and "anc \<notin> set ps" "ps = [] \<Longrightarrow> i \<noteq> anc"
    and ids: "\<And>j d. mem_view w j = Some d \<Longrightarrow> DirId d = j"
  shows "until_loop (\<lambda>j. mem_GetDirectory j options w) (heap w) anc ancDir i xs parents
    = Some (Err ErrDirectoryNotFound)"
  using assms(2-4)
proof (induction arbitrary: xs parents rule: parent_chain.induct)
  case (chain_root i d)
  then show ?case
    using mem_GetDirectory_visible [OF assms(1) chain_root(1,2)] ids [OF chain_root(1)]
    by (subst until_loop.simps) simp
next
  case (chain_step i d p ps)
  then have "p \<noteq> anc" "anc \<notin> set ps" by auto
  with chain_step show ?case
    using mem_GetDirectory_visible [OF assms(1) chain_step(1,2)]
    by (subst until_loop.simps) simp
qed

lemma until_loop_root_itself:
  assumes "mem_wf w" "mem_view w i = Some d" "visible (WithDeleted (BuildOptions options)) d"
    and "Parent d = None" "DirId d = i"
  shows "until_loop (\<lambda>j. mem_GetDirectory j options w) (heap w) i ancDir i xs parents = Some Panic"
  using mem_GetDirectory_visible [OF assms(1-3)] assms(4,5) by (subst until_loop.simps) simp

lemma mem_GetDirectory_dels:
  "WithDeleted (BuildOptions options) = WithDeleted (BuildOptions options') \<Longrightarrow>
    mem_GetDirectory i options w = mem_GetDirectory i options' w"
  by (simp add: mem_GetDirectory_def Let_def split: option.splits map_value.splits)

lemma options_with_dels: "\<exists>options. WithDeleted (BuildOptions options) = dels"
  by (rule exI [of _ "[\<lambda>opts. opts\<lparr>WithDeleted := dels\<rparr>]"]) (simp add: BuildOptions_def)

lemma mem_GetParentsUntilAncestor_eq:
  assumes "mem_wf w" and chain: "parent_chain (mem_view w) dels i ps" "anc \<in> set ps"
    and anc: "mem_view w anc = Some d" "visible dels d"
  shows "\<exists>qs. mset qs = mset (takeWhile (\<lambda>p. p \<noteq> anc) ps @ [anc])
    \<and> (\<forall>options. page_in_range (BuildOptions options) \<longrightarrow> WithDeleted (BuildOptions options) = dels \<longrightarrow>
         mem_GetParentsUntilAncestor i anc options w = Ok (page_of (BuildOptions options) qs))"
proof -
  let ?ids = "takeWhile (\<lambda>p. p \<noteq> anc) ps @ [anc]"
  obtain o0 where o0: "WithDeleted (BuildOptions o0) = dels" using options_with_dels by blast
  obtain ms where ms: "length ms = length ?ids"
    "until_loop (\<lambda>j. mem_GetDirectory j o0 w) (heap w) anc (ptr_of w anc) i [] [] = Some (Ok (?ids, ms))"
    using until_loop_found [OF assms(1), of o0 i ps anc "[]" "ptr_of w anc" "[]"] chain o0 by auto
  let ?qs = "sort_slice (parents_less (heap w) ms) ?ids"
  have "mem_GetParentsUntilAncestor i anc options w = Ok (page_of (BuildOptions options) ?qs)"
    if "page_in_range (BuildOptions options)" and dels: "WithDeleted (BuildOptions options) = dels"
    for options
  proof -
    have "(\<lambda>j. mem_GetDirectory j options w) = (\<lambda>j. mem_GetDirectory j o0 w)"
      using dels o0 by (auto intro: mem_GetDirectory_dels)
    with ms paged_slice [OF that(1), of ?qs] mem_GetDirectory_visible(1) [OF assms(1) anc(1), of options]
    show ?thesis
      using anc(2) dels by (simp add: mem_GetParentsUntilAncestor_def returned_def Let_def)
  qed
  then show ?thesis by (intro exI [of _ ?qs]) simp
qed

section \<open>The order of the parents\<close>

text \<open>
  When every less of neighbours answers true, the insertion sort reverses its slice: so it
  does for \<open>GetParents\<close> on a chain whose directories are each younger than their parent.
\<close>

lemma insertion_step_to_front:
  assumes "\<And>ys j. j < i \<Longrightarrow> less_fn ys (Suc j) j" "i < length xs"
  shows "insertion_step less_fn i xs = (xs ! i) # take i xs @ drop (Suc i) xs"
  using assms
proof (induction i arbitrary: xs)
  case 0
  then show ?case by (cases xs) auto
next
  case (Suc i)
  let ?ys = "slice_swap (Suc i) i xs"
  have "?ys = take i xs @ xs ! Suc i # xs ! i # drop (Suc (Suc i)) xs"
    using Suc.prems(2) slice_swap_adjacent [of "take i xs" "xs ! i" "xs ! Suc i" "drop (Suc (Suc i)) xs"]
    by (simp add: id_take_nth_drop [of i xs, symmetric] Cons_nth_drop_Suc min_def)
  moreover from this have "?ys ! i = xs ! Suc i" "take i ?ys = take i xs"
    "drop (Suc i) ?ys = xs ! i # drop (Suc (Suc i)) xs"
    using Suc.prems(2) by (simp_all add: nth_append min_def)
  moreover have "insertion_step less_fn i ?ys = ?ys ! i # take i ?ys @ drop (Suc i) ?ys"
    using Suc.prems by (intro Suc.IH) simp_all
  ultimately show ?case
    using Suc.prems by (simp add: take_Suc_conv_app_nth)
qed

lemma sort_slice_reverses:
  assumes "\<And>ys j. Suc j < length xs \<Longrightarrow> less_fn ys (Suc j) j"
  shows "sort_slice less_fn xs = rev xs"
proof -
  have "fold (insertion_step less_fn) [1..<k] xs = rev (take k xs) @ drop k xs"
    if "1 \<le> k" "k \<le> length xs" for k
    using that
  proof (induction k rule: nat_induct_at_least)
    case base
    then show ?case by (cases xs) auto
  next
    case (Suc k)
    let ?ys = "rev (take k xs) @ drop k xs"
    have "insertion_step less_fn k ?ys = ?ys ! k # take k ?ys @ drop (Suc k) ?ys"
      using Suc.prems assms by (intro insertion_step_to_front) simp_all
    then show ?case
      using Suc by (simp add: nth_append min_def take_Suc_conv_app_nth)
  qed
  from this [of "length xs"] show ?thesis
    by (cases "xs = []") (auto simp: sort_slice_def Suc_le_eq)
qed

end
