(* ===== verification/Memory_Writes.thy ===== *)
theory Memory_Writes
  imports Memory_Listing Memory_Parents
begin

text \<open>
  What the writes of the in-memory driver do to the forest, and that they keep the invariant.
  A pointer is \<open>loose\<close> when it is allocated and the map does not hold it: a directory the
  caller has just made. \<open>DeleteDirectory\<close> marks the directory and the first ten of its
  descendants in order of creation, since it lists them with the default page.
\<close>

definition loose :: "'bus mem_world \<Rightarrow> addr \<Rightarrow> bool" where
  "loose w a \<longleftrightarrow> a < brk w \<and> (\<forall>i. mem_ptr w i \<noteq> Some a)"

section \<open>Writing through a pointer\<close>

lemma mem_ptr_write_ptr [world_simps]: "mem_ptr (write_ptr a d w) i = mem_ptr w i"
  by (simp add: mem_ptr_def world_simps)

lemma mem_view_write_ptr:
  "mem_view (write_ptr a d w) i = (if mem_ptr w i = Some a then Some d else mem_view w i)"
  by (simp add: mem_view_def world_simps map_option_case split: option.splits)

lemma mem_wf_write_ptr:
  assumes "mem_wf w" "DirId d = DirId (heap w a) \<or> (\<forall>i. mem_ptr w i \<noteq> Some a)"
  shows "mem_wf (write_ptr a d w)"
  unfolding mem_wf_def
proof (intro conjI ballI, unfold db_write_ptr)
  show "distinct (map fst (db w))" using assms(1) by (rule mem_wf_distinct)
next
  fix e assume e: "e \<in> set (db w)"
  obtain k v where kv: "e = (k, v)" by (cases e)
  with e assms(1) have entry: "entry_ok w k v" by (auto dest: mem_wf_entry)
  then obtain b where b: "v = DirPtr b" "b < brk w" "DirId (heap w b) = k"
    by (auto simp: entry_ok_def split: map_value.splits)
  have "mem_ptr w k = Some b"
    using map_of_distinct_mem [OF mem_wf_distinct [OF assms(1)]] e kv b(1)
    by (simp add: mem_ptr_map_of)
  with assms(2) b(3) have "b = a \<longrightarrow> DirId d = k" by auto
  with b kv show "case e of (k, v) \<Rightarrow> entry_ok (write_ptr a d w) k v"
    by (simp add: entry_ok_def world_simps)
qed

lemma mem_view_write_stored:
  "mem_wf w \<Longrightarrow> mem_ptr w i = Some a \<Longrightarrow> mem_view (write_ptr a d w) = (mem_view w)(i \<mapsto> d)"
  using mem_ptr_inj by (fastforce simp: mem_view_write_ptr fun_eq_iff)

lemma mem_view_write_loose:
  "loose w a \<Longrightarrow> mem_view (write_ptr a d w) = mem_view w"
  by (simp add: mem_view_write_ptr fun_eq_iff loose_def)

section \<open>Storing a pointer in the map\<close>

lemma mem_ptr_update:
  "mem_ptr (w\<lparr>db := AList.update k (DirPtr a) (db w)\<rparr>) = (mem_ptr w)(k \<mapsto> a)"
  by (auto simp: mem_ptr_def fun_eq_iff update_conv')

lemma mem_view_update:
  "mem_view (w\<lparr>db := AList.update k (DirPtr a) (db w)\<rparr>) = (mem_view w)(k \<mapsto> heap w a)"
  unfolding mem_view_def [abs_def] mem_ptr_update by (simp add: fun_eq_iff)

lemma set_update_subset: "set (AList.update k v m) \<subseteq> insert (k, v) (set m)"
  by (induction m) auto

lemma mem_wf_update:
  assumes "mem_wf w" "a < brk w" "DirId (heap w a) = k"
  shows "mem_wf (w\<lparr>db := AList.update k (DirPtr a) (db w)\<rparr>)"
proof -
  have "entry_ok (w\<lparr>db := AList.update k (DirPtr a) (db w)\<rparr>) k' v"
    if "(k', v) \<in> set (AList.update k (DirPtr a) (db w))" for k' v
  proof -
    have "(k', v) = (k, DirPtr a) \<or> entry_ok w k' v"
      using that set_update_subset [of k "DirPtr a" "db w"] mem_wf_entry [OF assms(1)] by blast
    with assms(2,3) show ?thesis by (auto simp: entry_ok_def split: map_value.splits)
  qed
  then show ?thesis
    using mem_wf_distinct [OF assms(1)] by (auto simp: mem_wf_def distinct_update)
qed

section \<open>Creating\<close>

definition created :: "inputs \<Rightarrow> directory \<Rightarrow> directory" where
  "created inp d = (default_metadata d)
     \<lparr>DirId := in_uuid inp, CreatedAt := in_time1 inp, UpdatedAt := in_time2 inp\<rparr>"

lemma mem_store_new_spec:
  assumes inv: "mem_inv w" and a: "loose w a" and fresh: "mem_view w (in_uuid inp) = None"
    and parent: "\<And>p. Parent (heap w a) = Some p \<Longrightarrow> p \<in> dom (mem_view w)"
  defines "d \<equiv> created inp (heap w a)"
  shows "\<exists>w'. mem_store_new inp a w = (w', Ok a) \<and> mem_inv w'
    \<and> mem_view w' = (mem_view w)(in_uuid inp \<mapsto> d)
    \<and> heap w' = (heap w)(a := d) \<and> brk w' = brk w \<and> bus w' = bus w
    \<and> mem_ptr w' = (mem_ptr w)(in_uuid inp \<mapsto> a)"
proof -
  let ?w1 = "write_ptr a d w"
  let ?w' = "?w1\<lparr>db := AList.update (in_uuid inp) (DirPtr a) (db ?w1)\<rparr>"
  have wf: "mem_wf w" using inv by (rule mem_invD)
  have "map_of (db w) (in_uuid inp) = None"
    using fresh wf by (simp add: mem_view_None mem_ptr_None)
  then have run: "mem_store_new inp a w = (?w', Ok a)"
    by (simp add: mem_store_new_def LoadOrStore_def d_def created_def world_simps Let_def)
  have view: "mem_view ?w' = (mem_view w)(in_uuid inp \<mapsto> d)"
    unfolding mem_view_update using a by (simp add: mem_view_write_loose heap_write_ptr)
  have ptr: "mem_ptr ?w' = (mem_ptr w)(in_uuid inp \<mapsto> a)"
    unfolding mem_ptr_update by (simp add: fun_eq_iff mem_ptr_write_ptr)
  have "mem_wf ?w1" using wf a by (intro mem_wf_write_ptr) (auto simp: loose_def)
  then have "mem_wf ?w'"
    using a by (intro mem_wf_update) (simp_all add: world_simps loose_def d_def created_def)
  moreover have "tree_ok (mem_view ?w')"
    unfolding view using mem_invD(2) [OF inv] fresh parent
    by (intro tree_ok_insert) (auto simp: d_def created_def)
  ultimately have "mem_inv ?w'" by (simp add: mem_inv_def)
  with run view ptr show ?thesis
    by (intro exI [of _ ?w']) (auto simp: write_ptr_def)
qed

section \<open>Updating\<close>

definition updated :: "inputs \<Rightarrow> directory \<Rightarrow> directory" where
  "updated inp d = (default_metadata d)\<lparr>UpdatedAt := in_time1 inp\<rparr>"

lemma mem_UpdateDirectory_spec:
  fixes inp :: inputs
  assumes inv: "mem_inv w" and a: "loose w a \<or> mem_ptr w i = Some a"
    and d: "mem_view w i = Some d0" "DirId (heap w a) = i" "Parent (heap w a) = Parent d0"
  defines "d \<equiv> updated inp (heap w a)"
  shows "\<exists>w'. mem_UpdateDirectory inp (Some a) w = (w', Ok ()) \<and> mem_inv w'
    \<and> mem_view w' = (mem_view w)(i \<mapsto> d)
    \<and> heap w' = (heap w)(a := d) \<and> brk w' = brk w \<and> bus w' = bus w
    \<and> mem_ptr w' = (mem_ptr w)(i \<mapsto> a)"
proof -
  let ?w1 = "write_ptr a d w"
  let ?w' = "?w1\<lparr>db := AList.update i (DirPtr a) (db ?w1)\<rparr>"
  have wf: "mem_wf w" using inv by (rule mem_invD)
  have run: "mem_UpdateDirectory inp (Some a) w = (?w', Ok ())"
    using d(2) by (simp add: mem_UpdateDirectory_def d_def updated_def world_simps Let_def)
  have "mem_view ?w1 = mem_view w \<or> mem_view ?w1 = (mem_view w)(i \<mapsto> d)"
    using a mem_view_write_loose mem_view_write_stored [OF wf] by blast
  then have view: "mem_view ?w' = (mem_view w)(i \<mapsto> d)"
    unfolding mem_view_update by (auto simp: heap_write_ptr)
  have ptr: "mem_ptr ?w' = (mem_ptr w)(i \<mapsto> a)"
    unfolding mem_ptr_update by (simp add: fun_eq_iff mem_ptr_write_ptr)
  have "mem_wf ?w1" using wf by (intro mem_wf_write_ptr) (simp_all add: d_def updated_def)
  moreover have "a < brk w" using a wf by (auto simp: loose_def dest: mem_ptr_Some)
  ultimately have "mem_wf ?w'"
    using d(2) by (intro mem_wf_update) (simp_all add: world_simps d_def updated_def)
  moreover have "tree_ok (mem_view ?w')"
    unfolding view using mem_invD(2) [OF inv] d
    by (intro tree_ok_overwrite) (auto simp: d_def updated_def)
  ultimately have "mem_inv ?w'" by (simp add: mem_inv_def)
  with run view ptr show ?thesis
    by (intro exI [of _ ?w']) (auto simp: write_ptr_def)
qed

section \<open>Deleting\<close>

lemma mem_mark_one:
  fixes t :: go_time
  assumes "mem_wf w" "mem_ptr w i = Some a"
  defines "w' \<equiv> write_ptr a ((heap w a)\<lparr>DeletedAt := Some t\<rparr>) w"
  shows "mem_wf w'" and "mem_view w' = mark_deleted {i} t (mem_view w)"
proof -
  show "mem_wf w'" unfolding w'_def using assms(1) by (intro mem_wf_write_ptr) simp_all
  have "mem_view w i = Some (heap w a)" using assms(2) by (auto simp: mem_view_Some)
  then show "mem_view w' = mark_deleted {i} t (mem_view w)"
    unfolding w'_def mem_view_write_stored [OF assms(1,2)]
    by (auto simp: mark_deleted_def fun_eq_iff)
qed

lemma mark_deleted_union: "mark_deleted I t (mark_deleted J t F) = mark_deleted (I \<union> J) t F"
  by (auto simp: mark_deleted_def fun_eq_iff option.map_comp map_option_case split: option.splits)

lemma delete_loop_spec:
  assumes "mem_wf w" "distinct cs"
    and "\<And>c. c \<in> set cs \<Longrightarrow> \<exists>d. mem_view w c = Some d \<and> DeletedAt d = None"
  shows "\<exists>w'. delete_loop t cs affected w = (w', Ok (affected @ map (ptr_of w) cs)) \<and> mem_wf w'
    \<and> mem_view w' = mark_deleted (set cs) t (mem_view w) \<and> mem_ptr w' = mem_ptr w
    \<and> brk w' = brk w \<and> bus w' = bus w \<and> (\<forall>b. DirId (heap w' b) = DirId (heap w b))"
  using assms
proof (induction cs arbitrary: affected w)
  case Nil
  then show ?case by (simp add: mark_deleted_def)
next
  case (Cons c cs)
  obtain d where d: "mem_view w c = Some d" "DeletedAt d = None" using Cons.prems(3) [of c] by auto
  then have get: "mem_GetDirectory c [] w = Ok (ptr_of w c)" and c: "mem_ptr w c = Some (ptr_of w c)"
    using mem_GetDirectory_found [OF Cons.prems(1) d(1), of "[]"]
    by (auto simp: visible_def ptr_of_def)
  let ?w1 = "write_ptr (ptr_of w c) ((heap w (ptr_of w c))\<lparr>DeletedAt := Some t\<rparr>) w"
  note one = mem_mark_one [OF Cons.prems(1) c, of t]
  have "\<exists>e. mem_view ?w1 b = Some e \<and> DeletedAt e = None" if "b \<in> set cs" for b
    using that Cons.prems(2,3) by (auto simp: one(2) mark_deleted_def)
  from Cons.IH [OF one(1) _ this, of "affected @ [ptr_of w c]"] Cons.prems(2)
  obtain w' where w': "delete_loop t cs (affected @ [ptr_of w c]) ?w1
      = (w', Ok ((affected @ [ptr_of w c]) @ map (ptr_of ?w1) cs))" "mem_wf w'"
    "mem_view w' = mark_deleted (set cs) t (mem_view ?w1)" "mem_ptr w' = mem_ptr ?w1"
    "brk w' = brk ?w1" "bus w' = bus ?w1" "\<forall>b. DirId (heap w' b) = DirId (heap ?w1 b)" by auto
  have "map (ptr_of ?w1) cs = map (ptr_of w) cs" by (simp add: ptr_of_def world_simps)
  moreover have "mem_view w' = mark_deleted (set (c # cs)) t (mem_view w)"
    unfolding w'(3) one(2) mark_deleted_union by simp
  moreover have "mem_ptr w' = mem_ptr w" using w'(4) by (simp add: fun_eq_iff world_simps)
  moreover have "delete_loop t (c # cs) affected w
      = (w', Ok ((affected @ [ptr_of w c]) @ map (ptr_of ?w1) cs))"
    using get w'(1) by simp
  ultimately show ?case using w'(2,5,6,7) by (intro exI [of _ w']) (auto simp: world_simps)
qed

text \<open>The descendants in the order the driver deletes them.\<close>

definition children_by_age :: "'bus mem_world \<Rightarrow> directory_id \<Rightarrow> directory_id list" where
  "children_by_age w i = (case mem_getChildren i new_options w of
     Ok as \<Rightarrow> ids_of w (sort_key (creation_key w) as) | _ \<Rightarrow> [])"

lemma children_by_age_spec:
  assumes "mem_inv w"
  shows "set (children_by_age w i) = descendants (mem_view w) False i"
    and "distinct (children_by_age w i)"
    and "mem_GetChildren i [] w = Ok (take 10 (children_by_age w i))"
proof -
  obtain as where as: "mem_getChildren i new_options w = Ok as" "distinct (ids_of w as)"
    "set (ids_of w as) = descendants (mem_view w) False i"
    using mem_getChildren_spec [OF assms, of i new_options] by auto
  then show "set (children_by_age w i) = descendants (mem_view w) False i"
    by (simp add: children_by_age_def)
  show "distinct (children_by_age w i)"
    using as(1,2) by (simp add: children_by_age_def distinct_map)
  show "mem_GetChildren i [] w = Ok (take 10 (children_by_age w i))"
    using mem_GetChildren_eq [of i "[]" w as] as(1) by (simp add: children_by_age_def)
qed

lemma mem_DeleteDirectory_spec:
  assumes inv: "mem_inv w" and d: "mem_view w i = Some d" "DeletedAt d = None" "Parent d \<noteq> None"
  defines "del \<equiv> i # take 10 (children_by_age w i)"
  shows "\<exists>w'. mem_DeleteDirectory inp i w = (w', Ok (map (ptr_of w) del)) \<and> mem_inv w'
    \<and> mem_view w' = mark_deleted (set del) (in_time1 inp) (mem_view w)
    \<and> ids_of w' (map (ptr_of w) del) = del \<and> mem_ptr w' = mem_ptr w
    \<and> brk w' = brk w \<and> bus w' = bus w"
proof -
  let ?t = "in_time1 inp" and ?cs = "take 10 (children_by_age w i)"
  have wf: "mem_wf w" and ok: "tree_ok (mem_view w)" using inv by (simp_all add: mem_invD)
  have get: "mem_GetDirectory i [] w = Ok (ptr_of w i)" and heap: "heap w (ptr_of w i) = d"
    using mem_GetDirectory_visible [OF wf d(1), of "[]"] d(2) by (simp_all add: visible_def)
  have i: "mem_ptr w i = Some (ptr_of w i)" using d(1) by (auto simp: mem_view_Some ptr_of_def)
  let ?w1 = "write_ptr (ptr_of w i) ((heap w (ptr_of w i))\<lparr>DeletedAt := Some ?t\<rparr>) w"
  note one = mem_mark_one [OF wf i, of ?t]
  have cs: "set ?cs \<subseteq> descendants (mem_view w) False i" "distinct ?cs"
    using children_by_age_spec(1,2) [OF inv, of i] set_take_subset [of 10 "children_by_age w i"]
    by simp_all
  have live: "\<exists>e. mem_view ?w1 c = Some e \<and> DeletedAt e = None" if "c \<in> set ?cs" for c
  proof -
    from that cs(1) have desc: "descends (mem_view w) False i c" by (auto simp: descendants_def)
    with descends_irrefl [OF ok] have "c \<noteq> i" by blast
    with descends_visible [OF desc] show ?thesis
      by (auto simp: one(2) mark_deleted_def visible_def)
  qed
  obtain w' where w': "delete_loop ?t ?cs [ptr_of w i] ?w1
      = (w', Ok ([ptr_of w i] @ map (ptr_of ?w1) ?cs))" "mem_wf w'"
    "mem_view w' = mark_deleted (set ?cs) ?t (mem_view ?w1)" "mem_ptr w' = mem_ptr ?w1"
    "brk w' = brk ?w1" "bus w' = bus ?w1" "\<forall>b. DirId (heap w' b) = DirId (heap ?w1 b)"
    using delete_loop_spec [OF one(1) cs(2) live] by blast
  have ptrs: "map (ptr_of ?w1) ?cs = map (ptr_of w) ?cs" by (simp add: ptr_of_def world_simps)
  have run: "mem_DeleteDirectory inp i w = (w', Ok (map (ptr_of w) del))"
    using get heap d(3) children_by_age_spec(3) [OF inv, of i] w'(1) ptrs
    by (simp add: mem_DeleteDirectory_def del_def Let_def)
  have view: "mem_view w' = mark_deleted (set del) ?t (mem_view w)"
    unfolding w'(3) one(2) mark_deleted_union by (simp add: del_def)
  have "mem_inv w'" using w'(2) view tree_ok_mark_deleted [OF ok] by (simp add: mem_inv_def)
  have ids: "DirId (heap w' (ptr_of w c)) = c" if c: "c \<in> set del" for c
  proof -
    have "c \<in> dom (mem_view w)"
      using c cs(1) descendants_subset_dom [of "mem_view w" False i] d(1)
      unfolding del_def set_simps insert_iff by blast
    then have "mem_ptr w c = Some (ptr_of w c)" by (auto simp: mem_view_Some ptr_of_def)
    then have "DirId (heap w (ptr_of w c)) = c" using mem_ptr_Some [OF wf] by blast
    moreover have "DirId (heap w' b) = DirId (heap w b)" for b
      using w'(7) by (simp add: heap_write_ptr)
    ultimately show ?thesis by simp
  qed
  have "mem_ptr w' = mem_ptr w" using w'(4) by (simp add: fun_eq_iff world_simps)
  with run view \<open>mem_inv w'\<close> ids w'(5,6) show ?thesis
    by (intro exI [of _ w']) (simp add: world_simps map_idI)
qed

lemma mem_DeleteDirectory_missing:
  assumes "mem_wf w" "\<And>d. mem_view w i = Some d \<Longrightarrow> DeletedAt d \<noteq> None \<or> Parent d = None"
  shows "mem_DeleteDirectory inp i w = (w, Err ErrDirectoryNotFound)"
proof (cases "\<exists>d. mem_view w i = Some d \<and> DeletedAt d = None")
  case True
  then obtain d where d: "mem_view w i = Some d" "DeletedAt d = None" by blast
  with assms(2) have "Parent d = None" by blast
  with mem_GetDirectory_visible [OF assms(1) d(1), of "[]"] d(2) show ?thesis
    by (simp add: mem_DeleteDirectory_def visible_def)
next
  case False
  then have "mem_GetDirectory i [] w = Err ErrDirectoryNotFound"
    using assms(1) by (intro mem_GetDirectory_missing) (auto simp: visible_def)
  then show ?thesis by (simp add: mem_DeleteDirectory_def)
qed

section \<open>A world whose map is empty\<close>

definition empty_mem_world :: "'bus \<Rightarrow> 'bus mem_world" where
  "empty_mem_world b = \<lparr>heap = (\<lambda>_. zero_directory), brk = 0, db = mem_NewDirectoryDriver [], bus = b\<rparr>"

lemma mem_inv_empty: "mem_inv (empty_mem_world b)"
proof -
  have "mem_view (empty_mem_world b) = Map.empty"
    by (simp add: mem_view_def [abs_def] mem_ptr_def empty_mem_world_def mem_NewDirectoryDriver_def)
  then show ?thesis
    by (simp add: mem_inv_def tree_ok_empty)
      (simp add: mem_wf_def empty_mem_world_def mem_NewDirectoryDriver_def)
qed

end
