(* ===== verification/Storage_Contract.thy ===== *)
theory Storage_Contract
  imports Storage
begin

text \<open>
  What a client of \<open>storage.Reader\<close> and \<open>storage.DirectoryAdmin\<close> may rely on, as locales.

  The parameters are the driver \<open>T\<close> (a record of methods), its invariant, its abstraction to a
  forest, and \<open>avail\<close>: the inputs for which the backend answers. The laws speak of the forest
  before and after a call, never of the driver's own state, so each driver can discharge them
  for its own representation.

  \<^item> \<open>directory_reader\<close>: lookups and listings. A listing returns a page of one fixed list, which
    holds the descendants (or the parents) each once; the order is the driver's own. Outside
    the conditions under which a listing is described, it still changes nothing.
  \<^item> \<open>directory_store\<close>: the writes. Deletion marks the directory and some of its descendants,
    all of them when there are at most ten, the page the in-memory driver deletes.
  \<^item> \<open>cascading_store\<close>: deletion marks all live descendants, however many there are.
\<close>

definition live_child :: "forest \<Rightarrow> directory_id \<Rightarrow> bool" where
  "live_child F i \<longleftrightarrow> (\<exists>d. F i = Some d \<and> DeletedAt d = None \<and> Parent d \<noteq> None)"

definition subtree :: "forest \<Rightarrow> directory_id \<Rightarrow> directory_id set" where
  "subtree F i = insert i (descendants F False i)"

text \<open>A new directory as stored: \<open>CreatedAt\<close> is the first reading of the clock, \<open>UpdatedAt\<close> the second one
  (\<open>late\<close>) or the first again, as the driver has it.\<close>

definition stored_new :: "inputs \<Rightarrow> bool \<Rightarrow> directory \<Rightarrow> directory" where
  "stored_new inp late d = (default_metadata d)\<lparr>DirId := in_uuid inp, CreatedAt := in_time1 inp,
     UpdatedAt := (if late then in_time2 inp else in_time1 inp)\<rparr>"

definition stored_update :: "inputs \<Rightarrow> directory \<Rightarrow> directory" where
  "stored_update inp d = (default_metadata d)\<lparr>UpdatedAt := in_time1 inp\<rparr>"

locale directory_reader =
  fixes T :: "('db, 'bus) directory_admin"
    and inv :: "('db, 'bus) world \<Rightarrow> bool"
    and view :: "('db, 'bus) world \<Rightarrow> forest"
    and avail :: "inputs \<Rightarrow> bool"
  assumes inv_tree: "inv w \<Longrightarrow> tree_ok (view w)"
    and inv_bus: "inv (w\<lparr>bus := b\<rparr>) = inv w"
    and view_bus: "view (w\<lparr>bus := b\<rparr>) = view w"
    and get_found: "inv w \<Longrightarrow> avail inp \<Longrightarrow> view w i = Some d \<Longrightarrow>
      visible (WithDeleted (BuildOptions options)) d \<Longrightarrow>
      \<exists>w' a. GetDirectory T inp i options w = (w', Ok a) \<and> heap w' a = d
        \<and> view w' = view w \<and> inv w'"
    and get_missing: "inv w \<Longrightarrow> avail inp \<Longrightarrow>
      (\<And>d. view w i = Some d \<Longrightarrow> \<not> visible (WithDeleted (BuildOptions options)) d) \<Longrightarrow>
      \<exists>w'. GetDirectory T inp i options w = (w', Err ErrDirectoryNotFound)
        \<and> view w' = view w \<and> inv w'"
    and get_children: "inv w \<Longrightarrow> view w i = Some d \<Longrightarrow> visible dels d \<Longrightarrow>
      \<exists>cs. distinct cs \<and> set cs = descendants (view w) dels i
        \<and> (\<forall>inp options. avail inp \<longrightarrow> page_in_range (BuildOptions options) \<longrightarrow>
             WithDeleted (BuildOptions options) = dels \<longrightarrow>
             GetChildren T inp i options w = (w, Ok (page_of (BuildOptions options) cs)))"
    and get_parents: "inv w \<Longrightarrow> parent_chain (view w) dels i ps \<Longrightarrow>
      \<exists>qs. mset qs = mset ps
        \<and> (\<forall>inp options. avail inp \<longrightarrow> page_in_range (BuildOptions options) \<longrightarrow>
             WithDeleted (BuildOptions options) = dels \<longrightarrow>
             GetParents T inp i options w = (w, Ok (page_of (BuildOptions options) qs)))"
    and get_until: "inv w \<Longrightarrow> parent_chain (view w) dels i ps \<Longrightarrow> anc \<in> set ps \<Longrightarrow>
      \<exists>qs. mset qs = mset (takeWhile (\<lambda>p. p \<noteq> anc) ps @ [anc])
        \<and> (\<forall>inp options. avail inp \<longrightarrow> page_in_range (BuildOptions options) \<longrightarrow>
             WithDeleted (BuildOptions options) = dels \<longrightarrow>
             GetParentsUntilAncestor T inp i anc options w
               = (w, Ok (page_of (BuildOptions options) qs)))"
    and list_roots: "inv w \<Longrightarrow>
      \<exists>rs. distinct rs \<and> set rs = roots_of (view w) dels
        \<and> (\<forall>inp options. avail inp \<longrightarrow> page_in_range (BuildOptions options) \<longrightarrow>
             WithDeleted (BuildOptions options) = dels \<longrightarrow>
             ListRoots T inp options w = (w, Ok (page_of (BuildOptions options) rs)))"
    and keep_children: "inv w \<Longrightarrow> avail inp \<Longrightarrow> GetChildren T inp i options w = (w', r) \<Longrightarrow>
      inv w' \<and> view w' = view w"
    and keep_parents: "inv w \<Longrightarrow> avail inp \<Longrightarrow> GetParents T inp i options w = (w', r) \<Longrightarrow>
      inv w' \<and> view w' = view w"
    and keep_until: "inv w \<Longrightarrow> avail inp \<Longrightarrow> GetParentsUntilAncestor T inp i anc options w = (w', r) \<Longrightarrow>
      inv w' \<and> view w' = view w"
    and keep_roots: "inv w \<Longrightarrow> avail inp \<Longrightarrow> ListRoots T inp options w = (w', r) \<Longrightarrow>
      inv w' \<and> view w' = view w"

text \<open>Following the pages of a listing visits each of its members exactly once.\<close>

definition page_options :: "bool \<Rightarrow> go_int \<Rightarrow> nat \<Rightarrow> storage_option list" where
  "page_options dels psize k =
     (if dels then [WithDeletedDirectories] else []) @ [Pagination (word_of_int (int k)) psize]"

lemma BuildOptions_page_options [simp]: "BuildOptions (page_options dels psize k) = page_at dels psize k"
  by (simp add: BuildOptions_def page_options_def WithDeletedDirectories_def Pagination_def
      page_at_def new_options_def)

lemma page_in_range_page_at:
  assumes "1 \<le> k" "1 \<le> sint psize" "sint psize * int k < 2 ^ 63 - 1"
  shows "page_in_range (page_at dels psize k)"
proof -
  have "int k \<le> sint psize * int k" using assms(2) by (simp add: mult_le_cancel_right1)
  then have "int k < 2 ^ 63" using assms(3) by simp
  then have "sint (GetPage (page_at dels psize k)) = int k"
    using assms(1) by (intro sint_GetPage_page_at)
  moreover have "sint (GetPageSize (page_at dels psize k)) = sint psize"
    using assms(2) by (simp add: GetPageSize_def page_at_def)
  ultimately show ?thesis using assms(3) by (simp add: page_in_range_def)
qed

lemma page_in_range_earlier:
  assumes "j < k" "1 \<le> sint psize" "sint psize * int k < 2 ^ 63 - 1"
  shows "page_in_range (page_at dels psize (Suc j))"
proof (rule page_in_range_page_at)
  have "sint psize * int (Suc j) \<le> sint psize * int k"
    using assms(1,2) by (intro mult_left_mono) simp_all
  with assms(3) show "sint psize * int (Suc j) < 2 ^ 63 - 1" by linarith
qed (use assms in simp_all)

lemma pages_cover:
  assumes "distinct xs" "length xs \<le> nat (sint psize) * k" "1 \<le> sint psize" "sint psize * int k < 2 ^ 63 - 1"
    and list: "\<And>j. page_in_range (page_at dels psize j) \<Longrightarrow>
      run (page_options dels psize j) = (page_of (page_at dels psize j) xs)"
  shows "\<exists>pages. length pages = k \<and> (\<forall>j < k. run (page_options dels psize (Suc j)) = pages ! j)
    \<and> distinct (concat pages) \<and> set (concat pages) = set xs"
proof -
  let ?pages = "map (\<lambda>j. page_of (page_at dels psize j) xs) [1..<Suc k]"
  have "int k \<le> sint psize * int k" using assms(3) by (simp add: mult_le_cancel_right1)
  then have "concat ?pages = xs"
    using assms(2,4) concat_pages [OF assms(3), of k dels xs] by simp
  moreover have "run (page_options dels psize (Suc j)) = ?pages ! j" if "j < k" for j
  proof -
    have "page_in_range (page_at dels psize (Suc j))"
      using that assms(3,4) by (rule page_in_range_earlier)
    with that list show ?thesis by (simp del: upt_Suc)
  qed
  ultimately show ?thesis using assms(1) by (intro exI [of _ ?pages]) (simp del: upt_Suc)
qed

context directory_reader
begin

lemma children_pages:
  assumes "inv w" "view w i = Some d" "visible dels d" "avail inp"
    and "1 \<le> sint psize" "sint psize * int k < 2 ^ 63 - 1"
    and "card (descendants (view w) dels i) \<le> nat (sint psize) * k"
  shows "\<exists>pages. length pages = k
    \<and> (\<forall>j < k. GetChildren T inp i (page_options dels psize (Suc j)) w = (w, Ok (pages ! j)))
    \<and> distinct (concat pages) \<and> set (concat pages) = descendants (view w) dels i"
proof -
  obtain cs where cs: "distinct cs" "set cs = descendants (view w) dels i"
    and get: "\<forall>inp options. avail inp \<longrightarrow> page_in_range (BuildOptions options) \<longrightarrow>
      WithDeleted (BuildOptions options) = dels \<longrightarrow>
      GetChildren T inp i options w = (w, Ok (page_of (BuildOptions options) cs))"
    using get_children [OF assms(1-3)] by blast
  have len: "length cs \<le> nat (sint psize) * k" using assms(7) cs distinct_card [OF cs(1)] by simp
  have dels: "WithDeleted (page_at dels psize j) = dels" for j by (simp add: page_at_def)
  have run: "GetChildren T inp i (page_options dels psize j) w = (w, Ok (page_of (page_at dels psize j) cs))"
    if "page_in_range (page_at dels psize j)" for j
    using get assms(4) that dels by (metis BuildOptions_page_options)
  let ?run = "\<lambda>options. case GetChildren T inp i options w of (_, Ok xs) \<Rightarrow> xs | _ \<Rightarrow> []"
  obtain pages where "length pages = k" "distinct (concat pages)" "set (concat pages) = set cs"
    and pages: "\<forall>j < k. ?run (page_options dels psize (Suc j)) = pages ! j"
    using pages_cover [OF cs(1) len assms(5,6), where run = ?run and dels = dels] run by auto
  moreover have "GetChildren T inp i (page_options dels psize (Suc j)) w = (w, Ok (pages ! j))" if "j < k" for j
  proof -
    have "page_in_range (page_at dels psize (Suc j))"
      using that assms(5,6) by (rule page_in_range_earlier)
    from run [OF this] pages that show ?thesis by auto
  qed
  ultimately show ?thesis using cs(2) by metis
qed

end

locale directory_store = directory_reader +
  assumes create_root: "inv w \<Longrightarrow> avail inp \<Longrightarrow> view w (in_uuid inp) = None \<Longrightarrow>
      Parent d = None \<Longrightarrow> DeletedAt d = None \<Longrightarrow>
      \<exists>w' p t. CreateRoot T inp (fst (alloc d w)) (snd (alloc d w)) = (w', Ok p)
        \<and> heap w' p = stored_new inp t d \<and> inv w'
        \<and> view w' = (view w)(in_uuid inp \<mapsto> stored_new inp t d)"
    and create_directory: "inv w \<Longrightarrow> avail inp \<Longrightarrow> view w (in_uuid inp) = None \<Longrightarrow>
      Parent d = Some q \<Longrightarrow> q \<in> dom (view w) \<Longrightarrow> DeletedAt d = None \<Longrightarrow>
      \<exists>w' p t. CreateDirectory T inp (fst (alloc d w)) (snd (alloc d w)) = (w', Ok p)
        \<and> heap w' p = stored_new inp t d \<and> inv w'
        \<and> view w' = (view w)(in_uuid inp \<mapsto> stored_new inp t d)"
    and update_directory: "inv w \<Longrightarrow> avail inp \<Longrightarrow> avail inp' \<Longrightarrow>
      GetDirectory T inp i [] w = (w1, Ok a) \<Longrightarrow>
      d = (heap w1 a)\<lparr>Name := n, Metadata := m\<rparr> \<Longrightarrow>
      \<exists>w2. UpdateDirectory T inp' (Some a) (write_ptr a d w1) = (w2, Ok ())
        \<and> heap w2 a = stored_update inp' d \<and> inv w2
        \<and> view w2 = (view w)(i \<mapsto> stored_update inp' d)"
    and delete_directory: "inv w \<Longrightarrow> avail inp \<Longrightarrow> live_child (view w) i \<Longrightarrow>
      \<exists>w' ps I. DeleteDirectory T inp i w = (w', Ok ps) \<and> inv w'
        \<and> distinct (map (\<lambda>a. DirId (heap w' a)) ps) \<and> set (map (\<lambda>a. DirId (heap w' a)) ps) = I
        \<and> i \<in> I \<and> I \<subseteq> subtree (view w) i
        \<and> (card (descendants (view w) False i) \<le> 10 \<longrightarrow> I = subtree (view w) i)
        \<and> view w' = mark_deleted I (in_time1 inp) (view w)"
    and delete_missing: "inv w \<Longrightarrow> avail inp \<Longrightarrow> \<not> live_child (view w) i \<Longrightarrow>
      \<exists>w'. DeleteDirectory T inp i w = (w', Err ErrDirectoryNotFound)
        \<and> view w' = view w \<and> inv w'"

context directory_store
begin

lemma create_then_get:
  assumes "inv w" "avail inp" "avail inp'" "view w (in_uuid inp) = None"
    and "Parent d = Some q" "q \<in> dom (view w)" "DeletedAt d = None"
  shows "\<exists>w' p t w'' a. CreateDirectory T inp (fst (alloc d w)) (snd (alloc d w)) = (w', Ok p)
    \<and> heap w' p = stored_new inp t d \<and> inv w'
    \<and> view w' = (view w)(in_uuid inp \<mapsto> stored_new inp t d)
    \<and> GetDirectory T inp' (in_uuid inp) [] w' = (w'', Ok a) \<and> heap w'' a = stored_new inp t d"
proof -
  obtain w' p t where c: "CreateDirectory T inp (fst (alloc d w)) (snd (alloc d w)) = (w', Ok p)"
    "heap w' p = stored_new inp t d" "inv w'" "view w' = (view w)(in_uuid inp \<mapsto> stored_new inp t d)"
    using create_directory [OF assms(1,2,4-7)] by blast
  have "visible (WithDeleted (BuildOptions [])) (stored_new inp t d)"
    using assms(7) by (simp add: visible_def stored_new_def)
  with c(4) obtain w'' a where "GetDirectory T inp' (in_uuid inp) [] w' = (w'', Ok a)"
    "heap w'' a = stored_new inp t d"
    using get_found [OF c(3) assms(3), of "in_uuid inp" "stored_new inp t d" "[]"] by auto
  with c show ?thesis by blast
qed

lemma update_then_get:
  assumes "inv w" "avail inp" "avail inp'" "avail inp''" "view w i = Some d0" "DeletedAt d0 = None"
  shows "\<exists>w1 a w2 w3 b. GetDirectory T inp i [] w = (w1, Ok a)
    \<and> UpdateDirectory T inp' (Some a) (write_ptr a (d0\<lparr>Name := n, Metadata := m\<rparr>) w1) = (w2, Ok ())
    \<and> inv w2 \<and> view w2 = (view w)(i \<mapsto> stored_update inp' (d0\<lparr>Name := n, Metadata := m\<rparr>))
    \<and> GetDirectory T inp'' i [] w2 = (w3, Ok b)
    \<and> heap w3 b = stored_update inp' (d0\<lparr>Name := n, Metadata := m\<rparr>)"
proof -
  let ?d = "d0\<lparr>Name := n, Metadata := m\<rparr>"
  have vis: "visible (WithDeleted (BuildOptions [])) d0" using assms(6) by (simp add: visible_def)
  obtain w1 a where get: "GetDirectory T inp i [] w = (w1, Ok a)" "heap w1 a = d0"
    using get_found [OF assms(1,2,5) vis] by blast
  obtain w2 where upd: "UpdateDirectory T inp' (Some a) (write_ptr a ?d w1) = (w2, Ok ())" "inv w2"
    "view w2 = (view w)(i \<mapsto> stored_update inp' ?d)"
    using update_directory [OF assms(1,2,3) get(1), of ?d m n] get(2) by blast
  have "visible (WithDeleted (BuildOptions [])) (stored_update inp' ?d)"
    using assms(6) by (simp add: visible_def stored_update_def)
  with upd(3) obtain w3 b where "GetDirectory T inp'' i [] w2 = (w3, Ok b)"
    "heap w3 b = stored_update inp' ?d"
    using get_found [OF upd(2) assms(4), of i "stored_update inp' ?d" "[]"] by auto
  with get(1) upd show ?thesis by blast
qed

lemma delete_then_get:
  assumes "inv w" "avail inp" "avail inp'" "live_child (view w) i"
    and "card (descendants (view w) False i) \<le> 10"
  shows "\<exists>w' ps. DeleteDirectory T inp i w = (w', Ok ps) \<and> inv w'
    \<and> set (map (\<lambda>a. DirId (heap w' a)) ps) = subtree (view w) i
    \<and> (\<forall>j \<in> subtree (view w) i.
         snd (GetDirectory T inp' j [] w') = Err ErrDirectoryNotFound
         \<and> (\<exists>w'' a. GetDirectory T inp' j [WithDeletedDirectories] w' = (w'', Ok a)
              \<and> DeletedAt (heap w'' a) = Some (in_time1 inp)))
    \<and> (\<forall>j. j \<notin> subtree (view w) i \<longrightarrow> view w' j = view w j)"
proof -
  obtain w' ps where del: "DeleteDirectory T inp i w = (w', Ok ps)" "inv w'"
    "set (map (\<lambda>a. DirId (heap w' a)) ps) = subtree (view w) i"
    "view w' = mark_deleted (subtree (view w) i) (in_time1 inp) (view w)"
    using delete_directory [OF assms(1,2,4)] assms(5) by metis
  have "snd (GetDirectory T inp' j [] w') = Err ErrDirectoryNotFound
      \<and> (\<exists>w'' a. GetDirectory T inp' j [WithDeletedDirectories] w' = (w'', Ok a)
           \<and> DeletedAt (heap w'' a) = Some (in_time1 inp))" if j: "j \<in> subtree (view w) i" for j
  proof -
    have "j \<in> dom (view w)"
      using j assms(4) descendants_subset_dom by (fastforce simp: subtree_def live_child_def)
    then obtain d where d: "view w' j = Some (d\<lparr>DeletedAt := Some (in_time1 inp)\<rparr>)"
      using j by (auto simp: del(4) mark_deleted_def)
    have "\<exists>w''. GetDirectory T inp' j [] w' = (w'', Err ErrDirectoryNotFound)"
      using get_missing [OF del(2) assms(3), of j "[]"] d by (auto simp: visible_def)
    moreover have "visible (WithDeleted (BuildOptions [WithDeletedDirectories])) (d\<lparr>DeletedAt := Some (in_time1 inp)\<rparr>)"
      by (simp add: visible_def BuildOptions_def WithDeletedDirectories_def)
    from get_found [OF del(2) assms(3) d this] have
      "\<exists>w'' a. GetDirectory T inp' j [WithDeletedDirectories] w' = (w'', Ok a)
         \<and> DeletedAt (heap w'' a) = Some (in_time1 inp)" by force
    ultimately show ?thesis by auto
  qed
  moreover have "view w' j = view w j" if "j \<notin> subtree (view w) i" for j
    using that by (simp add: del(4) mark_deleted_def)
  ultimately show ?thesis using del(1-3) by blast
qed

end

locale cascading_store = directory_store +
  assumes delete_cascades: "inv w \<Longrightarrow> avail inp \<Longrightarrow> live_child (view w) i \<Longrightarrow>
      \<exists>w' ps. DeleteDirectory T inp i w = (w', Ok ps) \<and> inv w'
        \<and> distinct (map (\<lambda>a. DirId (heap w' a)) ps)
        \<and> set (map (\<lambda>a. DirId (heap w' a)) ps) = subtree (view w) i
        \<and> view w' = mark_deleted (subtree (view w) i) (in_time1 inp) (view w)"

end
