(* ===== verification/Memory_Contract.thy ===== *)
theory Memory_Contract
  imports Memory_Writes Storage_Contract
begin

text \<open>
  The in-memory driver discharges the contract \<open>directory_store\<close>: each law is a lemma here,
  and the interpretation \<open>mem\<close> collects them.
\<close>

lemma memory_driver_simps [simp]:
  "GetDirectory memory_driver inp i options w = (w, mem_GetDirectory i options w)"
  "GetParents memory_driver inp i options w = (w, mem_GetParents i options w)"
  "GetParentsUntilAncestor memory_driver inp i anc options w
     = (w, mem_GetParentsUntilAncestor i anc options w)"
  "GetChildren memory_driver inp i options w = (w, mem_GetChildren i options w)"
  "ListRoots memory_driver inp options w = (w, mem_ListRoots options w)"
  "CreateDirectory memory_driver = mem_CreateDirectory"
  "UpdateDirectory memory_driver = mem_UpdateDirectory"
  "DeleteDirectory memory_driver = mem_DeleteDirectory"
  "CreateRoot memory_driver = mem_CreateRoot"
  by (simp_all add: memory_driver_def)

section \<open>The state seen by the driver does not include the bus\<close>

lemma mem_ptr_bus [simp]: "mem_ptr (w\<lparr>bus := b\<rparr>) = mem_ptr w"
  by (simp add: mem_ptr_def fun_eq_iff)

lemma mem_view_bus [simp]: "mem_view (w\<lparr>bus := b\<rparr>) = mem_view w"
  by (simp add: mem_view_def fun_eq_iff)

lemma entry_ok_bus [simp]: "entry_ok (w\<lparr>bus := b\<rparr>) = entry_ok w"
  by (simp add: entry_ok_def fun_eq_iff split: map_value.splits)

lemma mem_inv_bus [simp]: "mem_inv (w\<lparr>bus := b\<rparr>) = mem_inv w"
  by (simp add: mem_inv_def mem_wf_def)

section \<open>A freshly allocated directory\<close>

lemma mem_ptr_alloc [simp]: "mem_ptr (snd (alloc d w)) = mem_ptr w"
  by (simp add: mem_ptr_def fun_eq_iff world_simps)

lemma mem_view_alloc: "mem_wf w \<Longrightarrow> mem_view (snd (alloc d w)) = mem_view w"
  by (auto simp: mem_view_def fun_eq_iff world_simps map_option_case
      split: option.splits dest: mem_ptr_Some)

lemma entry_ok_alloc: "entry_ok w k v \<Longrightarrow> entry_ok (snd (alloc d w)) k v"
  by (auto simp: entry_ok_def world_simps split: map_value.splits)

lemma mem_inv_alloc: "mem_inv w \<Longrightarrow> mem_inv (snd (alloc d w))"
  by (auto simp: mem_inv_def mem_view_alloc mem_wf_def db_alloc intro: entry_ok_alloc)

lemma loose_alloc: "mem_wf w \<Longrightarrow> loose (snd (alloc d w)) (fst (alloc d w))"
  by (auto simp: loose_def world_simps dest: mem_ptr_Some)

section \<open>The laws\<close>

lemma mem_create:
  assumes "mem_inv w" "mem_view w (in_uuid inp) = None"
    and "\<And>q. Parent d = Some q \<Longrightarrow> q \<in> dom (mem_view w)"
  shows "\<exists>w' p t. mem_store_new inp (fst (alloc d w)) (snd (alloc d w)) = (w', Ok p)
    \<and> heap w' p = stored_new inp t d \<and> mem_inv w'
    \<and> mem_view w' = (mem_view w)(in_uuid inp \<mapsto> stored_new inp t d)"
proof -
  note wf = mem_invD(1) [OF assms(1)]
  have d: "heap (snd (alloc d w)) (fst (alloc d w)) = d" by (simp add: world_simps)
  have new: "created inp d = stored_new inp True d"
    by (simp add: created_def stored_new_def)
  from mem_store_new_spec [OF mem_inv_alloc [OF assms(1), of d] loose_alloc [OF wf, of d], where inp = inp]
  obtain w' where "mem_store_new inp (fst (alloc d w)) (snd (alloc d w)) = (w', Ok (fst (alloc d w)))"
    "mem_inv w'" "mem_view w' = (mem_view w)(in_uuid inp \<mapsto> stored_new inp True d)"
    "heap w' (fst (alloc d w)) = stored_new inp True d"
    using assms(2,3) unfolding mem_view_alloc [OF wf] d new by auto
  then show ?thesis by blast
qed

lemma mem_children_law:
  assumes "mem_inv w"
  shows "\<exists>cs. distinct cs \<and> set cs = descendants (mem_view w) dels i
    \<and> (\<forall>options. page_in_range (BuildOptions options) \<longrightarrow> WithDeleted (BuildOptions options) = dels \<longrightarrow>
         mem_GetChildren i options w = Ok (page_of (BuildOptions options) cs))"
proof -
  obtain as where as: "mem_getChildren i (page_at dels 0 0) w = Ok as" "distinct (ids_of w as)"
    "set (ids_of w as) = descendants (mem_view w) dels i"
    using mem_getChildren_spec [OF assms, of i "page_at dels 0 0"] by (auto simp: page_at_def)
  have page: "mem_GetChildren i options w
      = Ok (page_of (BuildOptions options) (ids_of w (sort_key (creation_key w) as)))"
    if "page_in_range (BuildOptions options)" "WithDeleted (BuildOptions options) = dels" for options
    using as(1) that by (intro mem_GetChildren_eq) (simp_all add: mem_getChildren_def page_at_def)
  have "distinct (ids_of w (sort_key (creation_key w) as))" using as(2) by (simp add: distinct_map)
  moreover have "set (ids_of w (sort_key (creation_key w) as)) = descendants (mem_view w) dels i"
    using as(3) by simp
  ultimately show ?thesis using page by blast
qed

lemma mem_parents_law:
  assumes "mem_inv w" "parent_chain (mem_view w) dels i ps"
  shows "\<exists>qs. mset qs = mset ps
    \<and> (\<forall>options. page_in_range (BuildOptions options) \<longrightarrow> WithDeleted (BuildOptions options) = dels \<longrightarrow>
         mem_GetParents i options w = Ok (page_of (BuildOptions options) qs))"
  using mem_GetParents_eq [OF mem_invD(1) [OF assms(1)]] assms(2)
  by (intro exI [of _ "sort_slice (parents_less (heap w) (map (ptr_of w) ps)) ps"]) auto

lemma mem_until_law:
  assumes "mem_inv w" "parent_chain (mem_view w) dels i ps" "anc \<in> set ps"
  shows "\<exists>qs. mset qs = mset (takeWhile (\<lambda>p. p \<noteq> anc) ps @ [anc])
    \<and> (\<forall>options. page_in_range (BuildOptions options) \<longrightarrow> WithDeleted (BuildOptions options) = dels \<longrightarrow>
         mem_GetParentsUntilAncestor i anc options w = Ok (page_of (BuildOptions options) qs))"
proof -
  obtain d where "mem_view w anc = Some d" "visible dels d"
    using parent_chain_visible [OF assms(2)] assms(3) by auto
  then show ?thesis
    by (intro mem_GetParentsUntilAncestor_eq [OF mem_invD(1) [OF assms(1)] assms(2,3)])
qed

lemma mem_roots_law:
  assumes "mem_inv w"
  shows "\<exists>rs. distinct rs \<and> set rs = roots_of (mem_view w) dels
    \<and> (\<forall>options. page_in_range (BuildOptions options) \<longrightarrow> WithDeleted (BuildOptions options) = dels \<longrightarrow>
         mem_ListRoots options w = Ok (page_of (BuildOptions options) rs))"
  using mem_ListRoots_eq [OF mem_invD(1) [OF assms]] ids_root_ptrs [OF mem_invD(1) [OF assms], of dels]
  by (intro exI [of _ "ids_of w (sort_key (creation_key w) (root_ptrs dels w))"])
    (auto simp: distinct_map)

lemma mem_update_law:
  assumes inv: "mem_inv w" and get: "mem_GetDirectory i [] w = Ok a"
    and d: "d = (heap w a)\<lparr>Name := n, Metadata := m\<rparr>"
  shows "\<exists>w2. mem_UpdateDirectory inp (Some a) (write_ptr a d w) = (w2, Ok ())
    \<and> heap w2 a = stored_update inp d \<and> mem_inv w2
    \<and> mem_view w2 = (mem_view w)(i \<mapsto> stored_update inp d)"
proof -
  let ?w1 = "write_ptr a d w"
  have wf: "mem_wf w" and ok: "tree_ok (mem_view w)" using inv by (simp_all add: mem_invD)
  have ptr: "mem_ptr w i = Some a" using get mem_GetDirectory_Ok [OF wf] by blast
  then have id: "DirId (heap w a) = i" and v: "mem_view w i = Some (heap w a)"
    using mem_ptr_Some [OF wf] by (auto simp: mem_view_Some)
  have view: "mem_view ?w1 = (mem_view w)(i \<mapsto> d)" using wf ptr by (rule mem_view_write_stored)
  have "mem_wf ?w1" using wf d by (intro mem_wf_write_ptr) simp_all
  moreover have "tree_ok (mem_view ?w1)"
    unfolding view using d id by (intro tree_ok_overwrite [OF ok v]) simp_all
  ultimately have inv1: "mem_inv ?w1" by (simp add: mem_inv_def)
  have heap1: "heap ?w1 a = d" by (simp add: world_simps)
  have upd: "updated inp d = stored_update inp d" by (simp add: updated_def stored_update_def)
  have "mem_ptr ?w1 i = Some a" "mem_view ?w1 i = Some d"
    using ptr by (simp_all add: mem_ptr_write_ptr view)
  moreover have "DirId (heap ?w1 a) = i" "Parent (heap ?w1 a) = Parent d"
    unfolding heap1 using d id by simp_all
  ultimately obtain w' where "mem_UpdateDirectory inp (Some a) ?w1 = (w', Ok ())" "mem_inv w'"
    "mem_view w' = (mem_view ?w1)(i \<mapsto> updated inp (heap ?w1 a))"
    "heap w' = (heap ?w1)(a := updated inp (heap ?w1 a))"
    using mem_UpdateDirectory_spec [OF inv1, of a i d inp] by blast
  then show ?thesis by (simp add: view upd heap1)
qed

lemma mem_delete_law:
  assumes inv: "mem_inv w" and live: "live_child (mem_view w) i"
  shows "\<exists>w' ps I. mem_DeleteDirectory inp i w = (w', Ok ps) \<and> mem_inv w'
    \<and> distinct (ids_of w' ps) \<and> set (ids_of w' ps) = I \<and> i \<in> I \<and> I \<subseteq> subtree (mem_view w) i
    \<and> (card (descendants (mem_view w) False i) \<le> 10 \<longrightarrow> I = subtree (mem_view w) i)
    \<and> mem_view w' = mark_deleted I (in_time1 inp) (mem_view w)"
proof -
  obtain d where d: "mem_view w i = Some d" "DeletedAt d = None" "Parent d \<noteq> None"
    using live by (auto simp: live_child_def)
  note age = children_by_age_spec [OF inv, of i]
  let ?del = "i # take 10 (children_by_age w i)"
  have "take 10 (children_by_age w i) = children_by_age w i"
    if "card (descendants (mem_view w) False i) \<le> 10"
    using that age(1) distinct_card [OF age(2)] by simp
  then have all: "set ?del = subtree (mem_view w) i"
    if "card (descendants (mem_view w) False i) \<le> 10"
    using that age(1) by (simp add: subtree_def)
  have some: "set ?del \<subseteq> subtree (mem_view w) i"
    using age(1) set_take_subset [of 10 "children_by_age w i"] by (auto simp: subtree_def)
  have "i \<notin> set (take 10 (children_by_age w i))"
    using age(1) descends_irrefl [OF mem_invD(2) [OF inv]] set_take_subset [of 10 "children_by_age w i"]
    by (auto simp: descendants_def)
  then have dist: "distinct ?del" using age(2) by simp
  obtain w' where w': "mem_DeleteDirectory inp i w = (w', Ok (map (ptr_of w) ?del))" "mem_inv w'"
    "mem_view w' = mark_deleted (set ?del) (in_time1 inp) (mem_view w)"
    "ids_of w' (map (ptr_of w) ?del) = ?del"
    using mem_DeleteDirectory_spec [OF inv d, of inp] by (elim exE conjE) (rule that)
  show ?thesis
  proof (intro exI conjI impI)
    show "i \<in> set ?del" by simp
    show "distinct (ids_of w' (map (ptr_of w) ?del))" unfolding w'(4) by (rule dist)
    show "set (ids_of w' (map (ptr_of w) ?del)) = set ?del" unfolding w'(4) ..
  qed (fact w' all some)+
qed

lemma mem_DeleteDirectory_bus:
  assumes "mem_inv w" "live_child (mem_view w) i"
  shows "\<exists>w' ps. mem_DeleteDirectory inp i w = (w', Ok ps) \<and> bus w' = bus w"
proof -
  obtain d where d: "mem_view w i = Some d" "DeletedAt d = None" "Parent d \<noteq> None"
    using assms(2) by (auto simp: live_child_def)
  from mem_DeleteDirectory_spec [OF assms(1) d, of inp] show ?thesis
    by (elim exE conjE) (intro exI conjI, assumption+)
qed

section \<open>The interpretation\<close>

interpretation mem: directory_store memory_driver mem_inv mem_view "\<lambda>_. True"
proof (unfold_locales, goal_cases)
  case (4 w inp i d options)
  then show ?case using mem_GetDirectory_found [OF mem_invD(1), of w i d options] by auto
next
  case (5 w inp i options)
  then show ?case using mem_GetDirectory_missing [OF mem_invD(1), of w i options] by simp
next
  case (6 w i d dels)
  then show ?case using mem_children_law [of w dels i] by simp
next
  case (7 w dels i ps)
  then show ?case using mem_parents_law [of w dels i ps] by simp
next
  case (8 w dels i ps anc)
  then show ?case using mem_until_law [of w dels i ps anc] by simp
next
  case (9 w dels)
  then show ?case using mem_roots_law [of w dels] by simp
next
  case (14 w inp d)
  then show ?case using mem_create [of w inp d] by (simp add: mem_CreateRoot_def world_simps)
next
  case (15 w inp d q)
  then show ?case using mem_create [of w inp d] by (simp add: mem_CreateDirectory_def world_simps)
next
  case (16 w inp inp' i w1 a d m n)
  then have "w1 = w" "mem_GetDirectory i [] w = Ok a" by auto
  with 16 show ?case using mem_update_law [of w i a d m n inp'] by simp
next
  case (17 w inp i)
  then show ?case using mem_delete_law [of w i inp] by (simp add: mem_invD)
next
  case (18 w inp i)
  then have "mem_DeleteDirectory inp i w = (w, Err ErrDirectoryNotFound)"
    by (intro mem_DeleteDirectory_missing) (auto simp: live_child_def mem_invD)
  with 18 show ?case by simp
qed (simp_all add: mem_invD)

end
