(* ===== verification/Notifier.thy ===== *)
theory Notifier
  imports Memory_Contract
begin

text \<open>
  Notifications (notifier/, storage/notifier/notifier.go).

  \<^item> \<open>notifier\<close>: the interface \<open>notifier.Notifier\<close>. A method gets the directory its pointer
    points to, \<open>None\<close> for a nil pointer, and acts on the state \<open>bus\<close>.
  \<^item> \<open>notifier_with_storage\<close>: the driver that forwards each operation and notifies after each
    write, through \<open>notifyWrapper\<close>, which is nil until an option sets it.
  \<^item> \<open>WithNotifyRetrier\<close> installs \<open>backoff.Retry\<close>, which is an argument here (\<open>retry\<close>);
    \<open>attempts n\<close> is the retry that calls again after an error, at most \<open>n\<close> times more.
  \<^item> \<open>event_notifier\<close>: what the driver relies on, a wrapped notification that ends in success or
    an error; \<open>reliable_notifier\<close> has no errors, and a store notified through it is a
    \<open>directory_store\<close> itself.
\<close>

type_synonym 'bus handler = "'bus \<Rightarrow> 'bus \<times> unit outcome"
type_synonym 'bus wrapper = "'bus handler \<Rightarrow> 'bus handler"

record 'bus notifier =
  NotifyCreate :: "directory option \<Rightarrow> 'bus handler"
  NotifyUpdate :: "directory option \<Rightarrow> 'bus handler"
  NotifyDelete :: "directory option \<Rightarrow> 'bus handler"
  NotifyDeleteHard :: "directory option \<Rightarrow> 'bus handler"

definition noop_NewNotifier :: "'bus notifier" where
  "noop_NewNotifier = \<lparr>
     NotifyCreate = (\<lambda>d b. (b, Ok ())), NotifyUpdate = (\<lambda>d b. (b, Ok ())),
     NotifyDelete = (\<lambda>d b. (b, Ok ())), NotifyDeleteHard = (\<lambda>d b. (b, Ok ()))\<rparr>"

section \<open>The notifying driver\<close>

record ('db, 'bus) notifier_with_storage =
  DirectoryAdmin :: "('db, 'bus) directory_admin"
  nws_notifier :: "'bus notifier"
  notifyWrapper :: "'bus wrapper option"

definition addWrapper ::
    "'bus wrapper \<Rightarrow> ('db, 'bus) notifier_with_storage \<Rightarrow> ('db, 'bus) notifier_with_storage" where
  "addWrapper wr n =
     (case notifyWrapper n of
        None \<Rightarrow> n\<lparr>notifyWrapper := Some wr\<rparr>
      | Some wrap \<Rightarrow> n\<lparr>notifyWrapper := Some (\<lambda>h. wrap (wr h))\<rparr>)"

definition WithNotifyRetrier ::
    "'bus wrapper \<Rightarrow> ('db, 'bus) notifier_with_storage \<Rightarrow> ('db, 'bus) notifier_with_storage" where
  "WithNotifyRetrier retry n = addWrapper (\<lambda>h. retry h) n"

definition call_wrapper :: "('db, 'bus) notifier_with_storage \<Rightarrow> 'bus handler
    \<Rightarrow> ('db, 'bus) world \<Rightarrow> ('db, 'bus) world \<times> unit outcome" where
  "call_wrapper n h w =
     (case notifyWrapper n of
        None \<Rightarrow> (w, Panic)
      | Some wrap \<Rightarrow> (let (b, r) = wrap h (bus w) in (w\<lparr>bus := b\<rparr>, r)))"

text \<open>\<open>if err := n.notifier.NotifyX(ctx, d); err != nil { return err }; return nil\<close>\<close>

definition notify_handler :: "(directory option \<Rightarrow> 'bus handler) \<Rightarrow> directory option \<Rightarrow> 'bus handler" where
  "notify_handler notify d b = handle (notify d b) (\<lambda>b e. (b, Err e)) (\<lambda>b _. (b, Ok ()))"

definition nws_CreateDirectory :: "('db, 'bus) notifier_with_storage \<Rightarrow> inputs \<Rightarrow> addr
    \<Rightarrow> ('db, 'bus) world \<Rightarrow> ('db, 'bus) world \<times> addr outcome" where
  "nws_CreateDirectory n inp d0 w0 =
     handle (CreateDirectory (DirectoryAdmin n) inp d0 w0) (\<lambda>w e. (w, Err e)) (\<lambda>w d.
       handle (call_wrapper n (notify_handler (NotifyCreate (nws_notifier n)) (Some (heap w d))) w)
         (\<lambda>w e. (w, ErrWith d (ErrWrapText ErrNotifyFailed e)))
         (\<lambda>w _. (w, Ok d)))"

definition nws_UpdateDirectory :: "('db, 'bus) notifier_with_storage \<Rightarrow> inputs \<Rightarrow> addr option
    \<Rightarrow> ('db, 'bus) world \<Rightarrow> ('db, 'bus) world \<times> unit outcome" where
  "nws_UpdateDirectory n inp d w0 =
     handle (UpdateDirectory (DirectoryAdmin n) inp d w0) (\<lambda>w e. (w, Err e)) (\<lambda>w _.
       handle (call_wrapper n
                 (notify_handler (NotifyUpdate (nws_notifier n)) (map_option (heap w) d)) w)
         (\<lambda>w e. (w, Err (ErrWrapText ErrNotifyFailed e)))
         (\<lambda>w _. (w, Ok ())))"

fun notify_deleted :: "('db, 'bus) notifier_with_storage \<Rightarrow> addr list \<Rightarrow> addr list
    \<Rightarrow> ('db, 'bus) world \<Rightarrow> ('db, 'bus) world \<times> addr list outcome" where
  "notify_deleted n affected [] w = (w, Ok affected)"
| "notify_deleted n affected (d # ds) w =
     handle (call_wrapper n (notify_handler (NotifyDelete (nws_notifier n)) (Some (heap w d))) w)
       (\<lambda>w e. (w, ErrWith affected (ErrWrapText ErrNotifyFailed e)))
       (\<lambda>w _. notify_deleted n affected ds w)"

definition nws_DeleteDirectory :: "('db, 'bus) notifier_with_storage \<Rightarrow> inputs \<Rightarrow> directory_id
    \<Rightarrow> ('db, 'bus) world \<Rightarrow> ('db, 'bus) world \<times> addr list outcome" where
  "nws_DeleteDirectory n inp i w0 =
     handle (DeleteDirectory (DirectoryAdmin n) inp i w0) (\<lambda>w e. (w, Err e))
       (\<lambda>w affected. notify_deleted n affected affected w)"

definition nws_CreateRoot :: "('db, 'bus) notifier_with_storage \<Rightarrow> inputs \<Rightarrow> addr
    \<Rightarrow> ('db, 'bus) world \<Rightarrow> ('db, 'bus) world \<times> addr outcome" where
  "nws_CreateRoot n inp d0 w0 =
     handle (CreateRoot (DirectoryAdmin n) inp d0 w0) (\<lambda>w e. (w, Err e)) (\<lambda>w d.
       handle (call_wrapper n (notify_handler (NotifyCreate (nws_notifier n)) (Some (heap w d))) w)
         (\<lambda>w e. (w, ErrWith d (ErrWrapText ErrNotifyFailed e)))
         (\<lambda>w _. (w, Ok d)))"

text \<open>The methods of the returned interface: the four writes above, \<open>ListRoots\<close> from the embedded
  driver, and the pass-through reads.\<close>

definition nws_methods :: "('db, 'bus) notifier_with_storage \<Rightarrow> ('db, 'bus) directory_admin" where
  "nws_methods n = \<lparr>
     GetDirectory = (\<lambda>inp i options. GetDirectory (DirectoryAdmin n) inp i options),
     GetParents = (\<lambda>inp i options. GetParents (DirectoryAdmin n) inp i options),
     GetParentsUntilAncestor =
       (\<lambda>inp child ancestor options. GetParentsUntilAncestor (DirectoryAdmin n) inp child ancestor options),
     GetChildren = (\<lambda>inp i options. GetChildren (DirectoryAdmin n) inp i options),
     ListRoots = ListRoots (DirectoryAdmin n),
     CreateDirectory = nws_CreateDirectory n,
     UpdateDirectory = nws_UpdateDirectory n,
     DeleteDirectory = nws_DeleteDirectory n,
     CreateRoot = nws_CreateRoot n\<rparr>"

definition StorageWithNotifier :: "('db, 'bus) directory_admin \<Rightarrow> 'bus notifier
    \<Rightarrow> (('db, 'bus) notifier_with_storage \<Rightarrow> ('db, 'bus) notifier_with_storage) list
    \<Rightarrow> ('db, 'bus) directory_admin" where
  "StorageWithNotifier s n opts =
     nws_methods (fold (\<lambda>opt nws. opt nws) opts
       \<lparr>DirectoryAdmin = s, nws_notifier = n, notifyWrapper = None\<rparr>)"

section \<open>A retry\<close>

fun attempts :: "nat \<Rightarrow> 'bus wrapper" where
  "attempts 0 h b = h b"
| "attempts (Suc n) h b = handle (h b) (\<lambda>b e. attempts n h b) (\<lambda>b x. (b, Ok x))"


lemma attempts_ends:
  assumes "\<And>b. \<exists>b' r. h b = (b', r) \<and> (r = Ok () \<or> (\<exists>e. r = Err e))"
  shows "\<exists>b' r. attempts n h b = (b', r) \<and> (r = Ok () \<or> (\<exists>e. r = Err e))"
proof (induction n arbitrary: b)
  case 0
  then show ?case using assms [of b] by simp
next
  case (Suc n)
  obtain b' r where r: "h b = (b', r)" "r = Ok () \<or> (\<exists>e. r = Err e)" using assms by blast
  then show ?case using Suc.IH [of b'] by auto
qed

lemma attempts_Ok: "h b = (b', Ok ()) \<Longrightarrow> attempts n h b = (b', Ok ())"
  by (cases n) simp_all

section \<open>The contract of a wrapped notifier\<close>

definition notifying :: "('db, 'bus) directory_admin \<Rightarrow> 'bus notifier \<Rightarrow> 'bus wrapper
    \<Rightarrow> ('db, 'bus) directory_admin" where
  "notifying T N wrap =
     nws_methods \<lparr>DirectoryAdmin = T, nws_notifier = N, notifyWrapper = Some wrap\<rparr>"

lemma StorageWithNotifier_retrier:
  "StorageWithNotifier T N [WithNotifyRetrier retry] = notifying T N retry"
  by (simp add: StorageWithNotifier_def WithNotifyRetrier_def addWrapper_def notifying_def)

lemma call_wrapper_Some:
  "wrap h (bus w) = (b, r) \<Longrightarrow>
    call_wrapper \<lparr>DirectoryAdmin = T, nws_notifier = N, notifyWrapper = Some wrap\<rparr> h w
      = (w\<lparr>bus := b\<rparr>, r)"
  by (simp add: call_wrapper_def)

lemma notifying_reads [simp]:
  "GetDirectory (notifying T N wrap) = GetDirectory T"
  "GetParents (notifying T N wrap) = GetParents T"
  "GetParentsUntilAncestor (notifying T N wrap) = GetParentsUntilAncestor T"
  "GetChildren (notifying T N wrap) = GetChildren T"
  "ListRoots (notifying T N wrap) = ListRoots T"
  by (simp_all add: notifying_def nws_methods_def)

locale event_notifier =
  fixes N :: "'bus notifier"
    and wrap :: "'bus wrapper"
  assumes create_ends: "\<exists>b' r. wrap (notify_handler (NotifyCreate N) (Some d)) b = (b', r)
      \<and> (r = Ok () \<or> (\<exists>e. r = Err e))"
    and update_ends: "\<exists>b' r. wrap (notify_handler (NotifyUpdate N) (Some d)) b = (b', r)
      \<and> (r = Ok () \<or> (\<exists>e. r = Err e))"
    and delete_ends: "\<exists>b' r. wrap (notify_handler (NotifyDelete N) (Some d)) b = (b', r)
      \<and> (r = Ok () \<or> (\<exists>e. r = Err e))"
begin

lemma create_cases:
  obtains b' where "wrap (notify_handler (NotifyCreate N) (Some d)) b = (b', Ok ())"
  | b' e where "wrap (notify_handler (NotifyCreate N) (Some d)) b = (b', Err e)"
  using create_ends by metis

lemma update_cases:
  obtains b' where "wrap (notify_handler (NotifyUpdate N) (Some d)) b = (b', Ok ())"
  | b' e where "wrap (notify_handler (NotifyUpdate N) (Some d)) b = (b', Err e)"
  using update_ends by metis

lemma delete_cases:
  obtains b' where "wrap (notify_handler (NotifyDelete N) (Some d)) b = (b', Ok ())"
  | b' e where "wrap (notify_handler (NotifyDelete N) (Some d)) b = (b', Err e)"
  using delete_ends by metis

end

locale reliable_notifier = event_notifier +
  assumes create_Ok: "\<exists>b'. wrap (notify_handler (NotifyCreate N) (Some d)) b = (b', Ok ())"
    and update_Ok: "\<exists>b'. wrap (notify_handler (NotifyUpdate N) (Some d)) b = (b', Ok ())"
    and delete_Ok: "\<exists>b'. wrap (notify_handler (NotifyDelete N) (Some d)) b = (b', Ok ())"

section \<open>Writes through a notifying driver\<close>

lemma notifying_create:
  assumes "CreateDirectory T inp a w = (w', Ok p)"
    and "wrap (notify_handler (NotifyCreate N) (Some (heap w' p))) (bus w') = (b, r)"
  shows "CreateDirectory (notifying T N wrap) inp a w
    = handle (w'\<lparr>bus := b\<rparr>, r) (\<lambda>w e. (w, ErrWith p (ErrWrapText ErrNotifyFailed e))) (\<lambda>w _. (w, Ok p))"
  using assms
  by (simp add: notifying_def nws_methods_def nws_CreateDirectory_def call_wrapper_Some)

lemma notifying_create_root:
  assumes "CreateRoot T inp a w = (w', Ok p)"
    and "wrap (notify_handler (NotifyCreate N) (Some (heap w' p))) (bus w') = (b, r)"
  shows "CreateRoot (notifying T N wrap) inp a w
    = handle (w'\<lparr>bus := b\<rparr>, r) (\<lambda>w e. (w, ErrWith p (ErrWrapText ErrNotifyFailed e))) (\<lambda>w _. (w, Ok p))"
  using assms
  by (simp add: notifying_def nws_methods_def nws_CreateRoot_def call_wrapper_Some)

lemma notifying_update:
  assumes "UpdateDirectory T inp (Some a) w = (w', Ok ())"
    and "wrap (notify_handler (NotifyUpdate N) (Some (heap w' a))) (bus w') = (b, r)"
  shows "UpdateDirectory (notifying T N wrap) inp (Some a) w
    = handle (w'\<lparr>bus := b\<rparr>, r) (\<lambda>w e. (w, Err (ErrWrapText ErrNotifyFailed e))) (\<lambda>w _. (w, Ok ()))"
  using assms
  by (simp add: notifying_def nws_methods_def nws_UpdateDirectory_def call_wrapper_Some)

lemma notifying_delete:
  "DeleteDirectory T inp i w = (w', Ok ps) \<Longrightarrow>
    DeleteDirectory (notifying T N wrap) inp i w
      = notify_deleted \<lparr>DirectoryAdmin = T, nws_notifier = N, notifyWrapper = Some wrap\<rparr> ps ps w'"
  by (simp add: notifying_def nws_methods_def nws_DeleteDirectory_def)

lemma notifying_errors:
  "CreateDirectory T inp a w = (w', Err e) \<Longrightarrow>
    CreateDirectory (notifying T N wrap) inp a w = (w', Err e)"
  "CreateRoot T inp a w = (w', Err e) \<Longrightarrow> CreateRoot (notifying T N wrap) inp a w = (w', Err e)"
  "UpdateDirectory T inp p w = (w', Err e) \<Longrightarrow>
    UpdateDirectory (notifying T N wrap) inp p w = (w', Err e)"
  "DeleteDirectory T inp i w = (w', Err e) \<Longrightarrow>
    DeleteDirectory (notifying T N wrap) inp i w = (w', Err e)"
  by (simp_all add: notifying_def nws_methods_def nws_CreateDirectory_def nws_CreateRoot_def
      nws_UpdateDirectory_def nws_DeleteDirectory_def)

context event_notifier
begin

lemma notify_deleted_ends:
  "\<exists>b r. notify_deleted \<lparr>DirectoryAdmin = T, nws_notifier = N, notifyWrapper = Some wrap\<rparr> ps ds w
      = (w\<lparr>bus := b\<rparr>, r) \<and> (r = Ok ps \<or> (\<exists>e. r = ErrWith ps (ErrWrapText ErrNotifyFailed e)))"
proof (induction ds arbitrary: w)
  case Nil
  show ?case by (rule exI [of _ "bus w"]) simp
next
  case (Cons d ds)
  show ?case
  proof (rule delete_cases [of "heap w d" "bus w"])
    fix b assume "wrap (notify_handler (NotifyDelete N) (Some (heap w d))) (bus w) = (b, Ok ())"
    then show ?thesis using Cons.IH [of "w\<lparr>bus := b\<rparr>"] by (simp add: call_wrapper_Some)
  next
    fix b e assume "wrap (notify_handler (NotifyDelete N) (Some (heap w d))) (bus w) = (b, Err e)"
    then show ?thesis by (auto simp: call_wrapper_Some)
  qed
qed

end

context reliable_notifier
begin

lemma notify_deleted_Ok:
  "\<exists>b. notify_deleted \<lparr>DirectoryAdmin = T, nws_notifier = N, notifyWrapper = Some wrap\<rparr> ps ds w
      = (w\<lparr>bus := b\<rparr>, Ok ps)"
proof (induction ds arbitrary: w)
  case Nil
  show ?case by (rule exI [of _ "bus w"]) simp
next
  case (Cons d ds)
  obtain b where "wrap (notify_handler (NotifyDelete N) (Some (heap w d))) (bus w) = (b, Ok ())"
    using delete_Ok by blast
  then show ?case using Cons.IH [of "w\<lparr>bus := b\<rparr>"] by (simp add: call_wrapper_Some)
qed

end

section \<open>A store behind a notifier\<close>

text \<open>
  With a notifier that may fail, a write takes effect whatever becomes of the notification;
  a failed notification turns the success into \<open>ErrNotifyFailed\<close>, with the directory beside it.
\<close>

locale notified_store = directory_store T inv view avail + event_notifier N wrap
  for T :: "('db, 'bus) directory_admin" and inv view avail and N :: "'bus notifier" and wrap
begin

lemma notified_create:
  assumes "inv w" "avail inp" "view w (in_uuid inp) = None"
    and "Parent d = Some q" "q \<in> dom (view w)" "DeletedAt d = None"
  shows "\<exists>w' p t r. CreateDirectory (notifying T N wrap) inp (fst (alloc d w)) (snd (alloc d w)) = (w', r)
    \<and> (r = Ok p \<or> (\<exists>e. r = ErrWith p (ErrWrapText ErrNotifyFailed e)))
    \<and> heap w' p = stored_new inp t d \<and> inv w'
    \<and> view w' = (view w)(in_uuid inp \<mapsto> stored_new inp t d)"
proof -
  obtain w' p t where T: "CreateDirectory T inp (fst (alloc d w)) (snd (alloc d w)) = (w', Ok p)"
    "heap w' p = stored_new inp t d" "inv w'" "view w' = (view w)(in_uuid inp \<mapsto> stored_new inp t d)"
    using create_directory [OF assms] by blast
  show ?thesis
  proof (rule create_cases [of "heap w' p" "bus w'"])
    fix b assume "wrap (notify_handler (NotifyCreate N) (Some (heap w' p))) (bus w') = (b, Ok ())"
    from notifying_create [where N = N and wrap = wrap, OF T(1) this] T(2-4) show ?thesis
      by (intro exI [of _ "w'\<lparr>bus := b\<rparr>"] exI [of _ p] exI [of _ t]) (simp add: inv_bus view_bus)
  next
    fix b e assume "wrap (notify_handler (NotifyCreate N) (Some (heap w' p))) (bus w') = (b, Err e)"
    from notifying_create [where N = N and wrap = wrap, OF T(1) this] T(2-4) show ?thesis
      by (intro exI [of _ "w'\<lparr>bus := b\<rparr>"] exI [of _ p] exI [of _ t]) (simp add: inv_bus view_bus)
  qed
qed

lemma notified_delete:
  assumes "inv w" "avail inp" "live_child (view w) i"
  shows "\<exists>w' ps r I. DeleteDirectory (notifying T N wrap) inp i w = (w', r)
    \<and> (r = Ok ps \<or> (\<exists>e. r = ErrWith ps (ErrWrapText ErrNotifyFailed e))) \<and> inv w'
    \<and> set (map (\<lambda>a. DirId (heap w' a)) ps) = I \<and> i \<in> I \<and> I \<subseteq> subtree (view w) i
    \<and> (card (descendants (view w) False i) \<le> 10 \<longrightarrow> I = subtree (view w) i)
    \<and> view w' = mark_deleted I (in_time1 inp) (view w)"
proof -
  obtain w' ps I where T: "DeleteDirectory T inp i w = (w', Ok ps)" "inv w'"
    "set (map (\<lambda>a. DirId (heap w' a)) ps) = I" "i \<in> I" "I \<subseteq> subtree (view w) i"
    "card (descendants (view w) False i) \<le> 10 \<longrightarrow> I = subtree (view w) i"
    "view w' = mark_deleted I (in_time1 inp) (view w)"
    using delete_directory [OF assms] by metis
  obtain b r where "DeleteDirectory (notifying T N wrap) inp i w = (w'\<lparr>bus := b\<rparr>, r)"
    "r = Ok ps \<or> (\<exists>e. r = ErrWith ps (ErrWrapText ErrNotifyFailed e))"
    using notifying_delete [OF T(1), of N wrap] notify_deleted_ends [of T ps ps w'] by auto
  with T(2-) show ?thesis
    by (intro exI [of _ "w'\<lparr>bus := b\<rparr>"] exI [of _ ps] exI [of _ r] exI [of _ I])
      (simp add: inv_bus view_bus)
qed

end

locale reliable_store = directory_store T inv view avail + reliable_notifier N wrap
  for T :: "('db, 'bus) directory_admin" and inv view avail and N :: "'bus notifier" and wrap

sublocale reliable_store \<subseteq> notified_store ..

sublocale reliable_store \<subseteq> notified: directory_store "notifying T N wrap" inv view avail
proof (unfold_locales, goal_cases)
  case (1 w)
  then show ?case by (rule inv_tree)
next
  case (2 w b)
  show ?case by (rule inv_bus)
next
  case (3 w b)
  show ?case by (rule view_bus)
next
  case (4 w inp i d options)
  then show ?case unfolding notifying_reads by (rule get_found)
next
  case (5 w inp i options)
  show ?case unfolding notifying_reads by (rule get_missing [OF 5])
next
  case (6 w i d dels)
  then show ?case unfolding notifying_reads by (rule get_children)
next
  case (7 w dels i ps)
  then show ?case unfolding notifying_reads by (rule get_parents)
next
  case (8 w dels i ps anc)
  then show ?case unfolding notifying_reads by (rule get_until)
next
  case (9 w dels)
  then show ?case unfolding notifying_reads by (rule list_roots)
next
  case (10 w inp i options w' r)
  then show ?case unfolding notifying_reads by (rule keep_children)
next
  case (11 w inp i options w' r)
  then show ?case unfolding notifying_reads by (rule keep_parents)
next
  case (12 w inp i anc options w' r)
  then show ?case unfolding notifying_reads by (rule keep_until)
next
  case (13 w inp options w' r)
  then show ?case unfolding notifying_reads by (rule keep_roots)
next
  case (14 w inp d)
  then obtain w' p t where T: "CreateRoot T inp (fst (alloc d w)) (snd (alloc d w)) = (w', Ok p)"
    "heap w' p = stored_new inp t d" "inv w'" "view w' = (view w)(in_uuid inp \<mapsto> stored_new inp t d)"
    using create_root by blast
  obtain b where "wrap (notify_handler (NotifyCreate N) (Some (heap w' p))) (bus w') = (b, Ok ())"
    using create_Ok by blast
  from notifying_create_root [where N = N and wrap = wrap, OF T(1) this] T(2-4) show ?case
    by (intro exI [of _ "w'\<lparr>bus := b\<rparr>"] exI [of _ p] exI [of _ t]) (simp add: inv_bus view_bus)
next
  case (15 w inp d q)
  then obtain w' p t where T: "CreateDirectory T inp (fst (alloc d w)) (snd (alloc d w)) = (w', Ok p)"
    "heap w' p = stored_new inp t d" "inv w'" "view w' = (view w)(in_uuid inp \<mapsto> stored_new inp t d)"
    using create_directory by blast
  obtain b where "wrap (notify_handler (NotifyCreate N) (Some (heap w' p))) (bus w') = (b, Ok ())"
    using create_Ok by blast
  from notifying_create [where N = N and wrap = wrap, OF T(1) this] T(2-4) show ?case
    by (intro exI [of _ "w'\<lparr>bus := b\<rparr>"] exI [of _ p] exI [of _ t]) (simp add: inv_bus view_bus)
next
  case (16 w inp inp' i w1 a d m n)
  then obtain w2 where T: "UpdateDirectory T inp' (Some a) (write_ptr a d w1) = (w2, Ok ())"
    "heap w2 a = stored_update inp' d" "inv w2" "view w2 = (view w)(i \<mapsto> stored_update inp' d)"
    using update_directory unfolding notifying_reads by meson
  obtain b where "wrap (notify_handler (NotifyUpdate N) (Some (heap w2 a))) (bus w2) = (b, Ok ())"
    using update_Ok by blast
  from notifying_update [where N = N and wrap = wrap, OF T(1) this] T(2-4) show ?case
    by (intro exI [of _ "w2\<lparr>bus := b\<rparr>"]) (simp add: inv_bus view_bus)
next
  case (17 w inp i)
  then obtain w' ps I where T: "DeleteDirectory T inp i w = (w', Ok ps)" "inv w'"
    "distinct (map (\<lambda>a. DirId (heap w' a)) ps)" "set (map (\<lambda>a. DirId (heap w' a)) ps) = I"
    "i \<in> I" "I \<subseteq> subtree (view w) i"
    "card (descendants (view w) False i) \<le> 10 \<longrightarrow> I = subtree (view w) i"
    "view w' = mark_deleted I (in_time1 inp) (view w)"
    using delete_directory by metis
  obtain b where "notify_deleted \<lparr>DirectoryAdmin = T, nws_notifier = N, notifyWrapper = Some wrap\<rparr> ps ps w'
      = (w'\<lparr>bus := b\<rparr>, Ok ps)"
    using notify_deleted_Ok by blast
  with notifying_delete [OF T(1), of N wrap] T(2-) show ?case
    by (intro exI [of _ "w'\<lparr>bus := b\<rparr>"] exI [of _ ps] exI [of _ I]) (simp add: inv_bus view_bus)
next
  case (18 w inp i)
  then obtain w' where "DeleteDirectory T inp i w = (w', Err ErrDirectoryNotFound)"
    "view w' = view w" "inv w'"
    using delete_missing by blast
  with notifying_errors(4) [of T inp i w w'] show ?case by blast
qed

section \<open>The in-memory store behind the no-op notifier\<close>

lemma noop_notifier_Ok [simp]:
  "notify_handler (NotifyCreate noop_NewNotifier) d b = (b, Ok ())"
  "notify_handler (NotifyUpdate noop_NewNotifier) d b = (b, Ok ())"
  "notify_handler (NotifyDelete noop_NewNotifier) d b = (b, Ok ())"
  by (simp_all add: notify_handler_def noop_NewNotifier_def)

lemma attempts_noop [simp]:
  "attempts n (notify_handler (NotifyCreate noop_NewNotifier) d) b = (b, Ok ())"
  "attempts n (notify_handler (NotifyUpdate noop_NewNotifier) d) b = (b, Ok ())"
  "attempts n (notify_handler (NotifyDelete noop_NewNotifier) d) b = (b, Ok ())"
  by (simp_all add: attempts_Ok)

interpretation noop: reliable_notifier noop_NewNotifier "attempts n" for n
  by unfold_locales simp_all

interpretation memory_noop: reliable_store memory_driver mem_inv mem_view "\<lambda>_. True"
    noop_NewNotifier "attempts n" for n
  by unfold_locales

end
