(* ===== verification/Nats_Notifier.thy ===== *)
theory Nats_Notifier
  imports Notifier
begin

text \<open>
  The NATS notifier (notifier/nats/nats.go): an event is built, encoded and published on the
  subject made of the prefix and the event type.

  JetStream and the JSON encoder are libraries, and the clock is outside: \<open>js_Publish\<close>,
  \<open>js_StreamInfo\<close>, \<open>js_AddStream\<close>, \<open>json_Encode\<close> and \<open>now\<close> are parameters, the first three
  acting on the state \<open>'bus\<close> of the server; \<open>'p\<close> is the type of the encoded payloads. The logger is
  left out.
\<close>

record ('bus, 'opt, 'p) nats_notifier =
  js_Publish :: "string \<Rightarrow> 'p \<Rightarrow> 'opt list \<Rightarrow> 'bus \<Rightarrow> 'bus \<times> go_error option"
  subjectPrefix :: string
  publishOptions :: "'opt list"

definition nats_NewNotifier ::
    "(string \<Rightarrow> 'p \<Rightarrow> 'opt list \<Rightarrow> 'bus \<Rightarrow> 'bus \<times> go_error option) \<Rightarrow> string
      \<Rightarrow> (('bus, 'opt, 'p) nats_notifier \<Rightarrow> ('bus, 'opt, 'p) nats_notifier) list \<Rightarrow> ('bus, 'opt, 'p) nats_notifier"
where
  "nats_NewNotifier js prefix options =
     fold (\<lambda>opt n. opt n) options
       \<lparr>js_Publish = js, subjectPrefix = prefix, publishOptions = []\<rparr>"

definition WithPublishOptions :: "'opt list \<Rightarrow> ('bus, 'opt, 'p) nats_notifier \<Rightarrow> ('bus, 'opt, 'p) nats_notifier" where
  "WithPublishOptions options n = n\<lparr>publishOptions := options\<rparr>"

section \<open>Publishing\<close>

definition getEvent :: "event_type \<Rightarrow> directory option \<Rightarrow> go_time \<Rightarrow> directory_event outcome" where
  "getEvent evtType d now =
     (case d of
        None \<Rightarrow> Panic
      | Some dir \<Rightarrow> Ok \<lparr>event_Version = APIVersion, event_Type = evtType,
                      event_Time = time_UTC now, event_Directory = dir\<rparr>)"

definition publish :: "(directory_event \<Rightarrow> go_error + 'p) \<Rightarrow> ('bus, 'opt, 'p) nats_notifier
    \<Rightarrow> directory_event \<Rightarrow> 'bus handler" where
  "publish json_Encode n evt b =
     (case json_Encode evt of
        Inl e \<Rightarrow> (b, Err (ErrWrap ''failed encoding event'' e))
      | Inr buff \<Rightarrow>
          (let subject = subjectPrefix n @ ''.'' @ event_type_text (event_Type evt)
           in case js_Publish n subject buff (publishOptions n) b of
                (b', Some e) \<Rightarrow> (b', Err (ErrWrap ''failed to publish event to'' e))
              | (b', None) \<Rightarrow> (b', Ok ())))"

definition notify_event :: "(directory_event \<Rightarrow> go_error + 'p) \<Rightarrow> ('bus \<Rightarrow> go_time)
    \<Rightarrow> ('bus, 'opt, 'p) nats_notifier \<Rightarrow> event_type \<Rightarrow> directory option \<Rightarrow> 'bus handler" where
  "notify_event json_Encode now n evtType d b =
     handle (b, getEvent evtType d (now b)) (\<lambda>b e. (b, Err e)) (\<lambda>b evt. publish json_Encode n evt b)"

definition nats_methods :: "(directory_event \<Rightarrow> go_error + 'p) \<Rightarrow> ('bus \<Rightarrow> go_time)
    \<Rightarrow> ('bus, 'opt, 'p) nats_notifier \<Rightarrow> 'bus notifier" where
  "nats_methods json_Encode now n = \<lparr>
     NotifyCreate = notify_event json_Encode now n EventTypeCreate,
     NotifyUpdate = notify_event json_Encode now n EventTypeUpdate,
     NotifyDelete = notify_event json_Encode now n EventTypeDelete,
     NotifyDeleteHard = notify_event json_Encode now n EventTypeDeleteHard\<rparr>"

section \<open>AddStream\<close>

text \<open>
  The configuration is changed in place, so it is returned beside the result. \<open>'cfg\<close> stands
  for the fields the code does not touch, \<open>'info\<close> for \<open>nats.StreamInfo\<close>.
\<close>

record 'cfg stream_config =
  stream_Name :: string
  stream_Subjects :: "string list"
  stream_rest :: 'cfg

definition AddStream ::
    "(string \<Rightarrow> 'bus \<Rightarrow> go_error + 'info) \<Rightarrow> ('cfg stream_config \<Rightarrow> 'bus \<Rightarrow> 'bus \<times> (go_error + 'info))
      \<Rightarrow> go_error \<Rightarrow> ('bus, 'opt, 'p) nats_notifier \<Rightarrow> 'cfg stream_config \<Rightarrow> 'bus
      \<Rightarrow> 'bus \<times> 'cfg stream_config \<times> (go_error + 'info)" where
  "AddStream js_StreamInfo js_AddStream errStreamNotFound n stream b =
     (case js_StreamInfo (stream_Name stream) b of
        Inr info \<Rightarrow> (b, stream, Inr info)
      | Inl e \<Rightarrow>
          (if \<not> errors_is e errStreamNotFound then (b, stream, Inl e)
           else (let stream' = stream\<lparr>stream_Subjects := stream_Subjects stream @ [subjectPrefix n @ ''.>'']\<rparr>;
                     (b', r) = js_AddStream stream' b
                 in (b', stream', r))))"

section \<open>Every notification ends in success or an error\<close>

lemma publish_ends: "\<exists>b' r. publish enc n evt b = (b', r) \<and> (r = Ok () \<or> (\<exists>e. r = Err e))"
  by (auto simp: publish_def Let_def split: sum.splits prod.splits option.splits)

text \<open>The event published for a directory.\<close>

definition event_for :: "event_type \<Rightarrow> directory \<Rightarrow> go_time \<Rightarrow> directory_event" where
  "event_for t d now = \<lparr>event_Version = APIVersion, event_Type = t,
     event_Time = time_UTC now, event_Directory = d\<rparr>"

lemma notify_event_Some: "notify_event enc now n t (Some d) b = publish enc n (event_for t d (now b)) b"
  by (simp add: notify_event_def getEvent_def event_for_def)

lemma notify_event_ends:
  "\<exists>b' r. notify_handler (notify_event enc now n t) (Some d) b = (b', r) \<and> (r = Ok () \<or> (\<exists>e. r = Err e))"
proof -
  obtain b' r where "publish enc n (event_for t d (now b)) b = (b', r)" "r = Ok () \<or> (\<exists>e. r = Err e)"
    using publish_ends [of enc n "event_for t d (now b)" b] by auto
  then show ?thesis by (auto simp: notify_handler_def notify_event_Some)
qed

lemma attempts_nats_ends:
  "\<exists>b' r. attempts k (notify_handler (notify_event enc now n t) (Some d)) b = (b', r)
    \<and> (r = Ok () \<or> (\<exists>e. r = Err e))"
  by (rule attempts_ends) (rule notify_event_ends)

lemma nats_methods_simps [simp]:
  "NotifyCreate (nats_methods enc now n) = notify_event enc now n EventTypeCreate"
  "NotifyUpdate (nats_methods enc now n) = notify_event enc now n EventTypeUpdate"
  "NotifyDelete (nats_methods enc now n) = notify_event enc now n EventTypeDelete"
  by (simp_all add: nats_methods_def)

interpretation nats: event_notifier "nats_methods enc now n" "attempts k" for enc now n k
  by unfold_locales (unfold nats_methods_simps, rule attempts_nats_ends, rule attempts_nats_ends,
      rule attempts_nats_ends)

interpretation memory_nats: notified_store memory_driver mem_inv mem_view "\<lambda>_. True"
    "nats_methods enc now n" "attempts k" for enc now n k
  by unfold_locales

end
