(* ===== verification/Treemanager.thy ===== *)
theory Treemanager
  imports Nats_Notifier Go_Strings
begin

text \<open>
  The tree manager's HTTP handlers (internal/httpsrv/treemanager/treemanager.go).

  \<^item> \<open>http_request\<close> is what the handlers read of gin's context. Binding a JSON body is gin's
    work: the request carries its outcome for the two request types.
  \<^item> A handler takes the storage driver \<open>T\<close>, the function \<open>uuid_Parse\<close> of the uuid package, the
    inputs of its successive storage calls (\<open>inps 0\<close>, \<open>inps 1\<close>) and the request, and acts on
    the driver's world. Its outcome is a response, or a run-time panic of the handler.
  \<^item> \<open>newHandler\<close> is the router. The authentication middleware is an argument: it lets a
    request pass or answers it.
  Logging is left out.
\<close>

section \<open>Requests and responses\<close>

record http_request =
  req_id :: string
  req_until :: string
  req_query :: "string \<Rightarrow> string option"
  req_create :: "go_error + create_directory_request"
  req_update :: "go_error + update_directory_request"
  req_path :: string
  req_scheme :: string
  req_tls :: bool
  req_host :: string
  req_header :: "string \<Rightarrow> string"
  req_client_ip :: string
  req_remote_ip :: string

datatype http_body =
    VersionBody string
  | ErrorBody string
  | MessageBody string
  | StatusBody string
  | ChecksBody "string \<rightharpoonup> string"
  | ListBody directory_list
  | FetchBody directory_fetch

datatype http_response = Response (status: nat) (body: http_body)

definition bad_request :: "string \<Rightarrow> http_response" where
  "bad_request s = Response 400 (ErrorBody s)"

definition not_found :: "string \<Rightarrow> http_response" where
  "not_found s = Response 404 (ErrorBody s)"

definition server_error :: "string \<Rightarrow> http_response" where
  "server_error s = Response 500 (ErrorBody s)"

type_synonym ('db, 'bus) http_run = "('db, 'bus) world \<times> http_response outcome"

section \<open>Options and pages of a request\<close>

definition positive_query :: "string option \<Rightarrow> go_error + go_int" where
  "positive_query q =
     (case q of
        None \<Rightarrow> Inr 0
      | Some value \<Rightarrow>
          (case Atoi value of
             Inl e \<Rightarrow> Inl e
           | Inr n \<Rightarrow> Inr (if 0 < sint n then n else 0)))"

definition storageOptionsFromGetQuery ::
    "(string \<Rightarrow> string option) \<Rightarrow> go_error + storage_option list" where
  "storageOptionsFromGetQuery GetQuery =
     (case (case GetQuery ''with_deleted'' of
              None \<Rightarrow> Inr []
            | Some value \<Rightarrow>
                (case ParseBool value of
                   Inl e \<Rightarrow> Inl e
                 | Inr withDeleted \<Rightarrow> Inr (if withDeleted then [WithDeletedDirectories] else []))) of
        Inl e \<Rightarrow> Inl e
      | Inr options \<Rightarrow>
          (case positive_query (GetQuery ''page'') of
             Inl e \<Rightarrow> Inl e
           | Inr page \<Rightarrow>
               (case positive_query (GetQuery ''limit'') of
                  Inl e \<Rightarrow> Inl e
                | Inr limit \<Rightarrow>
                    Inr (if 0 < sint page \<or> 0 < sint limit
                         then options @ [Pagination page limit] else options))))"

definition storageOptionsToURLValues :: "storage_options \<Rightarrow> go_int \<Rightarrow> url_values" where
  "storageOptionsToURLValues opts page =
     (let values = (if WithDeleted opts then values_Set ''with_deleted'' ''true'' [] else [])
      in if 0 < sint page
         then (let values = (if 1 \<le> sint (GetPage opts) then values_Set ''page'' (Itoa page) values
                             else values)
               in values_Set ''limit'' (Itoa (GetPageSize opts)) values)
         else values)"

definition buildURL :: "http_request \<Rightarrow> url_values \<Rightarrow> go_url" where
  "buildURL req values =
     (let outURL = new_url\<lparr>url_Path := req_path req, url_RawQuery := values_Encode values\<rparr>;
          outURL = (if req_client_ip req \<noteq> req_remote_ip req
                    then (let scheme = req_header req ''X-Forwarded-Proto'';
                              host = req_header req ''X-Forwarded-Host'';
                              outURL = (if scheme \<noteq> '''' then outURL\<lparr>url_Scheme := scheme\<rparr> else outURL)
                          in if host \<noteq> '''' then outURL\<lparr>url_Host := host\<rparr> else outURL)
                    else outURL);
          outURL = (if url_Scheme outURL = ''''
                    then outURL\<lparr>url_Scheme := (if req_scheme req \<noteq> '''' then req_scheme req
                                             else if req_tls req then ''https'' else ''http'')\<rparr>
                    else outURL)
      in if url_Host outURL = '''' \<and> req_host req \<noteq> '''' then outURL\<lparr>url_Host := req_host req\<rparr>
         else outURL)"

definition paginationResponse :: "http_request \<Rightarrow> nat \<Rightarrow> storage_option list \<Rightarrow> pagination" where
  "paginationResponse req cnt options =
     (let opts = BuildOptions options
      in \<lparr>pagination_Links = \<lparr>Next =
             (if int cnt = sint (GetPageSize opts)
              then Some (url_String (buildURL req (storageOptionsToURLValues opts (GetPage opts + 1))))
              else None)\<rparr>,
          pagination_Page = GetPage opts, pagination_PageSize = GetPageSize opts\<rparr>)"

definition list_response ::
    "http_request \<Rightarrow> storage_option list \<Rightarrow> directory_id list \<Rightarrow> http_response" where
  "list_response req options ids =
     (let pagination = paginationResponse req (length ids) options
      in Response 200 (ListBody
           \<lparr>list_Links = pagination_Links pagination, list_Directories = ids,
            list_Page = pagination_Page pagination, list_PageSize = pagination_PageSize pagination,
            list_Version = APIVersion\<rparr>))"

definition fetch_response :: "nat \<Rightarrow> directory \<Rightarrow> http_response" where
  "fetch_response code d = Response code (FetchBody \<lparr>fetch_Directory = d, fetch_Version = APIVersion\<rparr>)"

section \<open>Shared helpers\<close>

definition getDirectoryFromReference ::
    "('db, 'bus) directory_admin \<Rightarrow> (string \<Rightarrow> uuid option) \<Rightarrow> inputs \<Rightarrow> string
      \<Rightarrow> storage_option list \<Rightarrow> ('db, 'bus) world \<Rightarrow> ('db, 'bus) world \<times> addr outcome" where
  "getDirectoryFromReference T uuid_Parse inp idstr options w =
     (case ParseDirectoryID uuid_Parse idstr of
        Inl e \<Rightarrow> (w, Err e)
      | Inr i \<Rightarrow> handle (GetDirectory T inp i options w) (\<lambda>w e. (w, Err e)) (\<lambda>w dir. (w, Ok dir)))"

definition outputGetDirectoryError :: "go_error \<Rightarrow> http_response" where
  "outputGetDirectoryError e =
     (if errors_is e ErrParsingID then bad_request ''invalid id''
      else if errors_is e ErrDirectoryNotFound then not_found ''directory not found''
      else server_error ''internal server error'')"

section \<open>Handlers\<close>

definition apiVersionHandler :: "http_response" where
  "apiVersionHandler = Response 200 (VersionBody ''v1'')"

definition listRoots :: "('db, 'bus) directory_admin \<Rightarrow> (nat \<Rightarrow> inputs) \<Rightarrow> http_request
    \<Rightarrow> ('db, 'bus) world \<Rightarrow> ('db, 'bus) http_run" where
  "listRoots T inps req w =
     (case storageOptionsFromGetQuery (req_query req) of
        Inl e \<Rightarrow> (w, Ok (bad_request ''bad request''))
      | Inr options \<Rightarrow>
          handle (ListRoots T (inps 0) options w)
            (\<lambda>w e. (w, Ok (server_error ''internal server error'')))
            (\<lambda>w roots. (w, Ok (list_response req options roots))))"

definition createRootDirectory :: "('db, 'bus) directory_admin \<Rightarrow> (nat \<Rightarrow> inputs) \<Rightarrow> http_request
    \<Rightarrow> ('db, 'bus) world \<Rightarrow> ('db, 'bus) http_run" where
  "createRootDirectory T inps req w =
     (case req_create req of
        Inl e \<Rightarrow> (w, Ok (bad_request (error_text e)))
      | Inr r \<Rightarrow>
          (let (d, w) = alloc (zero_directory\<lparr>Name := create_Name r, Metadata := create_Metadata r\<rparr>) w
           in handle (CreateRoot T (inps 0) d w)
                (\<lambda>w e. (w, Ok (server_error (error_text e))))
                (\<lambda>w rd. (w, Ok (fetch_response 201 (heap w rd))))))"

definition getDirectory :: "('db, 'bus) directory_admin \<Rightarrow> (string \<Rightarrow> uuid option) \<Rightarrow> (nat \<Rightarrow> inputs)
    \<Rightarrow> http_request \<Rightarrow> ('db, 'bus) world \<Rightarrow> ('db, 'bus) http_run" where
  "getDirectory T uuid_Parse inps req w =
     (case storageOptionsFromGetQuery (req_query req) of
        Inl e \<Rightarrow> (w, Ok (bad_request ''bad request''))
      | Inr options \<Rightarrow>
          handle (getDirectoryFromReference T uuid_Parse (inps 0) (req_id req) options w)
            (\<lambda>w e. (w, Ok (outputGetDirectoryError e)))
            (\<lambda>w dir. (w, Ok (fetch_response 200 (heap w dir)))))"

definition createDirectory :: "('db, 'bus) directory_admin \<Rightarrow> (string \<Rightarrow> uuid option) \<Rightarrow> (nat \<Rightarrow> inputs)
    \<Rightarrow> http_request \<Rightarrow> ('db, 'bus) world \<Rightarrow> ('db, 'bus) http_run" where
  "createDirectory T uuid_Parse inps req w =
     (case ParseDirectoryID uuid_Parse (req_id req) of
        Inl e \<Rightarrow> (w, Ok (bad_request ''invalid id''))
      | Inr i \<Rightarrow>
          (case req_create req of
             Inl e \<Rightarrow> (w, Ok (bad_request (error_text e)))
           | Inr r \<Rightarrow>
               handle (GetDirectory T (inps 0) i [] w)
                 (\<lambda>w e. if errors_is e ErrDirectoryNotFound
                        then (w, Ok (bad_request ''parent directory not found''))
                        else (w, Ok (server_error ''internal server error'')))
                 (\<lambda>w parent.
                    let parentID = DirId (heap w parent);
                        (d, w) = alloc (zero_directory\<lparr>Name := create_Name r,
                                   Metadata := create_Metadata r, Parent := Some parentID\<rparr>) w
                    in handle (CreateDirectory T (inps 1) d w)
                         (\<lambda>w e. (w, Ok (server_error ''internal server error'')))
                         (\<lambda>w rd. (w, Ok (fetch_response 201 (heap w rd)))))))"

text \<open>An assignment through a pointer that may be nil.\<close>

definition assign :: "addr option \<Rightarrow> (directory \<Rightarrow> directory) \<Rightarrow> ('db, 'bus) world
    \<Rightarrow> ('db, 'bus) world \<times> unit outcome" where
  "assign ptr f w =
     (case ptr of None \<Rightarrow> (w, Panic) | Some a \<Rightarrow> (write_ptr a (f (heap w a)) w, Ok ()))"

text \<open>The rest of \<open>updateDirectory\<close> after its check for \<open>ErrDirectoryNotFound\<close>; \<open>d\<close> is nil when
  \<open>GetDirectory\<close> failed in another way.\<close>

definition apply_update :: "('db, 'bus) directory_admin \<Rightarrow> (nat \<Rightarrow> inputs) \<Rightarrow> update_directory_request
    \<Rightarrow> addr option \<Rightarrow> ('db, 'bus) world \<Rightarrow> ('db, 'bus) http_run" where
  "apply_update T inps r d w =
     (let (w1, r1) = (case update_Name r of
                        None \<Rightarrow> (w, Ok ())
                      | Some n \<Rightarrow> if n \<noteq> '''' then assign d (\<lambda>dir. dir\<lparr>Name := n\<rparr>) w else (w, Ok ()))
      in handle (w1, r1) (\<lambda>w e. (w, Panic)) (\<lambda>w _.
           let (w2, r2) = (case update_Metadata r of
                             None \<Rightarrow> (w, Ok ())
                           | Some m \<Rightarrow> assign d (\<lambda>dir. dir\<lparr>Metadata := Some m\<rparr>) w)
           in handle (w2, r2) (\<lambda>w e. (w, Panic)) (\<lambda>w _.
                handle (UpdateDirectory T (inps 1) d w)
                  (\<lambda>w e. (w, Ok (server_error ''failed to update directory'')))
                  (\<lambda>w _. case d of
                             None \<Rightarrow> (w, Panic)
                           | Some a \<Rightarrow> (w, Ok (fetch_response 200 (heap w a)))))))"

definition updateDirectory :: "('db, 'bus) directory_admin \<Rightarrow> (string \<Rightarrow> uuid option) \<Rightarrow> (nat \<Rightarrow> inputs)
    \<Rightarrow> http_request \<Rightarrow> ('db, 'bus) world \<Rightarrow> ('db, 'bus) http_run" where
  "updateDirectory T uuid_Parse inps req w =
     (case ParseDirectoryID uuid_Parse (req_id req) of
        Inl e \<Rightarrow> (w, Ok (bad_request ''invalid id''))
      | Inr i \<Rightarrow>
          (case req_update req of
             Inl e \<Rightarrow> (w, Ok (bad_request (error_text e)))
           | Inr r \<Rightarrow>
               handle (GetDirectory T (inps 0) i [] w)
                 (\<lambda>w e. if errors_is e ErrDirectoryNotFound
                        then (w, Ok (not_found ''directory not found''))
                        else apply_update T inps r None w)
                 (\<lambda>w d. apply_update T inps r (Some d) w)))"

definition deleteDirectory :: "('db, 'bus) directory_admin \<Rightarrow> (string \<Rightarrow> uuid option) \<Rightarrow> (nat \<Rightarrow> inputs)
    \<Rightarrow> http_request \<Rightarrow> ('db, 'bus) world \<Rightarrow> ('db, 'bus) http_run" where
  "deleteDirectory T uuid_Parse inps req w =
     (case ParseDirectoryID uuid_Parse (req_id req) of
        Inl e \<Rightarrow> (w, Ok (bad_request ''invalid id''))
      | Inr i \<Rightarrow>
          handle (DeleteDirectory T (inps 0) i w)
            (\<lambda>w e. if errors_is e ErrDirectoryNotFound
                   then (w, Ok (not_found ''directory not found''))
                   else (w, Ok (server_error ''internal server error'')))
            (\<lambda>w affected.
               let affectedIDs = map (\<lambda>d. DirId (heap w d)) affected
               in (w, Ok (Response 200 (ListBody
                     \<lparr>list_Links = \<lparr>Next = None\<rparr>, list_Directories = affectedIDs,
                      list_Page = 0, list_PageSize = 0, list_Version = APIVersion\<rparr>)))))"

definition listChildren :: "('db, 'bus) directory_admin \<Rightarrow> (string \<Rightarrow> uuid option) \<Rightarrow> (nat \<Rightarrow> inputs)
    \<Rightarrow> http_request \<Rightarrow> ('db, 'bus) world \<Rightarrow> ('db, 'bus) http_run" where
  "listChildren T uuid_Parse inps req w =
     (case storageOptionsFromGetQuery (req_query req) of
        Inl e \<Rightarrow> (w, Ok (bad_request ''bad request''))
      | Inr options \<Rightarrow>
          handle (getDirectoryFromReference T uuid_Parse (inps 0) (req_id req) options w)
            (\<lambda>w e. (w, Ok (outputGetDirectoryError e)))
            (\<lambda>w dir.
               handle (GetChildren T (inps 1) (DirId (heap w dir)) options w)
                 (\<lambda>w e. (w, Ok (server_error ''internal server error'')))
                 (\<lambda>w children. (w, Ok (list_response req options children)))))"

definition listParents :: "('db, 'bus) directory_admin \<Rightarrow> (string \<Rightarrow> uuid option) \<Rightarrow> (nat \<Rightarrow> inputs)
    \<Rightarrow> http_request \<Rightarrow> ('db, 'bus) world \<Rightarrow> ('db, 'bus) http_run" where
  "listParents T uuid_Parse inps req w =
     (case storageOptionsFromGetQuery (req_query req) of
        Inl e \<Rightarrow> (w, Ok (bad_request ''bad request''))
      | Inr options \<Rightarrow>
          handle (getDirectoryFromReference T uuid_Parse (inps 0) (req_id req) options w)
            (\<lambda>w e. (w, Ok (outputGetDirectoryError e)))
            (\<lambda>w dir.
               handle (GetParents T (inps 1) (DirId (heap w dir)) options w)
                 (\<lambda>w e. (w, Ok (server_error ''internal server error'')))
                 (\<lambda>w parents. (w, Ok (list_response req options parents)))))"

definition listParentsUntil :: "('db, 'bus) directory_admin \<Rightarrow> (string \<Rightarrow> uuid option) \<Rightarrow> (nat \<Rightarrow> inputs)
    \<Rightarrow> http_request \<Rightarrow> ('db, 'bus) world \<Rightarrow> ('db, 'bus) http_run" where
  "listParentsUntil T uuid_Parse inps req w =
     (case storageOptionsFromGetQuery (req_query req) of
        Inl e \<Rightarrow> (w, Ok (bad_request ''bad request''))
      | Inr options \<Rightarrow>
          handle (getDirectoryFromReference T uuid_Parse (inps 0) (req_id req) options w)
            (\<lambda>w e. (w, Ok (outputGetDirectoryError e)))
            (\<lambda>w dir.
               handle (getDirectoryFromReference T uuid_Parse (inps 1) (req_until req) options w)
                 (\<lambda>w e. (w, Ok (outputGetDirectoryError e)))
                 (\<lambda>w untildir.
                    handle (GetParentsUntilAncestor T (inps 2) (DirId (heap w dir))
                              (DirId (heap w untildir)) options w)
                      (\<lambda>w e. (w, Ok (server_error ''internal server error'')))
                      (\<lambda>w parents. (w, Ok (list_response req options parents))))))"

section \<open>Routes\<close>

datatype route = R_version | R_listRoots | R_createRoot | R_get string | R_create string
  | R_update string | R_delete string | R_children string | R_parents string
  | R_until string string

definition find_route :: "string \<Rightarrow> string list \<Rightarrow> route option" where
  "find_route meth segs =
     (if segs = [''api''] \<or> segs = [''api'', ''v1'']
      then (if meth = ''GET'' then Some R_version else None)
      else if segs = [''api'', ''v1'', ''roots'']
      then (if meth = ''GET'' then Some R_listRoots
            else if meth = ''POST'' then Some R_createRoot else None)
      else if take 3 segs = [''api'', ''v1'', ''directories'']
      then (case drop 3 segs of
              [i] \<Rightarrow> (if meth = ''GET'' then Some (R_get i)
                      else if meth = ''POST'' then Some (R_create i)
                      else if meth = ''PATCH'' then Some (R_update i)
                      else if meth = ''DELETE'' then Some (R_delete i) else None)
            | [i, x] \<Rightarrow> (if meth \<noteq> ''GET'' then None
                         else if x = ''children'' then Some (R_children i)
                         else if x = ''parents'' then Some (R_parents i) else None)
            | [i, x, u] \<Rightarrow> (if meth = ''GET'' \<and> x = ''parents'' then Some (R_until i u) else None)
            | _ \<Rightarrow> None)
      else None)"

fun serve :: "('db, 'bus) directory_admin \<Rightarrow> (string \<Rightarrow> uuid option) \<Rightarrow> (http_request \<Rightarrow> http_response option)
    \<Rightarrow> (nat \<Rightarrow> inputs) \<Rightarrow> route \<Rightarrow> http_request \<Rightarrow> ('db, 'bus) world \<Rightarrow> ('db, 'bus) http_run" where
  "serve T uuid_Parse auth inps R_version req w = (w, Ok apiVersionHandler)"
| "serve T uuid_Parse auth inps rt req w =
     (case auth req of
        Some resp \<Rightarrow> (w, Ok resp)
      | None \<Rightarrow>
          (case rt of
             R_version \<Rightarrow> (w, Ok apiVersionHandler)
           | R_listRoots \<Rightarrow> listRoots T inps req w
           | R_createRoot \<Rightarrow> createRootDirectory T inps req w
           | R_get i \<Rightarrow> getDirectory T uuid_Parse inps (req\<lparr>req_id := i\<rparr>) w
           | R_create i \<Rightarrow> createDirectory T uuid_Parse inps (req\<lparr>req_id := i\<rparr>) w
           | R_update i \<Rightarrow> updateDirectory T uuid_Parse inps (req\<lparr>req_id := i\<rparr>) w
           | R_delete i \<Rightarrow> deleteDirectory T uuid_Parse inps (req\<lparr>req_id := i\<rparr>) w
           | R_children i \<Rightarrow> listChildren T uuid_Parse inps (req\<lparr>req_id := i\<rparr>) w
           | R_parents i \<Rightarrow> listParents T uuid_Parse inps (req\<lparr>req_id := i\<rparr>) w
           | R_until i u \<Rightarrow> listParentsUntil T uuid_Parse inps (req\<lparr>req_id := i, req_until := u\<rparr>) w))"

definition newHandler :: "('db, 'bus) directory_admin \<Rightarrow> (string \<Rightarrow> uuid option)
    \<Rightarrow> (http_request \<Rightarrow> http_response option) \<Rightarrow> (nat \<Rightarrow> inputs) \<Rightarrow> string \<Rightarrow> string list
    \<Rightarrow> http_request \<Rightarrow> ('db, 'bus) world \<Rightarrow> ('db, 'bus) http_run option" where
  "newHandler T uuid_Parse auth inps meth segs req w =
     map_option (\<lambda>rt. serve T uuid_Parse auth inps rt req w) (find_route meth segs)"

text \<open>The driver that \<open>NewServer\<close> serves.\<close>

definition server_store :: "('db, 'bus) directory_admin \<Rightarrow> 'bus notifier \<Rightarrow> 'bus wrapper
    \<Rightarrow> ('db, 'bus) directory_admin" where
  "server_store storageDriver notif retry =
     StorageWithNotifier storageDriver notif [WithNotifyRetrier retry]"

end
