(* ===== verification/Treemanager_Laws.thy ===== *)
theory Treemanager_Laws
  imports Treemanager
begin

text \<open>
  What the handlers do over any store that keeps the contract \<open>directory_store\<close>: the response
  and the forest after each request, on every branch, and the invariant over any sequence of
  requests. The lemmas are proved once, in the locale.
\<close>

section \<open>Requests\<close>

lemma errors_is_not_found [simp]:
  "errors_is ErrDirectoryNotFound ErrDirectoryNotFound"
  "\<not> errors_is ErrDirectoryNotFound ErrParsingID"
  "errors_is ErrParsingID ErrParsingID"
  by simp_all

lemma ParseDirectoryID_Some: "p s = Some u \<Longrightarrow> ParseDirectoryID p s = Inr (DirectoryID u)"
  and ParseDirectoryID_None: "p s = None \<Longrightarrow> ParseDirectoryID p s = Inl ErrParsingID"
  by (simp_all add: ParseDirectoryID_def)

definition patched :: "update_directory_request \<Rightarrow> directory \<Rightarrow> directory" where
  "patched r d = d\<lparr>Name := (case update_Name r of Some n \<Rightarrow> if n \<noteq> '''' then n else Name d | None \<Rightarrow> Name d),
     Metadata := (case update_Metadata r of Some m \<Rightarrow> Some m | None \<Rightarrow> Metadata d)\<rparr>"

lemma write_ptr_same [simp]: "write_ptr a (heap w a) w = w"
  by (simp add: write_ptr_def)

lemma write_ptr_twice [simp]: "write_ptr a d' (write_ptr a d w) = write_ptr a d' w"
  by (simp add: write_ptr_def)

lemma apply_update_eq:
  "apply_update T inps r (Some a) w =
     handle (UpdateDirectory T (inps 1) (Some a) (write_ptr a (patched r (heap w a)) w))
       (\<lambda>w e. (w, Ok (server_error ''failed to update directory'')))
       (\<lambda>w _. (w, Ok (fetch_response 200 (heap w a))))"
  by (simp add: apply_update_def patched_def assign_def heap_write_ptr split: option.splits)

definition new_directory :: "create_directory_request \<Rightarrow> directory_id option \<Rightarrow> directory" where
  "new_directory r parent =
     zero_directory\<lparr>Name := create_Name r, Metadata := create_Metadata r, Parent := parent\<rparr>"

lemma new_directory_simps [simp]:
  "Parent (new_directory r parent) = parent" "DeletedAt (new_directory r parent) = None"
  by (simp_all add: new_directory_def zero_directory_def)

lemma new_directory_root:
  "zero_directory\<lparr>Name := create_Name r, Metadata := create_Metadata r\<rparr> = new_directory r None"
  by (simp add: new_directory_def zero_directory_def)

section \<open>Sequences of requests\<close>

text \<open>
  The worlds a server reaches: any request, on any route, with identifiers that are not yet in
  use. The clock, the bodies and the answers of the authentication are arbitrary.
\<close>

inductive server_reachable :: "('db, 'bus) directory_admin \<Rightarrow> (('db, 'bus) world \<Rightarrow> forest)
    \<Rightarrow> (inputs \<Rightarrow> bool) \<Rightarrow> (string \<Rightarrow> uuid option) \<Rightarrow> (http_request \<Rightarrow> http_response option)
    \<Rightarrow> ('db, 'bus) world \<Rightarrow> ('db, 'bus) world \<Rightarrow> bool"
  for T view avail uuid_Parse auth w0 where
  start: "server_reachable T view avail uuid_Parse auth w0 w0"
| request: "server_reachable T view avail uuid_Parse auth w0 w \<Longrightarrow>
    (\<And>k. avail (inps k) \<and> view w (in_uuid (inps k)) = None) \<Longrightarrow>
    newHandler T uuid_Parse auth inps meth segs req w = Some (w', r) \<Longrightarrow>
    server_reachable T view avail uuid_Parse auth w0 w'"

section \<open>The handlers over a directory store\<close>

context directory_reader
begin

lemma lookup_cases:
  assumes "inv w" "avail inp"
  obtains w' a d where "GetDirectory T inp i options w = (w', Ok a)" "heap w' a = d"
      "view w i = Some d" "visible (WithDeleted (BuildOptions options)) d" "view w' = view w" "inv w'"
    | w' where "GetDirectory T inp i options w = (w', Err ErrDirectoryNotFound)"
      "\<And>d. view w i = Some d \<Longrightarrow> \<not> visible (WithDeleted (BuildOptions options)) d"
      "view w' = view w" "inv w'"
proof (cases "\<exists>d. view w i = Some d \<and> visible (WithDeleted (BuildOptions options)) d")
  case True
  then obtain d where d: "view w i = Some d" "visible (WithDeleted (BuildOptions options)) d" by blast
  then show ?thesis using get_found [OF assms d] that(1) by blast
next
  case False
  then show ?thesis using get_missing [OF assms, of i options] that(2) by blast
qed

lemma view_id: "inv w \<Longrightarrow> view w i = Some d \<Longrightarrow> DirId d = i"
  using inv_tree tree_ok_id by blast

lemma server_get_found:
  assumes "inv w" "\<And>k. avail (inps k)"
    and "storageOptionsFromGetQuery (req_query req) = Inr options"
    and "uuid_Parse (req_id req) = Some u" "view w (DirectoryID u) = Some d"
    and "visible (WithDeleted (BuildOptions options)) d"
  shows "\<exists>w'. getDirectory T uuid_Parse inps req w = (w', Ok (fetch_response 200 d))
    \<and> view w' = view w \<and> inv w'"
  using get_found [OF assms(1) assms(2) [of 0] assms(5,6)]
  by (auto simp: getDirectory_def getDirectoryFromReference_def assms(3) ParseDirectoryID_Some [of uuid_Parse, OF assms(4)])

lemma server_get_missing:
  assumes "inv w" "\<And>k. avail (inps k)"
    and "storageOptionsFromGetQuery (req_query req) = Inr options"
    and "uuid_Parse (req_id req) = Some u"
    and "\<And>d. view w (DirectoryID u) = Some d \<Longrightarrow> \<not> visible (WithDeleted (BuildOptions options)) d"
  shows "\<exists>w'. getDirectory T uuid_Parse inps req w = (w', Ok (not_found ''directory not found''))
    \<and> view w' = view w \<and> inv w'"
  using get_missing [OF assms(1) assms(2) [of 0], of "DirectoryID u" options] assms(5)
  by (auto simp: getDirectory_def getDirectoryFromReference_def assms(3)
      ParseDirectoryID_Some [of uuid_Parse, OF assms(4)] outputGetDirectoryError_def)

lemma server_children:
  assumes "inv w" "\<And>k. avail (inps k)"
    and opts: "storageOptionsFromGetQuery (req_query req) = Inr options"
    and "uuid_Parse (req_id req) = Some u" "view w (DirectoryID u) = Some d"
    and "visible (WithDeleted (BuildOptions options)) d" "page_in_range (BuildOptions options)"
  shows "\<exists>w' cs. listChildren T uuid_Parse inps req w
      = (w', Ok (list_response req options (page_of (BuildOptions options) cs)))
    \<and> distinct cs \<and> set cs = descendants (view w) (WithDeleted (BuildOptions options)) (DirectoryID u)
    \<and> view w' = view w \<and> inv w'"
proof -
  obtain w' a where get: "GetDirectory T (inps 0) (DirectoryID u) options w = (w', Ok a)"
    "heap w' a = d" "view w' = view w" "inv w'"
    using get_found [OF assms(1,2,5,6)] by blast
  obtain cs where cs: "distinct cs"
    "set cs = descendants (view w') (WithDeleted (BuildOptions options)) (DirectoryID u)"
    "GetChildren T (inps 1) (DirectoryID u) options w' = (w', Ok (page_of (BuildOptions options) cs))"
    using get_children [OF get(4), of "DirectoryID u" d "WithDeleted (BuildOptions options)"]
      assms(2,5,6,7) get(3) by metis
  have "DirId d = DirectoryID u" using view_id [OF assms(1,5)] .
  then have "listChildren T uuid_Parse inps req w
      = (w', Ok (list_response req options (page_of (BuildOptions options) cs)))"
    using get(1,2) cs(3)
    by (simp add: listChildren_def getDirectoryFromReference_def opts ParseDirectoryID_Some [of uuid_Parse, OF assms(4)])
  with cs(1,2) get(3,4) show ?thesis by auto
qed

lemma server_roots:
  assumes "inv w" "\<And>k. avail (inps k)"
    and opts: "storageOptionsFromGetQuery (req_query req) = Inr options"
    and "page_in_range (BuildOptions options)"
  shows "\<exists>rs. listRoots T inps req w
      = (w, Ok (list_response req options (page_of (BuildOptions options) rs)))
    \<and> distinct rs \<and> set rs = roots_of (view w) (WithDeleted (BuildOptions options))"
proof -
  obtain rs where "distinct rs" "set rs = roots_of (view w) (WithDeleted (BuildOptions options))"
    "ListRoots T (inps 0) options w = (w, Ok (page_of (BuildOptions options) rs))"
    using list_roots [OF assms(1), of "WithDeleted (BuildOptions options)"] assms(2,4) by metis
  then show ?thesis by (auto simp: listRoots_def opts)
qed

lemma server_parents:
  assumes "inv w" "\<And>k. avail (inps k)"
    and opts: "storageOptionsFromGetQuery (req_query req) = Inr options"
    and "uuid_Parse (req_id req) = Some u"
    and chain: "parent_chain (view w) (WithDeleted (BuildOptions options)) (DirectoryID u) ps"
    and "page_in_range (BuildOptions options)"
  shows "\<exists>w' qs. listParents T uuid_Parse inps req w
      = (w', Ok (list_response req options (page_of (BuildOptions options) qs)))
    \<and> mset qs = mset ps \<and> view w' = view w \<and> inv w'"
proof -
  obtain d where d: "view w (DirectoryID u) = Some d" "visible (WithDeleted (BuildOptions options)) d"
    using parent_chain_visible [OF chain, of "DirectoryID u"] by auto
  obtain w' a where get: "GetDirectory T (inps 0) (DirectoryID u) options w = (w', Ok a)"
    "heap w' a = d" "view w' = view w" "inv w'"
    using get_found [OF assms(1,2) d] by blast
  obtain qs where qs: "mset qs = mset ps"
    "GetParents T (inps 1) (DirectoryID u) options w' = (w', Ok (page_of (BuildOptions options) qs))"
    using get_parents [OF get(4), of "WithDeleted (BuildOptions options)" "DirectoryID u" ps]
      assms(2,6) chain get(3) by metis
  have "DirId d = DirectoryID u" using view_id [OF assms(1) d(1)] .
  then have "listParents T uuid_Parse inps req w
      = (w', Ok (list_response req options (page_of (BuildOptions options) qs)))"
    using get(1,2) qs(2)
    by (simp add: listParents_def getDirectoryFromReference_def opts ParseDirectoryID_Some [of uuid_Parse, OF assms(4)])
  with qs(1) get(3,4) show ?thesis by auto
qed

end

context directory_store
begin

lemma server_create:
  assumes "inv w" "\<And>k. avail (inps k)"
    and "uuid_Parse (req_id req) = Some u" "req_create req = Inr r"
    and "view w (DirectoryID u) = Some q" "DeletedAt q = None"
    and "view w (in_uuid (inps 1)) = None"
  shows "\<exists>w' d t. createDirectory T uuid_Parse inps req w = (w', Ok (fetch_response 201 d))
    \<and> d = stored_new (inps 1) t (new_directory r (Some (DirectoryID u)))
    \<and> view w' = (view w)(in_uuid (inps 1) \<mapsto> d) \<and> inv w'"
proof -
  obtain w1 a where get: "GetDirectory T (inps 0) (DirectoryID u) [] w = (w1, Ok a)" "heap w1 a = q"
    "view w1 = view w" "inv w1"
    using get_found [OF assms(1) assms(2) [of 0] assms(5), of "[]"] assms(6) by (auto simp: visible_def)
  let ?d = "new_directory r (Some (DirectoryID u))"
  have id: "DirId q = DirectoryID u" using view_id [OF assms(1,5)] .
  have "view w1 (in_uuid (inps 1)) = None" "DirectoryID u \<in> dom (view w1)"
    using assms(5,7) get(3) by auto
  then obtain w' p t where c: "CreateDirectory T (inps 1) (fst (alloc ?d w1)) (snd (alloc ?d w1)) = (w', Ok p)"
    "heap w' p = stored_new (inps 1) t ?d" "inv w'"
    "view w' = (view w1)(in_uuid (inps 1) \<mapsto> stored_new (inps 1) t ?d)"
    using create_directory [OF get(4) assms(2) [of 1], of ?d "DirectoryID u"] by auto
  have "createDirectory T uuid_Parse inps req w = (w', Ok (fetch_response 201 (heap w' p)))"
    using get(1,2) c(1) id
    by (simp add: createDirectory_def ParseDirectoryID_Some [of uuid_Parse, OF assms(3)] assms(4)
        new_directory_def case_prod_beta)
  with c(2-4) get(3) show ?thesis by auto
qed

lemma server_create_no_parent:
  assumes "inv w" "\<And>k. avail (inps k)"
    and "uuid_Parse (req_id req) = Some u" "req_create req = Inr r"
    and "\<And>q. view w (DirectoryID u) = Some q \<Longrightarrow> DeletedAt q \<noteq> None"
  shows "\<exists>w'. createDirectory T uuid_Parse inps req w
      = (w', Ok (bad_request ''parent directory not found'')) \<and> view w' = view w \<and> inv w'"
proof -
  obtain w' where "GetDirectory T (inps 0) (DirectoryID u) [] w = (w', Err ErrDirectoryNotFound)"
    "view w' = view w" "inv w'"
    using get_missing [OF assms(1) assms(2) [of 0], of "DirectoryID u" "[]"] assms(5)
    by (auto simp: visible_def)
  then show ?thesis
    by (simp add: createDirectory_def ParseDirectoryID_Some [of uuid_Parse, OF assms(3)] assms(4))
qed

lemma server_create_root:
  assumes "inv w" "\<And>k. avail (inps k)" "req_create req = Inr r" "view w (in_uuid (inps 0)) = None"
  shows "\<exists>w' d t. createRootDirectory T inps req w = (w', Ok (fetch_response 201 d))
    \<and> d = stored_new (inps 0) t (new_directory r None)
    \<and> view w' = (view w)(in_uuid (inps 0) \<mapsto> d) \<and> inv w'"
proof -
  let ?d = "new_directory r None"
  obtain w' p t where c: "CreateRoot T (inps 0) (fst (alloc ?d w)) (snd (alloc ?d w)) = (w', Ok p)"
    "heap w' p = stored_new (inps 0) t ?d" "inv w'"
    "view w' = (view w)(in_uuid (inps 0) \<mapsto> stored_new (inps 0) t ?d)"
    using create_root [OF assms(1) assms(2) [of 0] assms(4), of ?d] by auto
  have "createRootDirectory T inps req w = (w', Ok (fetch_response 201 (heap w' p)))"
    using c(1) by (simp add: createRootDirectory_def assms(3) new_directory_root case_prod_beta)
  with c(2-4) show ?thesis by auto
qed

lemma server_update:
  assumes "inv w" "\<And>k. avail (inps k)"
    and "uuid_Parse (req_id req) = Some u" "req_update req = Inr r"
    and "view w (DirectoryID u) = Some d" "DeletedAt d = None"
  shows "\<exists>w'. updateDirectory T uuid_Parse inps req w
      = (w', Ok (fetch_response 200 (stored_update (inps 1) (patched r d))))
    \<and> view w' = (view w)(DirectoryID u \<mapsto> stored_update (inps 1) (patched r d)) \<and> inv w'"
proof -
  obtain w1 a where get: "GetDirectory T (inps 0) (DirectoryID u) [] w = (w1, Ok a)" "heap w1 a = d"
    using get_found [OF assms(1) assms(2) [of 0] assms(5), of "[]"] assms(6) by (auto simp: visible_def)
  have "\<exists>n m. patched r d = (heap w1 a)\<lparr>Name := n, Metadata := m\<rparr>"
    unfolding get(2) patched_def by blast
  then obtain w' where c: "UpdateDirectory T (inps 1) (Some a) (write_ptr a (patched r d) w1) = (w', Ok ())"
    "heap w' a = stored_update (inps 1) (patched r d)" "inv w'"
    "view w' = (view w)(DirectoryID u \<mapsto> stored_update (inps 1) (patched r d))"
    using update_directory [OF assms(1) assms(2) assms(2) get(1)] by metis
  have "updateDirectory T uuid_Parse inps req w = (w', Ok (fetch_response 200 (heap w' a)))"
    using get c(1)
    by (simp add: updateDirectory_def ParseDirectoryID_Some [of uuid_Parse, OF assms(3)] assms(4) apply_update_eq)
  with c(2-4) show ?thesis by simp
qed

lemma server_update_missing:
  assumes "inv w" "\<And>k. avail (inps k)"
    and "uuid_Parse (req_id req) = Some u" "req_update req = Inr r"
    and "\<And>d. view w (DirectoryID u) = Some d \<Longrightarrow> DeletedAt d \<noteq> None"
  shows "\<exists>w'. updateDirectory T uuid_Parse inps req w
      = (w', Ok (not_found ''directory not found'')) \<and> view w' = view w \<and> inv w'"
proof -
  obtain w' where "GetDirectory T (inps 0) (DirectoryID u) [] w = (w', Err ErrDirectoryNotFound)"
    "view w' = view w" "inv w'"
    using get_missing [OF assms(1) assms(2) [of 0], of "DirectoryID u" "[]"] assms(5)
    by (auto simp: visible_def)
  then show ?thesis
    by (simp add: updateDirectory_def ParseDirectoryID_Some [of uuid_Parse, OF assms(3)] assms(4))
qed

lemma server_delete:
  assumes "inv w" "\<And>k. avail (inps k)" "uuid_Parse (req_id req) = Some u"
    and "live_child (view w) (DirectoryID u)"
  shows "\<exists>w' ids. deleteDirectory T uuid_Parse inps req w = (w', Ok (Response 200 (ListBody
        \<lparr>list_Links = \<lparr>Next = None\<rparr>, list_Directories = ids, list_Page = 0, list_PageSize = 0,
         list_Version = APIVersion\<rparr>)))
    \<and> distinct ids \<and> DirectoryID u \<in> set ids \<and> set ids \<subseteq> subtree (view w) (DirectoryID u)
    \<and> (card (descendants (view w) False (DirectoryID u)) \<le> 10 \<longrightarrow>
        set ids = subtree (view w) (DirectoryID u))
    \<and> view w' = mark_deleted (set ids) (in_time1 (inps 0)) (view w) \<and> inv w'"
proof -
  obtain w' ps I where c: "DeleteDirectory T (inps 0) (DirectoryID u) w = (w', Ok ps)" "inv w'"
    "distinct (map (\<lambda>a. DirId (heap w' a)) ps)" "set (map (\<lambda>a. DirId (heap w' a)) ps) = I"
    "DirectoryID u \<in> I" "I \<subseteq> subtree (view w) (DirectoryID u)"
    "card (descendants (view w) False (DirectoryID u)) \<le> 10 \<longrightarrow> I = subtree (view w) (DirectoryID u)"
    "view w' = mark_deleted I (in_time1 (inps 0)) (view w)"
    using delete_directory [OF assms(1) assms(2) assms(4)] by metis
  show ?thesis
    by (intro exI [of _ w'] exI [of _ "map (\<lambda>a. DirId (heap w' a)) ps"] conjI)
      (use c in \<open>simp_all add: deleteDirectory_def ParseDirectoryID_Some [of uuid_Parse, OF assms(3)]\<close>)
qed

lemma server_delete_missing:
  assumes "inv w" "\<And>k. avail (inps k)" "uuid_Parse (req_id req) = Some u"
    and "\<not> live_child (view w) (DirectoryID u)"
  shows "\<exists>w'. deleteDirectory T uuid_Parse inps req w
      = (w', Ok (not_found ''directory not found'')) \<and> view w' = view w \<and> inv w'"
  using delete_missing [OF assms(1) assms(2) [of 0] assms(4)]
  by (auto simp: deleteDirectory_def ParseDirectoryID_Some [of uuid_Parse, OF assms(3)])

end

section \<open>The invariant over requests\<close>

context directory_store
begin

lemma reference_keeps:
  assumes "inv w" "avail inp"
    and "getDirectoryFromReference T uuid_Parse inp s options w = (w', r)"
  shows "inv w' \<and> view w' = view w \<and> (\<exists>a e. r = Ok a \<or> r = Err e)"
proof (cases "ParseDirectoryID uuid_Parse s")
  case (Inl e)
  with assms show ?thesis by (auto simp: getDirectoryFromReference_def)
next
  case (Inr i)
  show ?thesis
    by (rule lookup_cases [OF assms(1,2), of i options])
      (use assms(3) Inr in \<open>auto simp: getDirectoryFromReference_def\<close>)
qed

lemma createDirectory_inv:
  assumes "inv w" "\<And>k. avail (inps k)" "view w (in_uuid (inps 1)) = None"
  shows "inv (fst (createDirectory T uuid_Parse inps req w))"
proof (cases "uuid_Parse (req_id req)")
  case None
  with assms(1) show ?thesis by (simp add: createDirectory_def ParseDirectoryID_None)
next
  case (Some u)
  note id = ParseDirectoryID_Some [of uuid_Parse, OF Some]
  show ?thesis
  proof (cases "req_create req")
    case (Inl e)
    with assms(1) id show ?thesis by (simp add: createDirectory_def)
  next
    case (Inr r)
    show ?thesis
    proof (cases "\<exists>q. view w (DirectoryID u) = Some q \<and> DeletedAt q = None")
      case True
      then show ?thesis using server_create [where uuid_Parse = uuid_Parse and req = req and inps = inps, OF assms(1,2) Some Inr _ _ assms(3)]
        by auto
    next
      case False
      then show ?thesis using server_create_no_parent [where uuid_Parse = uuid_Parse and req = req and inps = inps, OF assms(1,2) Some Inr]
        by auto
    qed
  qed
qed

lemma updateDirectory_inv:
  assumes "inv w" "\<And>k. avail (inps k)"
  shows "inv (fst (updateDirectory T uuid_Parse inps req w))"
proof (cases "uuid_Parse (req_id req)")
  case None
  with assms(1) show ?thesis by (simp add: updateDirectory_def ParseDirectoryID_None)
next
  case (Some u)
  note id = ParseDirectoryID_Some [of uuid_Parse, OF Some]
  show ?thesis
  proof (cases "req_update req")
    case (Inl e)
    with assms(1) id show ?thesis by (simp add: updateDirectory_def)
  next
    case (Inr r)
    show ?thesis
    proof (cases "\<exists>d. view w (DirectoryID u) = Some d \<and> DeletedAt d = None")
      case True
      then show ?thesis using server_update [where uuid_Parse = uuid_Parse and req = req and inps = inps, OF assms(1,2) Some Inr]
        by auto
    next
      case False
      then show ?thesis using server_update_missing [where uuid_Parse = uuid_Parse and req = req and inps = inps, OF assms(1,2) Some Inr]
        by auto
    qed
  qed
qed

lemma deleteDirectory_inv:
  assumes "inv w" "\<And>k. avail (inps k)"
  shows "inv (fst (deleteDirectory T uuid_Parse inps req w))"
proof (cases "uuid_Parse (req_id req)")
  case None
  with assms(1) show ?thesis by (simp add: deleteDirectory_def ParseDirectoryID_None)
next
  case (Some u)
  then show ?thesis
    using server_delete [where uuid_Parse = uuid_Parse and req = req and inps = inps, OF assms Some] 
      server_delete_missing [where uuid_Parse = uuid_Parse and req = req and inps = inps, OF assms Some]
    by (cases "live_child (view w) (DirectoryID u)") auto
qed

lemma createRootDirectory_inv:
  assumes "inv w" "\<And>k. avail (inps k)" "view w (in_uuid (inps 0)) = None"
  shows "inv (fst (createRootDirectory T inps req w))"
proof (cases "req_create req")
  case (Inl e)
  with assms(1) show ?thesis by (simp add: createRootDirectory_def)
next
  case (Inr r)
  then show ?thesis using server_create_root [where req = req and inps = inps, OF assms(1,2) Inr assms(3)] by auto
qed

lemma listing_inv:
  assumes "inv w'" "\<And>w'' s. run w' = (w'', s) \<Longrightarrow> inv w''"
  shows "inv (fst (handle (run w') (\<lambda>w e. (w, Ok (resp e))) (\<lambda>w xs. (w, Ok (good w xs)))))"
  using assms by (cases "run w'"; cases "snd (run w')") auto

lemma reads_inv:
  assumes "inv w" "\<And>k. avail (inps k)"
  shows "inv (fst (listRoots T inps req w))"
    and "inv (fst (getDirectory T uuid_Parse inps req w))"
    and "inv (fst (listChildren T uuid_Parse inps req w))"
    and "inv (fst (listParents T uuid_Parse inps req w))"
    and "inv (fst (listParentsUntil T uuid_Parse inps req w))"
proof -
  show "inv (fst (listRoots T inps req w))"
    using assms
    by (cases "storageOptionsFromGetQuery (req_query req)") (auto simp: listRoots_def intro!: listing_inv intro: keep_roots [THEN conjunct1])
  have ref: "inv (fst (handle (getDirectoryFromReference T uuid_Parse inp s options w)
      (\<lambda>w e. (w, Ok (outputGetDirectoryError e))) f))"
    if "\<And>w' a. inv w' \<Longrightarrow> inv (fst (f w' a))" "inv w" "avail inp" for inp s options f w
    using reference_keeps [OF that(2,3), of uuid_Parse s options] that(1)
    by (cases "getDirectoryFromReference T uuid_Parse inp s options w") fastforce
  show "inv (fst (getDirectory T uuid_Parse inps req w))"
    using assms by (cases "storageOptionsFromGetQuery (req_query req)") (auto simp: getDirectory_def intro!: ref)
  show "inv (fst (listChildren T uuid_Parse inps req w))"
    using assms
    by (cases "storageOptionsFromGetQuery (req_query req)")
      (auto simp: listChildren_def intro!: ref listing_inv intro: keep_children [THEN conjunct1])
  show "inv (fst (listParents T uuid_Parse inps req w))"
    using assms
    by (cases "storageOptionsFromGetQuery (req_query req)")
      (auto simp: listParents_def intro!: ref listing_inv intro: keep_parents [THEN conjunct1])
  show "inv (fst (listParentsUntil T uuid_Parse inps req w))"
    using assms
    by (cases "storageOptionsFromGetQuery (req_query req)")
      (auto simp: listParentsUntil_def intro!: ref listing_inv intro: keep_until [THEN conjunct1])
qed

lemma serve_inv:
  assumes "inv w" "\<And>k. avail (inps k)" "\<And>k. view w (in_uuid (inps k)) = None"
  shows "inv (fst (serve T uuid_Parse auth inps rt req w))"
  using assms
  by (cases rt; cases "auth req")
    (simp_all add: reads_inv createDirectory_inv updateDirectory_inv deleteDirectory_inv createRootDirectory_inv)

lemma reachable_inv:
  assumes "server_reachable T view avail uuid_Parse auth w0 w" "inv w0"
  shows "inv w"
  using assms(1)
proof (induction rule: server_reachable.induct)
  case start
  show ?case by (rule assms(2))
next
  case (request w inps meth segs req w' r)
  have free: "\<And>k. avail (inps k)" "\<And>k. view w (in_uuid (inps k)) = None" using request(2) by blast+
  obtain rt where "serve T uuid_Parse auth inps rt req w = (w', r)"
    using request(3) by (auto simp: newHandler_def)
  with serve_inv [where inps = inps, OF request(4) free, where uuid_Parse = uuid_Parse and auth = auth
      and rt = rt and req = req] show ?case by simp
qed

end

section \<open>The link to the next page\<close>

lemma lookup_URLValues:
  assumes "0 < sint page"
  shows "map_of (storageOptionsToURLValues opts page) ''page'' = Some (Itoa page)"
    and "map_of (storageOptionsToURLValues opts page) ''limit'' = Some (Itoa (GetPageSize opts))"
    and "map_of (storageOptionsToURLValues opts page) ''with_deleted''
      = (if WithDeleted opts then Some ''true'' else None)"
  using assms GetPage_pos [of opts]
  by (simp_all add: storageOptionsToURLValues_def Let_def)

lemma positive_query_Itoa: "positive_query (Some (Itoa n)) = Inr (if 0 < sint n then n else 0)"
  by (simp add: positive_query_def Atoi_Itoa)

lemma options_of_next_link:
  assumes "0 < sint page"
  shows "\<exists>options. storageOptionsFromGetQuery (map_of (storageOptionsToURLValues opts page)) = Inr options
    \<and> BuildOptions options = \<lparr>WithDeleted = WithDeleted opts, Page = page, PageSize = GetPageSize opts\<rparr>"
proof -
  have "0 < sint (GetPageSize opts)" using GetPageSize_pos [of opts] by simp
  with assms show ?thesis
    by (simp add: storageOptionsFromGetQuery_def lookup_URLValues [OF assms] positive_query_Itoa
        BuildOptions_def WithDeletedDirectories_def Pagination_def new_options_def)
qed

lemma Next_iff_full:
  "Next (pagination_Links (paginationResponse req cnt options)) \<noteq> None
    \<longleftrightarrow> int cnt = sint (GetPageSize (BuildOptions options))"
  by (simp add: paginationResponse_def Let_def)

section \<open>A failed notification\<close>

context notified_store
begin

lemma server_create_notify_failed:
  assumes "inv w" "\<And>k. avail (inps k)"
    and "uuid_Parse (req_id req) = Some u" "req_create req = Inr r"
    and "view w (DirectoryID u) = Some q" "DeletedAt q = None"
    and "view w (in_uuid (inps 1)) = None"
    and fails: "\<And>d b. \<exists>b' e. wrap (notify_handler (NotifyCreate N) (Some d)) b = (b', Err e)"
  shows "\<exists>w' d. createDirectory (notifying T N wrap) uuid_Parse inps req w
      = (w', Ok (server_error ''internal server error''))
    \<and> view w' = (view w)(in_uuid (inps 1) \<mapsto> d) \<and> inv w'
    \<and> Name d = create_Name r \<and> Parent d = Some (DirectoryID u)"
proof -
  obtain w1 a where get: "GetDirectory T (inps 0) (DirectoryID u) [] w = (w1, Ok a)" "heap w1 a = q"
    "view w1 = view w" "inv w1"
    using get_found [OF assms(1) assms(2) [of 0] assms(5), of "[]"] assms(6) by (auto simp: visible_def)
  let ?d = "new_directory r (Some (DirectoryID u))"
  have id: "DirId q = DirectoryID u" using view_id [OF assms(1,5)] .
  have "view w1 (in_uuid (inps 1)) = None" "DirectoryID u \<in> dom (view w1)"
    using assms(5,7) get(3) by auto
  then obtain w' p t where c: "CreateDirectory T (inps 1) (fst (alloc ?d w1)) (snd (alloc ?d w1)) = (w', Ok p)"
    "heap w' p = stored_new (inps 1) t ?d" "inv w'"
    "view w' = (view w1)(in_uuid (inps 1) \<mapsto> stored_new (inps 1) t ?d)"
    using create_directory [OF get(4) assms(2) [of 1], of ?d "DirectoryID u"] by auto
  obtain b e where "wrap (notify_handler (NotifyCreate N) (Some (heap w' p))) (bus w') = (b, Err e)"
    using fails by blast
  from notifying_create [where N = N and wrap = wrap, OF c(1) this]
  have "createDirectory (notifying T N wrap) uuid_Parse inps req w
      = (w'\<lparr>bus := b\<rparr>, Ok (server_error ''internal server error''))"
    using get(1,2) id
    by (simp add: createDirectory_def ParseDirectoryID_Some [of uuid_Parse, OF assms(3)] assms(4)
        new_directory_def case_prod_beta)
  with c(3,4) get(3) show ?thesis
    by (intro exI [of _ "w'\<lparr>bus := b\<rparr>"] exI [of _ "stored_new (inps 1) t ?d"])
      (simp add: inv_bus view_bus, simp add: stored_new_def default_metadata_def new_directory_def)
qed

end

end
