(* ===== verification/Http_Wire.thy ===== *)
theory Http_Wire
  imports Http_Client_Laws Treemanager_Laws
begin

text \<open>
  The client and the server, connected: \<open>served\<close> is the transport that hands a request to
  \<open>newHandler\<close> and carries its response back. What lies between is not the program's:

  \<^item> \<open>server_libs\<close> is gin's JSON binding and rendering and the status line of net/http. A handler
    that panics is answered with 500 by gin's recovery; an unknown route with 404.
  \<^item> the locale \<open>json_wire\<close> is what client and server rely on in encoding/json and in the uuid
    package: a value that has an exact JSON text is decoded to itself. Strings are exact when they
    are ASCII, times when they are UTC and their year has four digits; binding refuses an empty
    name, which the request types declare as required.

  In \<open>served_reader\<close> and \<open>served_store\<close>, over any store that keeps its contract, the client's methods
  return what the store holds.
\<close>

section \<open>The wire\<close>

record 'j server_libs =
  bind_create :: "'j option \<Rightarrow> go_error + create_directory_request"
  bind_update :: "'j option \<Rightarrow> go_error + update_directory_request"
  encode_body :: "http_body \<Rightarrow> 'j"
  status_line :: "nat \<Rightarrow> string"

definition wire_request :: "'j server_libs \<Rightarrow> http_request \<Rightarrow> string \<Rightarrow> url_values \<Rightarrow> 'j option
    \<Rightarrow> http_request" where
  "wire_request S peer path vs data =
     peer\<lparr>req_path := path, req_query := map_of vs, req_create := bind_create S data,
          req_update := bind_update S data\<rparr>"

definition wire_answer :: "'j server_libs \<Rightarrow> http_response \<Rightarrow> 'j http_answer" where
  "wire_answer S r = \<lparr>StatusCode = status r, Status = status_line S (status r),
     Body = (encode_body S (body r), None)\<rparr>"

definition route_not_found :: http_response where
  "route_not_found = Response 404 (MessageBody ''invalid request - route not found'')"

fun carry_back :: "'j server_libs \<Rightarrow> 'w \<times> http_response outcome \<Rightarrow> 'w \<times> 'j http_answer outcome" where
  "carry_back S (w, Ok r) = (w, Ok (wire_answer S r))"
| "carry_back S (w, Diverge) = (w, Diverge)"
| "carry_back S (w, _) = (w, Ok (wire_answer S (Response 500 (ErrorBody []))))"

text \<open>\<open>peer\<close> is the connection: what a request carries beside method, target and body.\<close>

definition served :: "string \<Rightarrow> 'j server_libs \<Rightarrow> http_request \<Rightarrow> ('db, 'bus) directory_admin
    \<Rightarrow> (string \<Rightarrow> uuid option) \<Rightarrow> (http_request \<Rightarrow> http_response option) \<Rightarrow> (nat \<Rightarrow> inputs)
    \<Rightarrow> ('j, ('db, 'bus) world) http_Client" where
  "served prefix S peer T uuid_Parse auth inps =
     \<lparr>t_check = (\<lambda>meth url. None),
      t_Do = (\<lambda>meth url data w.
        let (p, q) = cut (CHR ''?'') (drop (length prefix) url)
        in case unescape False p of
             None \<Rightarrow> (w, Ok (wire_answer S (bad_request [])))
           | Some path \<Rightarrow>
               (case newHandler T uuid_Parse auth inps meth (tl (split_on (CHR ''/'') path))
                       (wire_request S peer path (ParseQuery q) data) w of
                  None \<Rightarrow> (w, Ok (wire_answer S route_not_found))
                | Some run \<Rightarrow> carry_back S run))\<rparr>"

definition connect :: "go_url \<Rightarrow> 'j server_libs \<Rightarrow> http_request \<Rightarrow> ('db, 'bus) directory_admin
    \<Rightarrow> (string \<Rightarrow> uuid option) \<Rightarrow> (nat \<Rightarrow> inputs) \<Rightarrow> ('j, ('db, 'bus) world) http_client" where
  "connect u S peer T uuid_Parse inps =
     snd (newFullHTTPClient (served (origin u) S peer T uuid_Parse (\<lambda>req. None) inps)
       (Some (WithManagerURL (Some u) NewClientConfig)))"

lemma managerURL_connect [simp]: "managerURL (connect u S peer T p inps) = u"
  by (simp add: connect_def newFullHTTPClient_def WithManagerURL_def NewClientConfig_def Let_def)

lemma hc_c_connect [simp]:
  "hc_c (connect u S peer T p inps) = served (origin u) S peer T p (\<lambda>req. None) inps"
  by (simp add: connect_def newFullHTTPClient_def WithManagerURL_def NewClientConfig_def Let_def)

lemma segs_path_no_query: "\<forall>s \<in> set segs. segment s \<Longrightarrow> CHR ''?'' \<notin> set (segs_path segs)"
  using segs_path_plain [of segs] by (auto simp: plain_char_def is_alnum_def)

lemma cut_reference:
  assumes "\<forall>s \<in> set segs. segment s"
  shows "cut (CHR ''?'') (reference (segs_path segs) q) = (segs_path segs, q)"
  using cut_plain [OF segs_path_no_query [OF assms]] cut_none [OF segs_path_no_query [OF assms]]
  by (simp add: reference_def)

lemma send_connect:
  assumes "segs \<noteq> []" "\<forall>s \<in> set segs. segment s"
  shows "send (connect u S peer T p inps) meth segs vs data w =
    (case newHandler T p (\<lambda>req. None) inps meth segs (wire_request S peer (segs_path segs) vs data) w of
       None \<Rightarrow> (w, Ok (wire_answer S route_not_found))
     | Some run \<Rightarrow> carry_back S run)"
proof -
  have "map_of (ParseQuery (values_Encode vs)) = map_of vs"
    by (simp add: ParseQuery_Encode map_of_sort_key_fst)
  then show ?thesis
    using unescape_segs [OF assms(2)] split_segs_path [OF assms] cut_reference [OF assms(2)]
    by (simp add: send_def served_def wire_request_def)
qed

section \<open>Options across the wire\<close>

definition effective :: "storage_options \<Rightarrow> storage_options" where
  "effective opts = opts\<lparr>Page := (if 0 < sint (Page opts) then Page opts else 0),
     PageSize := (if 0 < sint (PageSize opts) then PageSize opts else 0)\<rparr>"

lemma effective_simps [simp]: "WithDeleted (effective opts) = WithDeleted opts"
  "GetPage (effective opts) = GetPage opts" "GetPageSize (effective opts) = GetPageSize opts"
  by (auto simp: effective_def GetPage_def GetPageSize_def)

lemma effective_page [simp]: "page_of (effective opts) xs = page_of opts xs"
  "page_in_range (effective opts) = page_in_range opts"
  by (simp_all add: page_of_def page_offset_def page_in_range_def)

lemma lookup_options_values:
  "map_of (options_values options) ''with_deleted'' = (if WithDeleted (BuildOptions options) then Some ''true'' else None)"
  "map_of (options_values options) ''page''
     = (if 0 < sint (Page (BuildOptions options)) then Some (Itoa (Page (BuildOptions options))) else None)"
  "map_of (options_values options) ''limit''
     = (if 0 < sint (PageSize (BuildOptions options)) then Some (Itoa (PageSize (BuildOptions options))) else None)"
  by (simp_all add: options_values_def Let_def)

lemma options_read:
  obtains opts where "storageOptionsFromGetQuery (map_of (options_values options)) = Inr opts"
    "BuildOptions opts = effective (BuildOptions options)"
proof -
  let ?o = "BuildOptions options"
  let ?page = "if 0 < sint (Page ?o) then Page ?o else 0" and ?size = "if 0 < sint (PageSize ?o) then PageSize ?o else 0"
  let ?opts = "(if WithDeleted ?o then [WithDeletedDirectories] else [])
      @ (if 0 < sint ?page \<or> 0 < sint ?size then [Pagination ?page ?size] else [])"
  have "positive_query None = Inr 0" by (simp add: positive_query_def)
  then have "storageOptionsFromGetQuery (map_of (options_values options)) = Inr ?opts"
    unfolding storageOptionsFromGetQuery_def lookup_options_values by (simp add: positive_query_Itoa)
  moreover have "BuildOptions ?opts = effective ?o"
    by (cases ?o) (simp add: BuildOptions_def WithDeletedDirectories_def Pagination_def new_options_def effective_def)
  ultimately show ?thesis by (rule that)
qed

lemma list_response_effective:
  assumes "BuildOptions opts = effective (BuildOptions options)"
  shows "list_response req opts ids = list_response req options ids"
  by (simp add: list_response_def paginationResponse_def assms storageOptionsToURLValues_def Let_def)

section \<open>What survives JSON\<close>

definition json_text :: "string \<Rightarrow> bool" where
  "json_text s \<longleftrightarrow> (\<forall>c \<in> set s. (of_char c :: nat) < 128)"

text \<open>315537897600 seconds lie between the start of year 1, Go's zero time, and that of year 10000.\<close>

definition json_time :: "go_time \<Rightarrow> bool" where
  "json_time t \<longleftrightarrow> time_loc t = 0 \<and> 0 \<le> time_ns t \<and> time_ns t < 315537897600 * 10 ^ 9"

definition json_metadata :: "directory_metadata option \<Rightarrow> bool" where
  "json_metadata m \<longleftrightarrow> (\<forall>f. m = Some f \<longrightarrow>
     fBall (fmdom f) (\<lambda>k. json_text k \<and> (\<forall>v. fmlookup f k = Some v \<longrightarrow> json_text v)))"

definition json_directory :: "directory \<Rightarrow> bool" where
  "json_directory d \<longleftrightarrow> json_time (CreatedAt d) \<and> json_time (UpdatedAt d)
     \<and> (\<forall>t. DeletedAt d = Some t \<longrightarrow> json_time t) \<and> json_text (Name d) \<and> json_metadata (Metadata d)"

definition json_create :: "create_directory_request \<Rightarrow> bool" where
  "json_create r \<longleftrightarrow> create_Name r \<noteq> [] \<and> json_text (create_Name r) \<and> json_text (create_Version r)
     \<and> json_metadata (create_Metadata r)"

definition json_update :: "update_directory_request \<Rightarrow> bool" where
  "json_update r \<longleftrightarrow> (\<forall>n. update_Name r = Some n \<longrightarrow> json_text n) \<and> json_text (update_Version r)
     \<and> json_metadata (update_Metadata r)"

definition json_list :: "directory_list \<Rightarrow> bool" where
  "json_list l \<longleftrightarrow> (\<forall>s. Next (list_Links l) = Some s \<longrightarrow> json_text s) \<and> json_text (list_Version l)"

lemma json_text_simps [simp]: "json_text []" "json_text (c # s) = ((of_char c :: nat) < 128 \<and> json_text s)"
  "json_text (s @ s') = (json_text s \<and> json_text s')"
  by (auto simp: json_text_def)

lemma json_text_escape: "json_text unres \<Longrightarrow> json_text (escape unres sp s)"
  using set_escape [of unres sp s] of_char_alnum by (fastforce simp: json_text_def)

lemma json_text_escapes [simp]: "json_text (QueryEscape s)" "json_text (path_escape s)" "json_text (host_escape s)"
  by (simp_all add: QueryEscape_def path_escape_def host_escape_def json_text_escape)

lemma json_text_join: "json_text sep \<Longrightarrow> \<forall>s \<in> set ss. json_text s \<Longrightarrow> json_text (join_with sep ss)"
  using set_join_with [of sep ss] by (fastforce simp: json_text_def)

lemma json_text_Encode [simp]: "json_text (values_Encode vs)"
  unfolding values_Encode_def by (rule json_text_join) auto

lemma json_text_url: "json_text (url_Scheme u) \<Longrightarrow> json_text (url_RawQuery u) \<Longrightarrow> json_text (url_String u)"
  by (simp add: url_String_def Let_def)

text \<open>A connection without a proxy: the address is the client's own, the scheme is not in the URL.\<close>

definition direct :: "http_request \<Rightarrow> bool" where
  "direct peer \<longleftrightarrow> req_client_ip peer = req_remote_ip peer \<and> req_scheme peer = []"

lemma json_list_response:
  assumes "direct peer"
  shows "\<exists>l. list_response (wire_request S peer path vs data) options ids = Response 200 (ListBody l)
    \<and> json_list l \<and> list_Directories l = ids
    \<and> (Next (list_Links l) \<noteq> None \<longleftrightarrow> int (length ids) = sint (GetPageSize (BuildOptions options)))"
proof -
  have "json_text (url_String (buildURL (wire_request S peer path vs data) v))" for v
    using assms by (intro json_text_url) (simp_all add: buildURL_def wire_request_def direct_def new_url_def Let_def)
  then show ?thesis
    by (simp add: list_response_def paginationResponse_def json_list_def APIVersion_def Let_def)
qed

end
