(* ===== verification/Sql_Engine.thy ===== *)
theory Sql_Engine
  imports Storage
begin

text \<open>
  What the statements of the CockroachDB driver mean, and the cursor of \<open>database/sql\<close>.

  \<^item> \<open>recursive_query\<close>: \<open>WITH RECURSIVE q AS (base UNION step) SELECT ... FROM q\<close>. The rows of the
    base are the first working table; as long as the working table is not empty, the step is
    evaluated on it, rows already produced are dropped (\<open>UNION\<close>, not \<open>UNION ALL\<close>), and the
    remaining ones become the next working table. The query is a partial function, since
    nothing in its text bounds the iterations; \<open>recursive_query_returns\<close> shows that it
    returns whenever the step draws its rows from a finite set.
  \<^item> \<open>sql_engine\<close>: what SQL leaves open and the driver cannot see, the order in which a table
    is scanned (\<open>scan_rows\<close>) and the order in which a query without \<open>ORDER BY\<close> delivers its
    rows (\<open>emit_ids\<close>).
  \<^item> \<open>rows_loop\<close>: the idiom \<open>for rows.Next() { rows.Scan(...) }\<close>. The cursor may stop early with
    an error that only \<open>rows.Err()\<close> tells; the idiom does not ask.
  \<^item> \<open>query_row\<close>: \<open>QueryRowContext(...).Scan(...)\<close>.
\<close>

section \<open>Recursive queries\<close>

fun new_rows :: "'r list \<Rightarrow> 'r list \<Rightarrow> 'r list" where
  "new_rows seen [] = []"
| "new_rows seen (r # rs) =
     (if r \<in> set seen then new_rows seen rs else r # new_rows (r # seen) rs)"

partial_function (option) recursive_loop ::
    "('r list \<Rightarrow> 'r list) \<Rightarrow> 'r list \<Rightarrow> 'r list \<Rightarrow> 'r list option" where
  "recursive_loop step working result =
     (if working = [] then Some result
      else let rs = new_rows result (step working)
           in recursive_loop step rs (result @ rs))"

definition recursive_query :: "('r list \<Rightarrow> 'r list) \<Rightarrow> 'r list \<Rightarrow> 'r list option" where
  "recursive_query step base = recursive_loop step (new_rows [] base) (new_rows [] base)"

lemma set_new_rows [simp]: "set (new_rows seen rs) = set rs - set seen"
  by (induction rs arbitrary: seen) auto

lemma distinct_new_rows [simp]: "distinct (new_rows seen rs)"
  by (induction rs arbitrary: seen) auto

lemma new_rows_fresh: "distinct rs \<Longrightarrow> set rs \<inter> set seen = {} \<Longrightarrow> new_rows seen rs = rs"
  by (induction rs arbitrary: seen) auto

lemma recursive_loop_Nil [simp]: "recursive_loop step [] result = Some result"
  by (subst recursive_loop.simps) simp

text \<open>
  The loop computes the closure: \<open>succ r\<close> are the rows that the step derives from \<open>r\<close>.
\<close>

definition derives :: "('r \<Rightarrow> 'r set) \<Rightarrow> 'r set \<Rightarrow> 'r set" where
  "derives succ A = {r. \<exists>a \<in> A. (\<lambda>x y. y \<in> succ x)\<^sup>*\<^sup>* a r}"

lemma derives_incl: "A \<subseteq> derives succ A"
  by (auto simp: derives_def)

lemma derives_step: "r \<in> derives succ A \<Longrightarrow> r' \<in> succ r \<Longrightarrow> r' \<in> derives succ A"
  unfolding derives_def by (blast intro: rtranclp.rtrancl_into_rtrancl)

lemma derives_least:
  assumes "A \<subseteq> S" "\<And>r r'. r \<in> S \<Longrightarrow> r' \<in> succ r \<Longrightarrow> r' \<in> S"
  shows "derives succ A \<subseteq> S"
proof
  fix r assume "r \<in> derives succ A"
  then obtain a where "a \<in> A" "(\<lambda>x y. y \<in> succ x)\<^sup>*\<^sup>* a r" by (auto simp: derives_def)
  from this(2,1) assms show "r \<in> S" by (induction rule: rtranclp_induct) auto
qed

lemma recursive_loop_returns:
  fixes step :: "'r list \<Rightarrow> 'r list"
  assumes step: "\<And>ws. set (step ws) = (\<Union>w \<in> set ws. succ w)"
    and U: "finite U" "\<And>r. succ r \<subseteq> U"
    and inv: "set working \<subseteq> set result" "distinct result" "set result \<subseteq> U"
      "A \<subseteq> set result" "set result \<subseteq> derives succ A"
      "\<And>r. r \<in> set result - set working \<Longrightarrow> succ r \<subseteq> set result"
  shows "\<exists>rest. recursive_loop step working result = Some (result @ rest)
    \<and> distinct (result @ rest) \<and> set (result @ rest) = derives succ A"
  using inv
proof (induction "card (U - set result)" arbitrary: working result rule: less_induct)
  case less
  show ?case
  proof (cases "working = []")
    case True
    with less.prems(6) have "succ r \<subseteq> set result" if "r \<in> set result" for r using that by auto
    then have "derives succ A \<subseteq> set result" using less.prems(4) by (intro derives_least) auto
    with True less.prems(2,5) show ?thesis by (intro exI [of _ "[]"]) auto
  next
    case False
    let ?new = "new_rows result (step working)"
    have loop: "recursive_loop step working result = recursive_loop step ?new (result @ ?new)"
      using False by (subst recursive_loop.simps) (simp add: Let_def)
    show ?thesis
    proof (cases "?new = []")
      case True
      then have "succ r \<subseteq> set result" if "r \<in> set result" for r
        using that less.prems(6) [of r] step [of working] set_new_rows [of result "step working"]
        by (cases "r \<in> set working") auto
      then have "derives succ A \<subseteq> set result" using less.prems(4) by (intro derives_least) auto
      with True loop less.prems(2,5) show ?thesis by (intro exI [of _ "[]"]) auto
    next
      case new: False
      have sub: "set ?new \<subseteq> U - set result" using step U(2) by auto
      moreover obtain r where "r \<in> set ?new" using new by (meson list.set_sel(1))
      ultimately have "U - set (result @ ?new) \<subset> U - set result" by auto
      then have card: "card (U - set (result @ ?new)) < card (U - set result)"
        using U(1) by (intro psubset_card_mono) simp_all
      have "set ?new \<subseteq> derives succ A"
        using step [of working] less.prems(1,5) derives_step by fastforce
      with less.prems(5) have sound: "set (result @ ?new) \<subseteq> derives succ A" unfolding set_append by (rule Un_least)
      have closed: "succ r \<subseteq> set (result @ ?new)" if "r \<in> set (result @ ?new) - set ?new" for r
        using that less.prems(6) [of r] step [of working] by (cases "r \<in> set working") auto
      have "distinct (result @ ?new)" "set (result @ ?new) \<subseteq> U" "A \<subseteq> set (result @ ?new)"
        using less.prems(2-4) sub by auto
      moreover have "set ?new \<subseteq> set (result @ ?new)" by auto
      ultimately obtain rest where
        "recursive_loop step ?new (result @ ?new) = Some ((result @ ?new) @ rest)"
        "distinct ((result @ ?new) @ rest)" "set ((result @ ?new) @ rest) = derives succ A"
        using less.hyps [OF card _ _ _ _ sound closed] by metis
      with loop show ?thesis by (intro exI [of _ "?new @ rest"]) simp
    qed
  qed
qed

text \<open>A recursive query over a finite table returns, whatever the table holds, cycles included.\<close>

lemma recursive_query_returns:
  assumes "\<And>ws. set (step ws) = (\<Union>w \<in> set ws. succ w)" "finite U" "\<And>r. succ r \<subseteq> U"
  shows "\<exists>rest. recursive_query step base = Some (new_rows [] base @ rest)
    \<and> distinct (new_rows [] base @ rest) \<and> set (new_rows [] base @ rest) = derives succ (set base)"
  unfolding recursive_query_def
  by (rule recursive_loop_returns [where U = "U \<union> set base" and succ = succ, OF assms(1)])
    (use assms(2,3) derives_incl [of "set base" succ] in auto)

section \<open>The engine and the cursor\<close>

record sql_engine =
  scan_rows :: "directory list \<Rightarrow> directory list"
  emit_ids :: "directory_id list \<Rightarrow> directory_id list"

fun rows_loop :: "(nat \<Rightarrow> row_step) \<Rightarrow> nat \<Rightarrow> 'r list \<Rightarrow> 'r list \<Rightarrow> go_error + 'r list" where
  "rows_loop st k [] acc = Inr acc"
| "rows_loop st k (r # rs) acc =
     (case st k of
        RowOk \<Rightarrow> rows_loop st (Suc k) rs (acc @ [r])
      | RowScanErr e \<Rightarrow> Inl e
      | RowStop e \<Rightarrow> Inr acc)"

definition query_row :: "inputs \<Rightarrow> 'r list \<Rightarrow> go_error + 'r" where
  "query_row inp rows =
     (case in_fault inp of
        Some e \<Rightarrow> Inl e
      | None \<Rightarrow>
          (case rows of
             [] \<Rightarrow> Inl ErrNoRows
           | r # _ \<Rightarrow> (case in_row inp 0 of RowOk \<Rightarrow> Inr r | RowScanErr e \<Rightarrow> Inl e | RowStop e \<Rightarrow> Inl e)))"

definition rows_ok :: "inputs \<Rightarrow> bool" where
  "rows_ok inp \<longleftrightarrow> in_row inp = (\<lambda>_. RowOk)"

definition sql_avail :: "inputs \<Rightarrow> bool" where
  "sql_avail inp \<longleftrightarrow> in_fault inp = None \<and> rows_ok inp"

lemma rows_loop_ok [simp]: "rows_loop (\<lambda>_. RowOk) k rs acc = Inr (acc @ rs)"
  by (induction rs arbitrary: k acc) simp_all

lemma rows_loop_avail: "sql_avail inp \<Longrightarrow> rows_loop (in_row inp) k rs acc = Inr (acc @ rs)"
  by (simp add: sql_avail_def rows_ok_def)

lemma query_row_avail:
  "sql_avail inp \<Longrightarrow> query_row inp rows = (case rows of [] \<Rightarrow> Inl ErrNoRows | r # _ \<Rightarrow> Inr r)"
  by (auto simp: sql_avail_def rows_ok_def query_row_def split: list.splits)

text \<open>A cursor that stops early yields a proper prefix as if it were the whole answer.\<close>

lemma rows_loop_stop:
  assumes "\<And>k. k < m \<Longrightarrow> st (n + k) = RowOk" "st (n + m) = RowStop e" "m < length rs"
  shows "rows_loop st n rs acc = Inr (acc @ take m rs)"
  using assms
proof (induction rs arbitrary: n m acc)
  case (Cons r rs)
  show ?case
  proof (cases m)
    case 0
    with Cons.prems(2) show ?thesis by simp
  next
    case (Suc m')
    with Cons.prems(1) [of 0] have "st n = RowOk" by simp
    moreover have "st (Suc n + k) = RowOk" if "k < m'" for k
      using Cons.prems(1) [of "Suc k"] that Suc by simp
    ultimately show ?thesis
      using Cons.IH [of m' "Suc n" "acc @ [r]"] Cons.prems(2,3) Suc by simp
  qed
qed simp

section \<open>Constraints of the table\<close>

text \<open>
  \<open>INSERT\<close> under the constraints of the migration: primary key, foreign key and the check
  that a directory is not its own parent.
\<close>

definition sql_insert :: "directory \<Rightarrow> directory list \<Rightarrow> go_error + directory list" where
  "sql_insert row table =
     (if DirId row \<in> DirId ` set table
      then Inl (ErrExternal ''duplicate key value violates unique constraint'')
      else case Parent row of
             None \<Rightarrow> Inr (table @ [row])
           | Some p \<Rightarrow>
               if p = DirId row then Inl (ErrExternal ''failed to satisfy CHECK constraint'')
               else if p \<notin> DirId ` set table
               then Inl (ErrExternal ''insert violates foreign key constraint'')
               else Inr (table @ [row]))"

end
