(* ===== verification/Crdb_Driver.thy ===== *)
theory Crdb_Driver
  imports Sql_Engine
begin

text \<open>
  The CockroachDB driver (src/storage/crdb/driver): its options and its nine operations.

  The table \<open>directories\<close> is a list of rows; a row has the fields of a \<open>Directory\<close>, so it is one,
  and its columns \<open>id\<close>, \<open>parent_id\<close>, \<open>deleted_at\<close> are \<open>DirId\<close>, \<open>Parent\<close>, \<open>DeletedAt\<close>. \<open>NOW()\<close> is
  \<open>in_time1\<close> and \<open>gen_random_uuid()\<close> is \<open>in_uuid\<close> of the call's inputs. The state keeps the
  earlier versions of the table, since a follower read (\<open>AS OF SYSTEM TIME\<close>) answers from one
  of them. A statement that fails has no effect; when it succeeds, the write is done even if
  the cursor over its answer breaks.
\<close>

record crdb_state =
  rows :: "directory list"
  past :: "directory list list"

type_synonym 'bus crdb_world = "(crdb_state, 'bus) world"

section \<open>The driver and its options\<close>

record crdb_driver =
  conn :: sql_engine
  readOnly :: bool
  fastReads :: bool

type_synonym crdb_option = "crdb_driver \<Rightarrow> crdb_driver"

definition WithReadOnly :: crdb_option where
  "WithReadOnly d = d\<lparr>readOnly := True\<rparr>"

definition WithFastReads :: crdb_option where
  "WithFastReads d = d\<lparr>fastReads := True\<rparr>"

definition crdb_NewDirectoryDriver :: "sql_engine \<Rightarrow> crdb_option list \<Rightarrow> crdb_driver" where
  "crdb_NewDirectoryDriver eng opts =
     fold (\<lambda>opt d. opt d) opts \<lparr>conn = eng, readOnly = False, fastReads = False\<rparr>"

text \<open>\<open>WithStorageOptions\<close> of src/storage/crdb/utils reads the two flags of the configuration.\<close>

definition WithStorageOptions :: "(string \<Rightarrow> bool) \<Rightarrow> crdb_option list" where
  "WithStorageOptions v_GetBool =
     (if v_GetBool ''storage.read_only'' then [WithReadOnly] else [])
     @ (if v_GetBool ''storage.fast_reads'' then [WithFastReads] else [])"

section \<open>Queries\<close>

text \<open>
  \<open>formatQuery\<close> puts the follower-read clause into the query, or nothing: the rows the query
  sees are those of an earlier version, or the current ones.
\<close>

definition withFollowerReads :: "inputs \<Rightarrow> crdb_state \<Rightarrow> directory list" where
  "withFollowerReads inp s = (rows s # past s) ! min (in_lag inp) (length (past s))"

definition formatQuery :: "crdb_driver \<Rightarrow> inputs \<Rightarrow> crdb_state \<Rightarrow> directory list" where
  "formatQuery t inp s = (if fastReads t then withFollowerReads inp s else rows s)"

definition commit :: "directory list \<Rightarrow> 'bus crdb_world \<Rightarrow> 'bus crdb_world" where
  "commit table w = w\<lparr>db := \<lparr>rows = table, past = rows (db w) # past (db w)\<rparr>\<rparr>"

text \<open>The rows of the common table expressions: \<open>id, parent_id, created_at\<close>.\<close>

type_synonym cte_row = "directory_id \<times> directory_id option \<times> go_time"

definition cte_row :: "directory \<Rightarrow> cte_row" where
  "cte_row d = (DirId d, Parent d, CreatedAt d)"

definition order_by_created :: "cte_row list \<Rightarrow> cte_row list" where
  "order_by_created = sort_key (\<lambda>(_, _, t). time_ns t)"

definition cte_start :: "directory list \<Rightarrow> bool \<Rightarrow> directory_id \<Rightarrow> cte_row list" where
  "cte_start table dels i = map cte_row (filter (\<lambda>d. DirId d = i \<and> visible dels d) table)"

definition parents_step :: "directory list \<Rightarrow> bool \<Rightarrow> directory_id option \<Rightarrow> cte_row list \<Rightarrow> cte_row list"
where
  "parents_step table dels ancestor gps =
     order_by_created (concat (map (\<lambda>d. map (\<lambda>_. cte_row d)
       (filter (\<lambda>(gp_id, gp_parent, _). Some (DirId d) = gp_parent \<and> Some gp_id \<noteq> ancestor
          \<and> visible dels d) gps)) table))"

definition children_step :: "directory list \<Rightarrow> bool \<Rightarrow> cte_row list \<Rightarrow> cte_row list" where
  "children_step table dels gcs =
     order_by_created (concat (map (\<lambda>d. map (\<lambda>_. cte_row d)
       (filter (\<lambda>(gc_id, _, _). Parent d = Some gc_id \<and> visible dels d) gcs)) table))"

definition query_parents :: "crdb_driver \<Rightarrow> directory list \<Rightarrow> bool \<Rightarrow> directory_id
    \<Rightarrow> directory_id option \<Rightarrow> directory_id list option" where
  "query_parents t table dels child ancestor =
     (let scan = scan_rows (conn t) table
      in map_option (\<lambda>rs. emit_ids (conn t) (map fst rs))
           (recursive_query (parents_step scan dels ancestor) (cte_start scan dels child)))"

definition query_children :: "crdb_driver \<Rightarrow> directory list \<Rightarrow> bool \<Rightarrow> directory_id
    \<Rightarrow> directory_id list option" where
  "query_children t table dels parent =
     (let scan = scan_rows (conn t) table
      in map_option (\<lambda>rs. emit_ids (conn t) (map fst rs))
           (recursive_query (children_step scan dels) (cte_start scan dels parent)))"

text \<open>\<open>LIMIT\<close> and \<open>OFFSET\<close> are parsed from the decimal text of Go's integers; a negative one is refused.\<close>

definition sql_limit_offset :: "int \<Rightarrow> int \<Rightarrow> 'r list \<Rightarrow> go_error + 'r list" where
  "sql_limit_offset limit offset rs =
     (if limit < 0 then Inl (ErrExternal ''negative value for LIMIT'')
      else if offset < 0 then Inl (ErrExternal ''negative value for OFFSET'')
      else Inr (take (nat limit) (drop (nat offset) rs)))"

section \<open>Reads\<close>

definition crdb_GetDirectory :: "crdb_driver \<Rightarrow> inputs \<Rightarrow> directory_id \<Rightarrow> storage_option list
    \<Rightarrow> 'bus crdb_world \<Rightarrow> 'bus crdb_world \<times> addr outcome" where
  "crdb_GetDirectory t inp i options w =
     (let opts = BuildOptions options;
          q = filter (\<lambda>d. DirId d = i \<and> visible (WithDeleted opts) d)
                (scan_rows (conn t) (formatQuery t inp (db w)))
      in case query_row inp q of
           Inl e \<Rightarrow> if errors_is e ErrNoRows then (w, Err ErrDirectoryNotFound)
                    else (w, Err (ErrWrap ''error querying directory'' e))
         | Inr row \<Rightarrow> (let (d, w) = alloc row w in (w, Ok d)))"

definition crdb_ListRoots :: "crdb_driver \<Rightarrow> inputs \<Rightarrow> storage_option list \<Rightarrow> 'bus crdb_world
    \<Rightarrow> directory_id list outcome" where
  "crdb_ListRoots t inp options w =
     (let opts = BuildOptions options;
          q = map DirId (sort_key (\<lambda>d. time_ns (CreatedAt d))
                (filter (\<lambda>d. Parent d = None \<and> visible (WithDeleted opts) d)
                  (scan_rows (conn t) (formatQuery t inp (db w)))));
          offset = (if GetPage opts - 1 \<noteq> 0 then sint (GetPageOffset opts) else 0)
      in case in_fault inp of
           Some e \<Rightarrow> Err (ErrWrap ''error querying directory'' e)
         | None \<Rightarrow>
             (case sql_limit_offset (sint (GetPageSize opts)) offset q of
                Inl e \<Rightarrow> Err (ErrWrap ''error querying directory'' e)
              | Inr ids \<Rightarrow>
                  (case rows_loop (in_row inp) 0 ids [] of
                     Inl e \<Rightarrow> Err (ErrWrap ''error scanning directory'' e)
                   | Inr roots \<Rightarrow> Ok roots)))"

text \<open>
  The common ending of \<open>GetParents\<close>, \<open>GetParentsUntilAncestor\<close> and \<open>GetChildren\<close>: run the query,
  read its rows, and return the requested chunk without the first row, which is the
  directory itself.
\<close>

definition page_after_first :: "storage_options \<Rightarrow> directory_id list \<Rightarrow> directory_id list outcome" where
  "page_after_first opts ids =
     (if ids = [] then Err ErrDirectoryNotFound
      else if int (length ids) \<le> sint (GetPageOffset opts + 1) then Ok []
      else let limit = GetPageOffset opts + 1 + GetPageSize opts;
               limit = (if int (length ids) < sint limit then word_of_nat (length ids) else limit)
           in slice_expr ids (sint (GetPageOffset opts + 1)) (sint limit))"

definition crdb_listing :: "inputs \<Rightarrow> storage_options \<Rightarrow> directory_id list option
    \<Rightarrow> directory_id list outcome" where
  "crdb_listing inp opts q =
     (case in_fault inp of
        Some e \<Rightarrow> Err (ErrWrap ''error querying directory'' e)
      | None \<Rightarrow>
          (case q of
             None \<Rightarrow> Diverge
           | Some ids \<Rightarrow>
               (case rows_loop (in_row inp) 0 ids [] of
                  Inl e \<Rightarrow> Err (ErrWrap ''error scanning directory'' e)
                | Inr parents \<Rightarrow> page_after_first opts parents)))"

definition crdb_GetParents :: "crdb_driver \<Rightarrow> inputs \<Rightarrow> directory_id \<Rightarrow> storage_option list
    \<Rightarrow> 'bus crdb_world \<Rightarrow> directory_id list outcome" where
  "crdb_GetParents t inp child options w =
     (let opts = BuildOptions options
      in crdb_listing inp opts
           (query_parents t (formatQuery t inp (db w)) (WithDeleted opts) child None))"

definition crdb_GetParentsUntilAncestor :: "crdb_driver \<Rightarrow> inputs \<Rightarrow> directory_id \<Rightarrow> directory_id
    \<Rightarrow> storage_option list \<Rightarrow> 'bus crdb_world \<Rightarrow> directory_id list outcome" where
  "crdb_GetParentsUntilAncestor t inp child ancestor options w =
     (if child = ancestor then Ok []
      else let opts = BuildOptions options
           in crdb_listing inp opts
                (query_parents t (formatQuery t inp (db w)) (WithDeleted opts) child (Some ancestor)))"

definition crdb_GetChildren :: "crdb_driver \<Rightarrow> inputs \<Rightarrow> directory_id \<Rightarrow> storage_option list
    \<Rightarrow> 'bus crdb_world \<Rightarrow> directory_id list outcome" where
  "crdb_GetChildren t inp parent options w =
     (let opts = BuildOptions options
      in crdb_listing inp opts
           (query_children t (formatQuery t inp (db w)) (WithDeleted opts) parent))"

section \<open>Writes\<close>

text \<open>
  The \<open>INSERT\<close> of \<open>CreateRoot\<close> and \<open>CreateDirectory\<close>; \<open>RETURNING\<close> delivers the generated columns,
  which are scanned into the given object.
\<close>

definition insert_directory :: "inputs \<Rightarrow> addr \<Rightarrow> 'bus crdb_world \<Rightarrow> 'bus crdb_world \<times> addr outcome" where
  "insert_directory inp a w =
     (let d = default_metadata (heap w a);
          w = write_ptr a d w;
          row = \<lparr>CreatedAt = in_time1 inp, DeletedAt = None, DirId = in_uuid inp,
                 Metadata = Metadata d, Name = Name d, Parent = Parent d, UpdatedAt = in_time1 inp\<rparr>
      in case in_fault inp of
           Some e \<Rightarrow> (w, Err (ErrWrap ''error inserting directory'' e))
         | None \<Rightarrow>
             (case sql_insert row (rows (db w)) of
                Inl e \<Rightarrow> (w, Err (ErrWrap ''error inserting directory'' e))
              | Inr table \<Rightarrow>
                  (case query_row inp [row] of
                     Inl e \<Rightarrow> (commit table w, Err (ErrWrap ''error inserting directory'' e))
                   | Inr r \<Rightarrow>
                       (write_ptr a (d\<lparr>DirId := DirId r, CreatedAt := CreatedAt r, UpdatedAt := UpdatedAt r\<rparr>)
                          (commit table w), Ok a))))"

definition crdb_CreateRoot ::
    "crdb_driver \<Rightarrow> inputs \<Rightarrow> addr \<Rightarrow> 'bus crdb_world \<Rightarrow> 'bus crdb_world \<times> addr outcome" where
  "crdb_CreateRoot t inp a w =
     (if readOnly t then (w, Err ErrReadOnly)
      else if Parent (heap w a) \<noteq> None then (w, Err ErrRootWithParentDirectory)
      else insert_directory inp a w)"

definition crdb_CreateDirectory ::
    "crdb_driver \<Rightarrow> inputs \<Rightarrow> addr \<Rightarrow> 'bus crdb_world \<Rightarrow> 'bus crdb_world \<times> addr outcome" where
  "crdb_CreateDirectory t inp a w =
     (if readOnly t then (w, Err ErrReadOnly)
      else if Parent (heap w a) = None then (w, Err ErrDirectoryWithoutParent)
      else insert_directory inp a w)"

definition update_row :: "inputs \<Rightarrow> directory \<Rightarrow> directory \<Rightarrow> directory" where
  "update_row inp d row =
     (if DirId row = DirId d
      then row\<lparr>Name := Name d, Metadata := Metadata d, UpdatedAt := in_time1 inp\<rparr> else row)"

definition crdb_UpdateDirectory ::
    "crdb_driver \<Rightarrow> inputs \<Rightarrow> addr option \<Rightarrow> 'bus crdb_world \<Rightarrow> 'bus crdb_world \<times> unit outcome" where
  "crdb_UpdateDirectory t inp ptr w =
     (if readOnly t then (w, Err ErrReadOnly)
      else case ptr of
        None \<Rightarrow> (w, Panic)
      | Some a \<Rightarrow>
          (let d = default_metadata (heap w a);
               w = write_ptr a d w;
               table = map (update_row inp d) (rows (db w))
           in case in_fault inp of
                Some e \<Rightarrow> (w, Err (ErrWrap ''error updating directory'' e))
              | None \<Rightarrow>
                  (case query_row inp (filter (\<lambda>row. DirId row = DirId d) table) of
                     Inl e \<Rightarrow> (commit table w, Err (ErrWrap ''error updating directory'' e))
                   | Inr r \<Rightarrow> (write_ptr a (d\<lparr>UpdatedAt := UpdatedAt r\<rparr>) (commit table w), Ok ()))))"

fun affected_loop :: "(nat \<Rightarrow> row_step) \<Rightarrow> nat \<Rightarrow> directory list \<Rightarrow> addr list \<Rightarrow> 'bus crdb_world
    \<Rightarrow> 'bus crdb_world \<times> addr list outcome" where
  "affected_loop st k [] affected w =
     (if affected = [] then (w, Err ErrDirectoryNotFound) else (w, Ok affected))"
| "affected_loop st k (row # rs) affected w =
     (case st k of
        RowOk \<Rightarrow> (let (d, w) = alloc row w in affected_loop st (Suc k) rs (affected @ [d]) w)
      | RowScanErr e \<Rightarrow> (w, Err (ErrWrap ''error scanning directory'' e))
      | RowStop e \<Rightarrow> affected_loop st k [] affected w)"

definition delete_start :: "directory list \<Rightarrow> directory_id \<Rightarrow> (directory_id \<times> directory_id option) list" where
  "delete_start table i =
     map (\<lambda>d. (DirId d, Parent d))
       (filter (\<lambda>d. DirId d = i \<and> DeletedAt d = None \<and> Parent d \<noteq> None) table)"

definition delete_step :: "directory list \<Rightarrow> (directory_id \<times> directory_id option) list
    \<Rightarrow> (directory_id \<times> directory_id option) list" where
  "delete_step table gcs =
     concat (map (\<lambda>d. map (\<lambda>_. (DirId d, Parent d))
       (filter (\<lambda>(gc_id, _). Parent d = Some gc_id \<and> DeletedAt d = None) gcs)) table)"

definition crdb_DeleteDirectory ::
    "crdb_driver \<Rightarrow> inputs \<Rightarrow> directory_id \<Rightarrow> 'bus crdb_world \<Rightarrow> 'bus crdb_world \<times> addr list outcome" where
  "crdb_DeleteDirectory t inp i w =
     (let scan = scan_rows (conn t) (rows (db w))
      in case in_fault inp of
           Some e \<Rightarrow> (w, Err (ErrWrap ''error querying directory'' e))
         | None \<Rightarrow>
             (case recursive_query (delete_step scan) (delete_start scan i) of
                None \<Rightarrow> (w, Diverge)
              | Some gcs \<Rightarrow>
                  (let hit = (\<lambda>d. DeletedAt d = None \<and> DirId d \<in> fst ` set gcs);
                       mark = (\<lambda>d. d\<lparr>DeletedAt := Some (in_time1 inp)\<rparr>);
                       table = map (\<lambda>d. if hit d then mark d else d) (rows (db w))
                   in affected_loop (in_row inp) 0 (map mark (filter hit scan)) [] (commit table w))))"

definition crdb_admin :: "crdb_driver \<Rightarrow> (crdb_state, 'bus) directory_admin" where
  "crdb_admin t = \<lparr>
     GetDirectory = crdb_GetDirectory t,
     GetParents = (\<lambda>inp i options w. (w, crdb_GetParents t inp i options w)),
     GetParentsUntilAncestor =
       (\<lambda>inp c a options w. (w, crdb_GetParentsUntilAncestor t inp c a options w)),
     GetChildren = (\<lambda>inp i options w. (w, crdb_GetChildren t inp i options w)),
     ListRoots = (\<lambda>inp options w. (w, crdb_ListRoots t inp options w)),
     CreateDirectory = crdb_CreateDirectory t,
     UpdateDirectory = crdb_UpdateDirectory t,
     DeleteDirectory = crdb_DeleteDirectory t,
     CreateRoot = crdb_CreateRoot t\<rparr>"

end
