(* ===== verification/Crdb_Queries.thy ===== *)
theory Crdb_Queries
  imports Crdb_Driver
begin

text \<open>
  What the queries of the CockroachDB driver return, in terms of the forest that the table
  stands for.

  \<^item> \<open>table_forest\<close>, \<open>table_ok\<close>: the forest of a table and its well-formedness; both are the same
    for every scan order.
  \<^item> \<open>query_descendants\<close>: the downward queries yield the directory and its visible
    descendants, each once.
  \<^item> \<open>climb\<close>, \<open>query_parents_climb\<close>: the upward queries yield the directory and its parents,
    nearest first, up to the first that is hidden or until the given ancestor.
  \<^item> \<open>page_after_first_in_range\<close>: the chunk the driver cuts out of the rows is the page.
\<close>

section \<open>Tables and forests\<close>

definition table_forest :: "directory list \<Rightarrow> forest" where
  "table_forest table = map_of (map (\<lambda>d. (DirId d, d)) table)"

definition table_ok :: "directory list \<Rightarrow> bool" where
  "table_ok table \<longleftrightarrow> distinct (map DirId table) \<and> tree_ok (table_forest table)"

lemma table_ok_distinct: "table_ok table \<Longrightarrow> distinct (map DirId table)"
  and table_ok_tree: "table_ok table \<Longrightarrow> tree_ok (table_forest table)"
  by (simp_all add: table_ok_def)

lemma table_forest_Some:
  assumes "distinct (map DirId table)"
  shows "table_forest table i = Some d \<longleftrightarrow> d \<in> set table \<and> DirId d = i"
proof -
  have "distinct (map fst (map (\<lambda>d. (DirId d, d)) table))" using assms by (simp add: o_def)
  then show ?thesis unfolding table_forest_def by (subst map_of_eq_Some_iff) auto
qed

lemma table_forest_dom: "dom (table_forest table) = DirId ` set table"
  by (simp add: table_forest_def dom_map_of_conv_image_fst image_image)

lemma table_forest_mset:
  assumes "mset scan = mset table" "distinct (map DirId table)"
  shows "table_forest scan = table_forest table"
proof -
  have "distinct (map DirId scan)"
    using assms by (metis mset_eq_imp_distinct_iff mset_map)
  moreover have "set scan = set table" using assms(1) by (metis set_mset_mset)
  ultimately show ?thesis
    using assms(2) by (metis (no_types, opaque_lifting) not_Some_eq ext table_forest_Some)
qed

lemma table_ok_mset:
  assumes "mset scan = mset table" "table_ok table" shows "table_ok scan"
  using assms table_forest_mset [OF assms(1) table_ok_distinct [OF assms(2)]]
  by (metis mset_eq_imp_distinct_iff mset_map table_ok_def)

lemma filter_by_id:
  assumes "distinct (map DirId table)"
  shows "filter (\<lambda>d. DirId d = i \<and> Q d) table
    = (case table_forest table i of Some d \<Rightarrow> if Q d then [d] else [] | None \<Rightarrow> [])"
  using assms
proof (induction table)
  case (Cons d table)
  show ?case
  proof (cases "DirId d = i")
    case True
    with Cons.prems have "filter (\<lambda>d. DirId d = i \<and> Q d) table = []"
      by (auto simp: filter_empty_conv) (metis image_eqI)
    with True show ?thesis by (simp add: table_forest_def)
  next
    case False
    with Cons show ?thesis by (simp add: table_forest_def)
  qed
qed (simp add: table_forest_def)

section \<open>Downward queries\<close>

lemma query_descendants:
  fixes pr :: "directory \<Rightarrow> 'r" and key :: "'r \<Rightarrow> directory_id"
  assumes ok: "table_ok table" and key: "\<And>d. key (pr d) = DirId d"
    and d0: "table_forest table i = Some d0"
    and step: "\<And>ws. set (step ws)
      = {pr d | d w. d \<in> set table \<and> w \<in> set ws \<and> Parent d = Some (key w) \<and> visible dels d}"
  shows "\<exists>rest. recursive_query step [pr d0] = Some (pr d0 # rest)
    \<and> distinct (map key (pr d0 # rest)) \<and> set (map key rest) = descendants (table_forest table) dels i"
proof -
  let ?F = "table_forest table"
  let ?succ = "\<lambda>w. {pr d | d. d \<in> set table \<and> Parent d = Some (key w) \<and> visible dels d}"
  note some = table_forest_Some [OF table_ok_distinct [OF ok]]
  have "set (step ws) = (\<Union>w \<in> set ws. ?succ w)" for ws unfolding step by blast
  moreover have "finite (pr ` set table)" "?succ w \<subseteq> pr ` set table" for w by auto
  ultimately obtain rest where rest: "recursive_query step [pr d0] = Some (pr d0 # rest)"
    "distinct (pr d0 # rest)" "set (pr d0 # rest) = derives ?succ {pr d0}"
    using recursive_query_returns [of step ?succ "pr ` set table" "[pr d0]"] by auto
  let ?S = "pr ` {d. ?F (DirId d) = Some d \<and> (DirId d = i \<or> descends ?F dels i (DirId d))}"
  have sound: "derives ?succ {pr d0} \<subseteq> ?S"
  proof (rule derives_least)
    show "{pr d0} \<subseteq> ?S" using d0 some by auto
  next
    fix r r' assume r: "r \<in> ?S" "r' \<in> ?succ r"
    from r(1) obtain d where d: "r = pr d" "DirId d = i \<or> descends ?F dels i (DirId d)" by blast
    with r(2) obtain e where
      e: "r' = pr e" "?F (DirId e) = Some e" "Parent e = Some (DirId d)" "visible dels e"
      using key some by auto
    from d(2) e(2-) have "descends ?F dels i (DirId e)" by (auto intro: descends.child descends.below)
    with e(1,2) show "r' \<in> ?S" by blast
  qed
  have complete: "\<exists>d. ?F j = Some d \<and> pr d \<in> derives ?succ {pr d0}" if "descends ?F dels i j" for j
    using that
  proof (induction rule: descends.induct)
    case (child j d)
    then have "pr d \<in> ?succ (pr d0)" using d0 some key by auto
    moreover have "pr d0 \<in> derives ?succ {pr d0}" using derives_incl by (rule subsetD) simp
    ultimately show ?case using child(1) by (blast intro: derives_step)
  next
    case (below p j d)
    then obtain e where e: "?F p = Some e" "pr e \<in> derives ?succ {pr d0}" by blast
    with below.hyps have "pr d \<in> ?succ (pr e)" using some key by auto
    with e(2) below.hyps(2) show ?case by (blast intro: derives_step)
  qed
  have inj: "inj_on key (set (pr d0 # rest))"
    unfolding rest(3)
  proof (rule inj_on_subset [OF inj_onI sound])
    fix r r' assume r: "r \<in> ?S" "r' \<in> ?S" and eq: "key r = key r'"
    from r(1) obtain d where d: "r = pr d" "?F (DirId d) = Some d" by blast
    from r(2) obtain d' where d': "r' = pr d'" "?F (DirId d') = Some d'" by blast
    from eq have "DirId d = DirId d'" unfolding d(1) d'(1) key .
    with d(2) d'(2) have "d = d'" by (metis option.inject)
    with d(1) d'(1) show "r = r'" by simp
  qed
  have ids: "key ` set (pr d0 # rest) = insert i (descendants ?F dels i)"
    unfolding rest(3)
  proof (intro equalityI subsetI)
    fix j assume "j \<in> key ` derives ?succ {pr d0}"
    then have "j \<in> key ` ?S" using sound by blast
    then show "j \<in> insert i (descendants ?F dels i)" by (auto simp: descendants_def key)
  next
    fix j assume "j \<in> insert i (descendants ?F dels i)"
    then have "\<exists>d. ?F j = Some d \<and> pr d \<in> derives ?succ {pr d0}"
      using complete [of j] d0 derives_incl [of "{pr d0}" ?succ] by (auto simp: descendants_def)
    then obtain d where d: "DirId d = j" "pr d \<in> derives ?succ {pr d0}" using some by blast
    from imageI [OF d(2), of key] show "j \<in> key ` derives ?succ {pr d0}" unfolding key d(1) .
  qed
  have dist: "distinct (map key (pr d0 # rest))"
    unfolding distinct_map using rest(2) inj by blast
  have i: "key (pr d0) = i" using d0 some key by simp
  then have "insert i (key ` set rest) = insert i (descendants ?F dels i)" using ids by simp
  moreover have "i \<notin> key ` set rest" using dist i by simp
  moreover have "i \<notin> descendants ?F dels i"
    using descends_irrefl [OF table_ok_tree [OF ok]] by (simp add: descendants_def)
  ultimately have "set (map key rest) = descendants ?F dels i" unfolding set_map by (metis insert_ident)
  with rest(1) dist show ?thesis by blast
qed

lemma set_children_step:
  "set (children_step table dels ws) = {cte_row d | d w. d \<in> set table \<and> w \<in> set ws
     \<and> Parent d = Some (fst w) \<and> visible dels d}"
  by (fastforce simp: children_step_def order_by_created_def)

lemma set_delete_step:
  "set (delete_step table ws) = {(DirId d, Parent d) | d w. d \<in> set table \<and> w \<in> set ws
     \<and> Parent d = Some (fst w) \<and> visible False d}"
  by (fastforce simp: delete_step_def visible_def)

lemma fst_cte_row [simp]: "fst (cte_row d) = DirId d"
  by (simp add: cte_row_def)

lemma cte_start_eq:
  "table_ok table \<Longrightarrow> cte_start table dels i =
    (case table_forest table i of Some d \<Rightarrow> if visible dels d then [cte_row d] else [] | None \<Rightarrow> [])"
  by (simp add: cte_start_def filter_by_id table_ok_distinct split: option.splits)

lemma delete_start_eq:
  "table_ok table \<Longrightarrow> delete_start table i =
    (case table_forest table i of
       Some d \<Rightarrow> if DeletedAt d = None \<and> Parent d \<noteq> None then [(DirId d, Parent d)] else []
     | None \<Rightarrow> [])"
  using filter_by_id [of table i "\<lambda>d. DeletedAt d = None \<and> Parent d \<noteq> None"]
  by (simp add: delete_start_def table_ok_distinct split: option.splits)

lemma recursive_query_Nil [simp]: "recursive_query step [] = Some []"
  by (simp add: recursive_query_def)

section \<open>Upward queries\<close>

inductive climb :: "forest \<Rightarrow> bool \<Rightarrow> directory_id option \<Rightarrow> directory_id \<Rightarrow> directory_id list \<Rightarrow> bool"
  for F :: forest and dels :: bool and anc :: "directory_id option" where
  climb_end: "F i = Some d \<Longrightarrow>
    Some i = anc \<or> (\<forall>p e. Parent d = Some p \<longrightarrow> F p = Some e \<longrightarrow> \<not> visible dels e) \<Longrightarrow>
    climb F dels anc i []"
| climb_up: "F i = Some d \<Longrightarrow> Some i \<noteq> anc \<Longrightarrow> Parent d = Some p \<Longrightarrow> F p = Some e \<Longrightarrow> visible dels e \<Longrightarrow>
    climb F dels anc p ps \<Longrightarrow> climb F dels anc i (p # ps)"

lemma parent_chain_climb: "parent_chain F dels i ps \<Longrightarrow> climb F dels None i ps"
proof (induction rule: parent_chain.induct)
  case (chain_step i d p ps)
  from chain_step.hyps(4) obtain e where "F p = Some e" "visible dels e"
    by (auto elim: parent_chain.cases)
  with chain_step show ?case by (auto intro: climb_up)
qed (auto intro: climb_end)

lemma parent_chain_climb_until:
  "parent_chain F dels i ps \<Longrightarrow> anc \<in> set ps \<Longrightarrow> i \<noteq> anc \<Longrightarrow>
    climb F dels (Some anc) i (takeWhile (\<lambda>p. p \<noteq> anc) ps @ [anc])"
proof (induction rule: parent_chain.induct)
  case (chain_step i d p ps)
  from chain_step.hyps(4) obtain e where e: "F p = Some e" "visible dels e"
    by (auto elim: parent_chain.cases)
  show ?case
  proof (cases "p = anc")
    case True
    with chain_step e show ?thesis by (auto intro!: climb_up climb_end)
  next
    case False
    with chain_step e show ?thesis by (auto intro!: climb_up)
  qed
qed simp

lemma climb_deterministic: "climb F dels anc i ps \<Longrightarrow> climb F dels anc i qs \<Longrightarrow> ps = qs"
proof (induction arbitrary: qs rule: climb.induct)
  case (climb_up i d p e ps)
  from climb_up.prems climb_up.hyps obtain qs' where "qs = p # qs'" "climb F dels anc p qs'"
    by (cases rule: climb.cases) auto
  with climb_up.IH show ?case by simp
qed (auto elim: climb.cases)

lemma climb_exists:
  assumes "tree_ok F" "F i = Some d"
  shows "\<exists>ps. climb F dels anc i ps"
proof -
  obtain rk where rk: "rank_ok rk F" using tree_ok_rank [OF assms(1)] by blast
  show ?thesis using assms(2)
  proof (induction "rk i" arbitrary: i d rule: less_induct)
    case less
    show ?case
    proof (cases "Some i = anc \<or> (\<forall>p e. Parent d = Some p \<longrightarrow> F p = Some e \<longrightarrow> \<not> visible dels e)")
      case True
      with less.prems show ?thesis by (blast intro: climb_end)
    next
      case False
      then obtain p e where p: "Some i \<noteq> anc" "Parent d = Some p" "F p = Some e" "visible dels e" by blast
      with less.prems rk have "rk p < rk i" by (blast dest: rank_okD)
      with less.hyps p(3) obtain ps where "climb F dels anc p ps" by blast
      with less.prems p show ?thesis by (blast intro: climb_up)
    qed
  qed
qed

lemma parents_step_single:
  assumes "table_ok table"
  shows "parents_step table dels anc [cte_row d] =
    (case Parent d of
       None \<Rightarrow> []
     | Some p \<Rightarrow>
         if Some (DirId d) = anc then []
         else case table_forest table p of
                None \<Rightarrow> [] | Some e \<Rightarrow> if visible dels e then [cte_row e] else [])"
proof -
  have one: "concat (map (\<lambda>e. map (\<lambda>_. cte_row e) (filter (\<lambda>_. Q e) [x])) es) = map cte_row (filter Q es)"
    for Q es and x :: cte_row by (induction es) simp_all
  have "parents_step table dels anc [cte_row d]
      = order_by_created (map cte_row (filter (\<lambda>e. Some (DirId e) = Parent d
          \<and> Some (DirId d) \<noteq> anc \<and> visible dels e) table))"
    unfolding parents_step_def one [symmetric, where x = "cte_row d"]
    by (simp add: cte_row_def cong: if_cong)
  moreover have "filter (\<lambda>e. Some (DirId e) = Some p \<and> Some (DirId d) \<noteq> anc \<and> visible dels e) table
      = (if Some (DirId d) = anc then [] else case table_forest table p of
          None \<Rightarrow> [] | Some e \<Rightarrow> if visible dels e then [e] else [])" for p
    using filter_by_id [OF table_ok_distinct [OF assms], of p "visible dels"] by auto
  ultimately show ?thesis
    by (auto simp: order_by_created_def split: option.splits)
qed

lemma parents_loop_climb:
  assumes ok: "table_ok table" and rk: "rank_ok rk (table_forest table)"
    and up: "climb (table_forest table) dels anc i ps"
    and "table_forest table i = Some d" "\<forall>r \<in> set result. rk i \<le> rk (fst r)"
  shows "\<exists>rs. recursive_loop (parents_step table dels anc) [cte_row d] result = Some (result @ rs)
    \<and> map fst rs = ps"
  using up assms(4,5)
proof (induction arbitrary: d result rule: climb.induct)
  case (climb_end i d')
  then have "DirId d = i" "d' = d" by (auto dest: tree_ok_id [OF table_ok_tree [OF ok]])
  with climb_end have "parents_step table dels anc [cte_row d] = []"
    by (auto simp: parents_step_single [OF ok] split: option.splits)
  then show ?case by (subst recursive_loop.simps) simp
next
  case (climb_up i d' p e ps)
  then have d: "DirId d = i" "d' = d" by (auto dest: tree_ok_id [OF table_ok_tree [OF ok]])
  have e: "DirId e = p" using climb_up.hyps(4) by (rule tree_ok_id [OF table_ok_tree [OF ok]])
  have less: "rk p < rk i" using climb_up.hyps d rk by (blast dest: rank_okD)
  then have fresh: "cte_row e \<notin> set result" using climb_up.prems(2) e by fastforce
  have step: "parents_step table dels anc [cte_row d] = [cte_row e]"
    using climb_up.hyps d by (simp add: parents_step_single [OF ok])
  have "\<forall>r \<in> set (result @ [cte_row e]). rk p \<le> rk (fst r)"
    using climb_up.prems(2) less e by (auto intro: less_imp_le less_le_trans)
  from climb_up.IH [OF climb_up.hyps(4) this] obtain rs where
    "recursive_loop (parents_step table dels anc) [cte_row e] (result @ [cte_row e])
      = Some ((result @ [cte_row e]) @ rs)" "map fst rs = ps" by blast
  with step fresh e show ?case
    by (intro exI [of _ "cte_row e # rs"]) (subst recursive_loop.simps, simp)
qed

lemma recursive_parents:
  assumes "table_ok table" "climb (table_forest table) dels anc i ps"
    and "table_forest table i = Some d"
  shows "\<exists>rs. recursive_query (parents_step table dels anc) [cte_row d] = Some (cte_row d # rs)
    \<and> map fst rs = ps"
proof -
  obtain rk where rk: "rank_ok rk (table_forest table)"
    using tree_ok_rank [OF table_ok_tree [OF assms(1)]] by blast
  have "\<forall>r \<in> set [cte_row d]. rk i \<le> rk (fst r)"
    using tree_ok_id [OF table_ok_tree [OF assms(1)] assms(3)] by simp
  from parents_loop_climb [OF assms(1) rk assms(2,3) this] show ?thesis
    by (simp add: recursive_query_def)
qed

section \<open>The chunk without the first row\<close>

lemma page_after_first_in_range:
  assumes "page_in_range opts"
  shows "page_after_first opts (i # rest) = Ok (page_of opts rest)"
proof -
  let ?off = "GetPageOffset opts" and ?size = "GetPageSize opts"
  note off = sint_GetPageOffset_nat [OF assms] and lim = sint_GetPageLimit_nat [OF assms]
  have top: "sint (?off + ?size) < 2 ^ 63 - 1"
    using assms sint_GetPageLimit [OF assms] by (simp add: page_in_range_def)
  have size: "1 \<le> sint ?size" by (rule GetPageSize_pos)
  have off1: "sint (?off + 1) = int (Suc (page_offset opts))"
    using off top lim size by (subst go_int_add_exact) simp_all
  have sum: "?off + 1 + ?size = (?off + ?size) + 1" by simp
  have lim1: "sint (?off + 1 + ?size) = int (Suc (page_offset opts) + nat (sint ?size))"
    unfolding sum using lim top by (subst go_int_add_exact) simp_all
  let ?n = "Suc (page_offset opts)" and ?s = "nat (sint ?size)"
  show ?thesis
  proof (cases "length (i # rest) \<le> ?n")
    case True
    then show ?thesis using off1 by (simp add: page_after_first_def page_of_def)
  next
    case False
    let ?m = "min ?s (length (i # rest) - ?n)"
    have "length (i # rest) < 9223372036854775808" if "length (i # rest) < ?n + ?s"
    proof -
      from that have "int (length (i # rest)) < sint (?off + 1 + ?size)" unfolding lim1 by (simp only: of_nat_less_iff)
      then have "int (length (i # rest)) < 2 ^ 63"
        using sint_go_int_bounds(2) by (rule less_trans)
      then show ?thesis by simp
    qed
    then have "sint (if int (length (i # rest)) < sint (?off + 1 + ?size)
        then word_of_nat (length (i # rest)) else ?off + 1 + ?size) = int (?n + ?m)"
      using False lim1 by (auto simp: sint_go_int_of_nat simp del: of_nat_Suc)
    moreover have "slice_expr (i # rest) (int ?n) (int (?n + ?m)) = Ok (take ?m (drop ?n (i # rest)))"
      using False by (intro slice_expr_in_range) simp
    moreover have "take ?m (drop ?n (i # rest)) = page_of opts rest"
      by (cases "?s \<le> length rest - page_offset opts") (simp_all add: page_of_def)
    ultimately show ?thesis using False off1 by (simp add: page_after_first_def Let_def)
  qed
qed

end
