(* ===== verification/Crdb_Contract.thy ===== *)
theory Crdb_Contract
  imports Crdb_Queries Storage_Contract
begin

text \<open>
  The CockroachDB driver keeps the contract of a directory store, and deletes whole subtrees:
  the interpretation \<open>crdb\<close> of \<open>cascading_store\<close>.

  \<^item> \<open>engine_ok\<close> is what the driver relies on beyond SQL: a scan yields every row of the table
    once, in some order, and a query without \<open>ORDER BY\<close> delivers the rows of its common table
    expression in the order in which the iterations produced them. The driver needs the
    latter because it drops the first row, taking it for the directory itself.
  \<^item> \<open>plain\<close> is a driver without options over such an engine.
  \<^item> \<open>crdb_inv\<close>: the table and all its earlier versions are well-formed.
\<close>

definition engine_ok :: "sql_engine \<Rightarrow> bool" where
  "engine_ok eng \<longleftrightarrow> (\<forall>table. mset (scan_rows eng table) = mset table) \<and> emit_ids eng = (\<lambda>ids. ids)"

definition plain :: "crdb_driver \<Rightarrow> bool" where
  "plain t \<longleftrightarrow> engine_ok (conn t) \<and> \<not> readOnly t \<and> \<not> fastReads t"

definition crdb_inv :: "'bus crdb_world \<Rightarrow> bool" where
  "crdb_inv w \<longleftrightarrow> table_ok (rows (db w)) \<and> (\<forall>table \<in> set (past (db w)). table_ok table)"

definition crdb_view :: "'bus crdb_world \<Rightarrow> forest" where
  "crdb_view w = table_forest (rows (db w))"

lemma crdb_invD: "crdb_inv w \<Longrightarrow> table_ok (rows (db w))" "crdb_inv w \<Longrightarrow> tree_ok (crdb_view w)"
  by (simp_all add: crdb_inv_def crdb_view_def table_ok_tree)

lemma crdb_inv_commit: "crdb_inv w \<Longrightarrow> table_ok table \<Longrightarrow> crdb_inv (commit table w)"
  by (simp add: crdb_inv_def commit_def)

lemma crdb_view_commit: "crdb_view (commit table w) = table_forest table"
  by (simp add: crdb_view_def commit_def)

lemma crdb_heap [simp]:
  "crdb_inv (write_ptr a d w) = crdb_inv w" "crdb_view (write_ptr a d w) = crdb_view w"
  "crdb_inv (snd (alloc d w)) = crdb_inv w" "crdb_view (snd (alloc d w)) = crdb_view w"
  "crdb_inv (w\<lparr>bus := b\<rparr>) = crdb_inv w" "crdb_view (w\<lparr>bus := b\<rparr>) = crdb_view w"
  by (simp_all add: crdb_inv_def crdb_view_def world_simps)

lemma commit_world [world_simps]:
  "heap (commit table w) = heap w" "brk (commit table w) = brk w" "bus (commit table w) = bus w"
  "rows (db (commit table w)) = table"
  by (simp_all add: commit_def)

lemma crdb_admin_simps [simp]:
  "GetDirectory (crdb_admin t) = crdb_GetDirectory t"
  "GetParents (crdb_admin t) inp i options w = (w, crdb_GetParents t inp i options w)"
  "GetParentsUntilAncestor (crdb_admin t) inp i anc options w
     = (w, crdb_GetParentsUntilAncestor t inp i anc options w)"
  "GetChildren (crdb_admin t) inp i options w = (w, crdb_GetChildren t inp i options w)"
  "ListRoots (crdb_admin t) inp options w = (w, crdb_ListRoots t inp options w)"
  "CreateDirectory (crdb_admin t) = crdb_CreateDirectory t"
  "UpdateDirectory (crdb_admin t) = crdb_UpdateDirectory t"
  "DeleteDirectory (crdb_admin t) = crdb_DeleteDirectory t"
  "CreateRoot (crdb_admin t) = crdb_CreateRoot t"
  by (simp_all add: crdb_admin_def)

section \<open>Scans\<close>

lemma scan_table:
  assumes "engine_ok eng" "table_ok table"
  shows "table_ok (scan_rows eng table)" "table_forest (scan_rows eng table) = table_forest table"
proof -
  have "mset (scan_rows eng table) = mset table" using assms(1) by (simp add: engine_ok_def)
  with assms(2) show "table_ok (scan_rows eng table)" "table_forest (scan_rows eng table) = table_forest table"
    by (blast intro: table_ok_mset table_forest_mset table_ok_distinct)+
qed

lemma set_scan: "engine_ok eng \<Longrightarrow> set (scan_rows eng table) = set table"
  by (metis engine_ok_def set_mset_mset)

lemma distinct_scan: "engine_ok eng \<Longrightarrow> distinct (map f (scan_rows eng table)) = distinct (map f table)"
  by (metis engine_ok_def mset_eq_imp_distinct_iff mset_map)

section \<open>What the queries return\<close>

lemma query_children_visible:
  assumes "engine_ok (conn t)" "table_ok table" "table_forest table i = Some d" "visible dels d"
  shows "\<exists>cs. query_children t table dels i = Some (i # cs) \<and> distinct cs
    \<and> set cs = descendants (table_forest table) dels i"
proof -
  let ?scan = "scan_rows (conn t) table"
  note scan = scan_table [OF assms(1,2)]
  have i: "DirId d = i" using assms(3) by (rule tree_ok_id [OF table_ok_tree [OF assms(2)]])
  have d: "table_forest ?scan i = Some d" using assms(3) scan(2) by simp
  obtain rest where
    "recursive_query (children_step ?scan dels) [cte_row d] = Some (cte_row d # rest)"
    "distinct (map fst (cte_row d # rest))" "set (map fst rest) = descendants (table_forest ?scan) dels i"
    using query_descendants [OF scan(1) fst_cte_row d set_children_step] by blast
  moreover have "cte_start ?scan dels i = [cte_row d]"
    using d assms(4) by (simp add: cte_start_eq [OF scan(1)])
  ultimately show ?thesis
    using assms(1) i scan(2) by (intro exI [of _ "map fst rest"]) (simp add: query_children_def engine_ok_def)
qed

lemma query_hidden:
  assumes "engine_ok (conn t)" "table_ok table"
    and "\<And>d. table_forest table i = Some d \<Longrightarrow> \<not> visible dels d"
  shows "query_children t table dels i = Some []" "query_parents t table dels i anc = Some []"
proof -
  note scan = scan_table [OF assms(1,2)]
  have "cte_start (scan_rows (conn t) table) dels i = []"
    using assms(3) by (auto simp: cte_start_eq [OF scan(1)] scan(2) split: option.splits)
  then show "query_children t table dels i = Some []" "query_parents t table dels i anc = Some []"
    using assms(1) by (simp_all add: query_children_def query_parents_def engine_ok_def)
qed

lemma query_parents_climb:
  assumes "engine_ok (conn t)" "table_ok table" "table_forest table i = Some d" "visible dels d"
    and "climb (table_forest table) dels anc i ps"
  shows "query_parents t table dels i anc = Some (i # ps)"
proof -
  let ?scan = "scan_rows (conn t) table"
  note scan = scan_table [OF assms(1,2)]
  have i: "DirId d = i" using assms(3) by (rule tree_ok_id [OF table_ok_tree [OF assms(2)]])
  have d: "table_forest ?scan i = Some d" using assms(3) scan(2) by simp
  have "climb (table_forest ?scan) dels anc i ps" using assms(5) scan(2) by simp
  from recursive_parents [OF scan(1) this d] obtain rs where
    "recursive_query (parents_step ?scan dels anc) [cte_row d] = Some (cte_row d # rs)" "map fst rs = ps"
    by blast
  moreover have "cte_start ?scan dels i = [cte_row d]"
    using d assms(4) by (simp add: cte_start_eq [OF scan(1)])
  ultimately show ?thesis using assms(1) i by (simp add: query_parents_def engine_ok_def)
qed

lemma crdb_listing_page:
  "sql_avail inp \<Longrightarrow> page_in_range opts \<Longrightarrow>
    crdb_listing inp opts (Some (i # rest)) = Ok (page_of opts rest)"
  by (simp add: crdb_listing_def sql_avail_def rows_ok_def page_after_first_in_range)

lemma crdb_listing_Nil: "sql_avail inp \<Longrightarrow> crdb_listing inp opts (Some []) = Err ErrDirectoryNotFound"
  by (simp add: crdb_listing_def sql_avail_def rows_ok_def page_after_first_def)

lemma formatQuery_plain: "plain t \<Longrightarrow> formatQuery t inp s = rows s"
  by (simp add: formatQuery_def plain_def)

lemma plain_engine: "plain t \<Longrightarrow> engine_ok (conn t)"
  by (simp add: plain_def)

section \<open>Reads\<close>

lemma crdb_get:
  assumes "engine_ok (conn t)" "sql_avail inp" "table_ok (formatQuery t inp (db w))"
  shows "crdb_GetDirectory t inp i options w =
    (case table_forest (formatQuery t inp (db w)) i of
       None \<Rightarrow> (w, Err ErrDirectoryNotFound)
     | Some d \<Rightarrow> if visible (WithDeleted (BuildOptions options)) d then (snd (alloc d w), Ok (brk w))
                 else (w, Err ErrDirectoryNotFound))"
proof -
  let ?scan = "scan_rows (conn t) (formatQuery t inp (db w))"
  note scan = scan_table [OF assms(1,3)]
  show ?thesis
    unfolding crdb_GetDirectory_def Let_def filter_by_id [OF table_ok_distinct [OF scan(1)]]
      query_row_avail [OF assms(2)] scan(2)
    by (simp add: alloc_def split: option.splits)
qed

lemma crdb_children_law:
  assumes "plain t" "crdb_inv w" "crdb_view w i = Some d" "visible dels d"
  shows "\<exists>cs. distinct cs \<and> set cs = descendants (crdb_view w) dels i
    \<and> (\<forall>inp options. sql_avail inp \<longrightarrow> page_in_range (BuildOptions options) \<longrightarrow>
         WithDeleted (BuildOptions options) = dels \<longrightarrow>
         crdb_GetChildren t inp i options w = Ok (page_of (BuildOptions options) cs))"
proof -
  obtain cs where "query_children t (rows (db w)) dels i = Some (i # cs)" "distinct cs"
    "set cs = descendants (crdb_view w) dels i"
    using query_children_visible [OF plain_engine [OF assms(1)] crdb_invD(1) [OF assms(2)]] assms(3,4)
    unfolding crdb_view_def by blast
  then show ?thesis
    using assms(1) by (intro exI [of _ cs])
      (auto simp: crdb_GetChildren_def formatQuery_plain crdb_listing_page)
qed

lemma crdb_parents_eq:
  assumes "plain t" "crdb_inv w" "crdb_view w i = Some d" "visible dels d"
    and "climb (crdb_view w) dels None i ps"
    and "sql_avail inp" "page_in_range (BuildOptions options)" "WithDeleted (BuildOptions options) = dels"
  shows "crdb_GetParents t inp i options w = Ok (page_of (BuildOptions options) ps)"
  using query_parents_climb [OF plain_engine [OF assms(1)] crdb_invD(1) [OF assms(2)]] assms(3-)
  by (simp add: crdb_GetParents_def crdb_view_def formatQuery_plain [OF assms(1)] crdb_listing_page)

lemma crdb_until_eq:
  assumes "plain t" "crdb_inv w" "crdb_view w i = Some d" "visible dels d" "i \<noteq> anc"
    and "climb (crdb_view w) dels (Some anc) i ps"
    and "sql_avail inp" "page_in_range (BuildOptions options)" "WithDeleted (BuildOptions options) = dels"
  shows "crdb_GetParentsUntilAncestor t inp i anc options w = Ok (page_of (BuildOptions options) ps)"
  using query_parents_climb [OF plain_engine [OF assms(1)] crdb_invD(1) [OF assms(2)]] assms(3-)
  by (simp add: crdb_GetParentsUntilAncestor_def crdb_view_def formatQuery_plain [OF assms(1)] crdb_listing_page)

lemma sql_limit_offset_page:
  assumes "page_in_range opts"
  shows "sql_limit_offset (sint (GetPageSize opts))
      (if GetPage opts - 1 \<noteq> 0 then sint (GetPageOffset opts) else 0) rs = Inr (page_of opts rs)"
proof -
  have "page_offset opts = 0" if "GetPage opts - 1 = 0"
    using that by (simp add: page_offset_def)
  then show ?thesis
    using GetPageSize_pos [of opts] sint_GetPageOffset_nat [OF assms]
    by (auto simp: sql_limit_offset_def page_of_def)
qed

lemma crdb_roots_law:
  assumes "plain t" "crdb_inv w"
  shows "\<exists>rs. distinct rs \<and> set rs = roots_of (crdb_view w) dels
    \<and> (\<forall>inp options. sql_avail inp \<longrightarrow> page_in_range (BuildOptions options) \<longrightarrow>
         WithDeleted (BuildOptions options) = dels \<longrightarrow>
         crdb_ListRoots t inp options w = Ok (page_of (BuildOptions options) rs))"
proof -
  let ?table = "rows (db w)"
  let ?rs = "map DirId (sort_key (\<lambda>d. time_ns (CreatedAt d))
    (filter (\<lambda>d. Parent d = None \<and> visible dels d) (scan_rows (conn t) ?table)))"
  note eng = plain_engine [OF assms(1)]
  note dist = table_ok_distinct [OF crdb_invD(1) [OF assms(2)]]
  have "distinct (map DirId (scan_rows (conn t) ?table))" using dist distinct_scan [OF eng] by blast
  then have "distinct ?rs" by (simp add: distinct_map inj_on_def)
  moreover have "set ?rs = roots_of (crdb_view w) dels"
    by (auto simp: roots_of_def crdb_view_def table_forest_Some [OF dist] set_scan [OF eng])
  moreover have "crdb_ListRoots t inp options w = Ok (page_of (BuildOptions options) ?rs)"
    if "sql_avail inp" "page_in_range (BuildOptions options)" "WithDeleted (BuildOptions options) = dels"
    for inp options
  proof -
    have "in_fault inp = None" "in_row inp = (\<lambda>_. RowOk)"
      using that(1) by (simp_all add: sql_avail_def rows_ok_def)
    then show ?thesis
      using sql_limit_offset_page [OF that(2), of ?rs] that(3)
      by (simp add: crdb_ListRoots_def formatQuery_plain [OF assms(1)] Let_def)
  qed
  ultimately show ?thesis by blast
qed

section \<open>Writes\<close>

lemma table_forest_append:
  "DirId row \<notin> DirId ` set table \<Longrightarrow>
    table_forest (table @ [row]) = (table_forest table)(DirId row \<mapsto> row)"
  using table_forest_dom [of table]
  by (auto simp: table_forest_def fun_eq_iff map_add_def domIff split: option.splits)

lemma table_forest_map:
  "(\<And>d. DirId (f d) = DirId d) \<Longrightarrow> table_forest (map f table) = (\<lambda>i. map_option f (table_forest table i))"
  by (induction table) (auto simp: table_forest_def fun_eq_iff)

lemma insert_directory_spec:
  assumes "crdb_inv w" "sql_avail inp" "crdb_view w (in_uuid inp) = None"
    and "\<And>q. Parent (heap w a) = Some q \<Longrightarrow> q \<in> dom (crdb_view w)" "DeletedAt (heap w a) = None"
  shows "\<exists>w'. insert_directory inp a w = (w', Ok a)
    \<and> heap w' a = stored_new inp False (heap w a) \<and> crdb_inv w'
    \<and> crdb_view w' = (crdb_view w)(in_uuid inp \<mapsto> stored_new inp False (heap w a))"
proof -
  let ?d = "default_metadata (heap w a)"
  let ?row = "\<lparr>CreatedAt = in_time1 inp, DeletedAt = None, DirId = in_uuid inp, Metadata = Metadata ?d,
    Name = Name ?d, Parent = Parent ?d, UpdatedAt = in_time1 inp\<rparr>"
  let ?w1 = "write_ptr a ?d w" and ?table = "rows (db w) @ [?row]"
  have new: "stored_new inp False (heap w a) = ?row"
    using assms(5) by (simp add: stored_new_def)
  have fresh: "in_uuid inp \<notin> DirId ` set (rows (db w))"
    using assms(3) table_forest_dom [of "rows (db w)"] by (auto simp: crdb_view_def)
  have parent: "q \<in> DirId ` set (rows (db w)) \<and> q \<noteq> in_uuid inp" if "Parent ?d = Some q" for q
  proof -
    have "q \<in> dom (crdb_view w)" using that assms(4) [of q] by simp
    then have "q \<in> DirId ` set (rows (db w))" unfolding crdb_view_def table_forest_dom .
    with fresh show ?thesis by metis
  qed
  have ins: "sql_insert ?row (rows (db w)) = Inr ?table"
    using fresh parent by (auto simp: sql_insert_def split: option.splits)
  have forest: "table_forest ?table = (crdb_view w)(in_uuid inp \<mapsto> ?row)"
    using table_forest_append [of ?row] fresh by (simp add: crdb_view_def)
  have "table_ok ?table"
    unfolding table_ok_def forest
  proof
    show "distinct (map DirId ?table)"
      using fresh table_ok_distinct [OF crdb_invD(1) [OF assms(1)]] by simp
    show "tree_ok ((crdb_view w)(in_uuid inp \<mapsto> ?row))"
      using assms(3,4) by (intro tree_ok_insert crdb_invD(2) [OF assms(1)]) simp_all
  qed
  then have inv: "crdb_inv (commit ?table ?w1)" using assms(1) by (intro crdb_inv_commit) simp_all
  have "query_row inp [?row] = Inr ?row" "in_fault inp = None"
    using assms(2) by (simp_all add: query_row_avail) (simp add: sql_avail_def)
  then have run: "insert_directory inp a w
      = (write_ptr a (?d\<lparr>DirId := in_uuid inp, CreatedAt := in_time1 inp, UpdatedAt := in_time1 inp\<rparr>)
          (commit ?table ?w1), Ok a)"
    using ins by (simp add: insert_directory_def Let_def world_simps)
  show ?thesis
    unfolding run using inv forest new
    by (auto simp: world_simps crdb_view_commit stored_new_def)
qed

text \<open>An update through any pointer writes name and metadata of the object into the row with its
  identifier, whatever happened to the row since the object was read.\<close>

lemma crdb_update_at:
  assumes "plain t" "crdb_inv w" "sql_avail inp" "DirId (heap w a) = i" "crdb_view w i = Some d0"
  shows "\<exists>w2. crdb_UpdateDirectory t inp (Some a) w = (w2, Ok ())
    \<and> heap w2 = (heap w)(a := stored_update inp (heap w a)) \<and> crdb_inv w2
    \<and> crdb_view w2 = (crdb_view w)(i \<mapsto> d0\<lparr>Name := Name (heap w a),
        Metadata := Metadata (default_metadata (heap w a)), UpdatedAt := in_time1 inp\<rparr>)"
proof -
  note ok = crdb_invD(1) [OF assms(2)] and tree = crdb_invD(2) [OF assms(2)]
  let ?d = "default_metadata (heap w a)"
  let ?row = "d0\<lparr>Name := Name (heap w a), Metadata := Metadata ?d, UpdatedAt := in_time1 inp\<rparr>"
  let ?table = "map (update_row inp ?d) (rows (db w))"
  have id: "DirId d0 = i" by (rule tree_ok_id [OF tree assms(5)])
  have forest: "table_forest ?table = (crdb_view w)(i \<mapsto> ?row)"
  proof
    fix j
    have "update_row inp ?d e = e" if "crdb_view w j = Some e" "j \<noteq> i" for e
      using that assms(4) tree_ok_id [OF tree that(1)] by (simp add: update_row_def)
    then show "table_forest ?table j = ((crdb_view w)(i \<mapsto> ?row)) j"
      using assms(4,5) id by (cases "crdb_view w j"; cases "j = i")
        (simp_all add: table_forest_map update_row_def crdb_view_def)
  qed
  have table: "table_ok ?table"
    unfolding table_ok_def forest
  proof
    have "map DirId ?table = map DirId (rows (db w))" by (simp add: update_row_def o_def)
    then show "distinct (map DirId ?table)" using table_ok_distinct [OF ok] by metis
    show "tree_ok ((crdb_view w)(i \<mapsto> ?row))"
      using id by (intro tree_ok_overwrite [OF tree assms(5)]) simp_all
  qed
  have "filter (\<lambda>row. DirId row = DirId ?d) ?table = [?row]"
    using filter_by_id [OF table_ok_distinct [OF table], of i "\<lambda>_. True"] forest assms(4) id by simp
  moreover have "in_fault inp = None" using assms(3) by (simp add: sql_avail_def)
  ultimately have run: "crdb_UpdateDirectory t inp (Some a) w
      = (write_ptr a (?d\<lparr>UpdatedAt := UpdatedAt ?row\<rparr>) (commit ?table (write_ptr a ?d w)), Ok ())"
    using assms(1) query_row_avail [OF assms(3), of "[?row]"]
    by (simp add: crdb_UpdateDirectory_def plain_def Let_def world_simps del: filter_map)
  have "crdb_inv (commit ?table (write_ptr a ?d w))"
    using table assms(2) by (intro crdb_inv_commit) simp_all
  then show ?thesis
    unfolding run using forest by (simp add: world_simps crdb_view_commit stored_update_def) (simp add: fun_eq_iff write_ptr_def commit_def)
qed

lemma crdb_update_law:
  assumes "plain t" "crdb_inv w" "sql_avail inp" "sql_avail inp'"
    and "crdb_GetDirectory t inp i [] w = (w1, Ok a)" "d = (heap w1 a)\<lparr>Name := n, Metadata := m\<rparr>"
  shows "\<exists>w2. crdb_UpdateDirectory t inp' (Some a) (write_ptr a d w1) = (w2, Ok ())
    \<and> heap w2 a = stored_update inp' d \<and> crdb_inv w2
    \<and> crdb_view w2 = (crdb_view w)(i \<mapsto> stored_update inp' d)"
proof -
  note ok = crdb_invD(1) [OF assms(2)] and tree = crdb_invD(2) [OF assms(2)]
  have "table_ok (formatQuery t inp (db w))" using assms(1) ok by (simp add: formatQuery_plain)
  from crdb_get [OF plain_engine [OF assms(1)] assms(3) this] assms(5) obtain d0 where
    d0: "crdb_view w i = Some d0" "w1 = snd (alloc d0 w)" "a = brk w"
    by (auto simp: formatQuery_plain [OF assms(1)] crdb_view_def split: option.splits if_splits)
  let ?w = "write_ptr a d w1"
  have d: "d = d0\<lparr>Name := n, Metadata := m\<rparr>" and id: "DirId d0 = i"
    using assms(6) d0 by (simp_all add: world_simps tree_ok_id [OF tree])
  have w: "heap ?w a = d" "db ?w = db w" using d0(2) by (simp_all add: world_simps)
  then have "crdb_inv ?w" "crdb_view ?w = crdb_view w" using assms(2) by (simp_all add: crdb_inv_def crdb_view_def)
  from crdb_update_at [OF assms(1) this(1) assms(4), of a i d0] this(2) w(1) d id d0(1)
  show ?thesis by (auto simp: stored_update_def default_metadata_def)
qed

text \<open>The rows that a deletion returns become fresh objects.\<close>

lemma affected_loop_ok:
  "affected_loop (\<lambda>_. RowOk) k rs aff w = (w', r) \<Longrightarrow> (\<forall>a \<in> set aff. a < brk w) \<Longrightarrow>
    db w' = db w \<and> bus w' = bus w \<and> (\<forall>a < brk w. heap w' a = heap w a)
    \<and> (if aff = [] \<and> rs = [] then r = Err ErrDirectoryNotFound
       else \<exists>as. r = Ok (aff @ as) \<and> map (heap w') as = rs)"
proof (induction rs arbitrary: k aff w)
  case (Cons row rs)
  let ?w1 = "snd (alloc row w)"
  have "affected_loop (\<lambda>_. RowOk) (Suc k) rs (aff @ [brk w]) ?w1 = (w', r)"
    using Cons.prems(1) by (simp add: alloc_def)
  moreover have "\<forall>a \<in> set (aff @ [brk w]). a < brk ?w1"
    using Cons.prems(2) by (auto simp: world_simps less_SucI)
  ultimately have IH: "db w' = db ?w1" "bus w' = bus ?w1" "\<forall>a < brk ?w1. heap w' a = heap ?w1 a"
    "\<exists>as. r = Ok ((aff @ [brk w]) @ as) \<and> map (heap w') as = rs"
    using Cons.IH by fastforce+
  from IH(3) have "heap w' (brk w) = row" by (simp add: world_simps)
  moreover from IH(4) obtain as where "r = Ok ((aff @ [brk w]) @ as)" "map (heap w') as = rs" by blast
  moreover have "heap w' a = heap w a" if "a < brk w" for a
    using IH(3) that by (simp add: world_simps)
  ultimately show ?case using IH(1,2) by (auto simp: world_simps intro!: exI [of _ "brk w # as"])
qed (auto split: if_splits)

lemma crdb_delete_law:
  assumes "plain t" "crdb_inv w" "sql_avail inp" "live_child (crdb_view w) i"
  shows "\<exists>w' ps. crdb_DeleteDirectory t inp i w = (w', Ok ps) \<and> crdb_inv w'
    \<and> distinct (map (\<lambda>a. DirId (heap w' a)) ps)
    \<and> set (map (\<lambda>a. DirId (heap w' a)) ps) = subtree (crdb_view w) i
    \<and> crdb_view w' = mark_deleted (subtree (crdb_view w) i) (in_time1 inp) (crdb_view w)"
proof -
  let ?table = "rows (db w)" and ?scan = "scan_rows (conn t) (rows (db w))"
  let ?F = "table_forest (rows (db w))"
  note eng = plain_engine [OF assms(1)] and ok = crdb_invD(1) [OF assms(2)]
  note scan = scan_table [OF eng ok] and tree = table_ok_tree [OF ok]
  note some = table_forest_Some [OF table_ok_distinct [OF ok]]
  obtain d where d: "?F i = Some d" "DeletedAt d = None" "Parent d \<noteq> None"
    using assms(4) by (auto simp: live_child_def crdb_view_def)
  have id: "DirId d = i" using d(1) some by simp
  have "table_forest ?scan i = Some d" using d(1) scan(2) by simp
  from query_descendants [where pr = "\<lambda>d. (DirId d, Parent d)" and key = fst, OF scan(1) _ this set_delete_step]
  obtain rest where rest: "recursive_query (delete_step ?scan) [(DirId d, Parent d)] = Some ((DirId d, Parent d) # rest)"
    "set (map fst rest) = descendants ?F False i" using scan(2) by auto
  have start: "delete_start ?scan i = [(DirId d, Parent d)]"
    using d scan(2) by (simp add: delete_start_eq [OF scan(1)])
  let ?hit = "\<lambda>e. DeletedAt e = None \<and> DirId e \<in> subtree ?F i"
  let ?mark = "\<lambda>e. e\<lparr>DeletedAt := Some (in_time1 inp)\<rparr>"
  let ?new = "map (\<lambda>e. if ?hit e then ?mark e else e) ?table"
  have ids: "fst ` set ((DirId d, Parent d) # rest) = subtree ?F i"
    using rest(2) id by (simp add: subtree_def)
  have live: "DeletedAt e = None" if "?F j = Some e" "j \<in> subtree ?F i" for j e
    using that d by (auto simp: subtree_def descendants_def visible_def dest: descends_visible)
  have forest: "table_forest ?new = mark_deleted (subtree ?F i) (in_time1 inp) ?F"
    using live tree_ok_id [OF tree]
    by (subst table_forest_map) (auto simp: mark_deleted_def fun_eq_iff map_option_case split: option.splits)
  have "table_ok ?new"
    unfolding table_ok_def forest
  proof
    have "map DirId ?new = map DirId ?table" by simp
    then show "distinct (map DirId ?new)" using table_ok_distinct [OF ok] by metis
    show "tree_ok (mark_deleted (subtree ?F i) (in_time1 inp) ?F)" using tree by (rule tree_ok_mark_deleted)
  qed
  then have inv: "crdb_inv (commit ?new w)" using assms(2) by (rule crdb_inv_commit [rotated])
  let ?aff = "map ?mark (filter ?hit ?scan)"
  have "in_fault inp = None" "in_row inp = (\<lambda>_. RowOk)"
    using assms(3) by (simp_all add: sql_avail_def rows_ok_def)
  then have run: "crdb_DeleteDirectory t inp i w = affected_loop (\<lambda>_. RowOk) 0 ?aff [] (commit ?new w)"
    by (simp only: crdb_DeleteDirectory_def Let_def rest(1) start ids option.case)
  have "d \<in> set ?scan" "?hit d" using d(1,2) id some by (simp_all add: set_scan [OF eng] subtree_def)
  then have "?aff \<noteq> []" by (auto simp: filter_empty_conv)
  moreover obtain w' r where w': "affected_loop (\<lambda>_. RowOk) 0 ?aff [] (commit ?new w) = (w', r)"
    by (rule prod.exhaust)
  ultimately obtain ps where ps: "r = Ok ps" "map (heap w') ps = ?aff" "db w' = db (commit ?new w)"
    using affected_loop_ok [OF w'] by auto
  have heap: "map (\<lambda>a. DirId (heap w' a)) ps = map DirId (filter ?hit ?scan)"
  proof -
    have "map (\<lambda>a. DirId (heap w' a)) ps = map DirId (map (heap w') ps)" by simp
    then show ?thesis unfolding ps(2) by simp
  qed
  show ?thesis
  proof (intro exI conjI)
    show "crdb_DeleteDirectory t inp i w = (w', Ok ps)" using run w' ps(1) by simp
    show "crdb_inv w'" using inv ps(3) by (simp add: crdb_inv_def)
    show "crdb_view w' = mark_deleted (subtree (crdb_view w) i) (in_time1 inp) (crdb_view w)"
      using forest ps(3) by (simp add: crdb_view_def commit_def)
    have "distinct (map DirId ?scan)" using table_ok_distinct [OF scan(1)] .
    then show "distinct (map (\<lambda>a. DirId (heap w' a)) ps)" unfolding heap by (simp add: distinct_map inj_on_def)
    have "j \<in> DirId ` {e \<in> set ?table. ?hit e}" if "j \<in> subtree ?F i" for j
    proof -
      have "j \<in> dom ?F" using that d(1) descendants_subset_dom by (fastforce simp: subtree_def)
      then obtain e where "?F j = Some e" by blast
      with live that some show ?thesis by (auto simp: image_iff)
    qed
    then have "DirId ` {e \<in> set ?table. ?hit e} = subtree ?F i" by auto
    then show "set (map (\<lambda>a. DirId (heap w' a)) ps) = subtree (crdb_view w) i"
      unfolding heap by (simp add: set_scan [OF eng] crdb_view_def)
  qed
qed

lemma crdb_delete_missing:
  assumes "plain t" "crdb_inv w" "sql_avail inp" "\<not> live_child (crdb_view w) i"
  shows "crdb_DeleteDirectory t inp i w = (commit (rows (db w)) w, Err ErrDirectoryNotFound)"
proof -
  note eng = plain_engine [OF assms(1)] and ok = crdb_invD(1) [OF assms(2)]
  note scan = scan_table [OF eng ok]
  have "delete_start (scan_rows (conn t) (rows (db w))) i = []"
    using assms(4) by (auto simp: delete_start_eq [OF scan(1)] scan(2) live_child_def crdb_view_def split: option.splits)
  moreover have "in_fault inp = None" "in_row inp = (\<lambda>_. RowOk)"
    using assms(3) by (simp_all add: sql_avail_def rows_ok_def)
  ultimately show ?thesis by (simp add: crdb_DeleteDirectory_def)
qed


section \<open>The contract\<close>

lemma crdb_cascading:
  assumes "plain t" shows "cascading_store (crdb_admin t) crdb_inv crdb_view sql_avail"
proof (unfold_locales, goal_cases)
  case (4 w inp i d options)
  then show ?case
    using crdb_get [OF plain_engine [OF assms] 4(2), of w i options] crdb_invD(1) [OF 4(1)]
    by (intro exI [of _ "snd (alloc d w)"] exI [of _ "brk w"])
      (simp add: formatQuery_plain [OF assms] crdb_view_def world_simps)
next
  case (5 w inp i options)
  then show ?case
    using crdb_get [OF plain_engine [OF assms] 5(2), of w i options] crdb_invD(1) [OF 5(1)]
    by (auto simp: formatQuery_plain [OF assms] crdb_view_def split: option.splits)
next
  case (6 w i d dels)
  then show ?case using crdb_children_law [OF assms, of w i d dels] by simp
next
  case (7 w dels i ps)
  then obtain d where "crdb_view w i = Some d" "visible dels d" by (auto elim: parent_chain.cases)
  with 7 show ?case
    using crdb_parents_eq [OF assms 7(1) _ _ parent_chain_climb [OF 7(2)]] by (intro exI [of _ ps]) simp
next
  case (8 w dels i ps anc)
  then obtain d where d: "crdb_view w i = Some d" "visible dels d" by (auto elim: parent_chain.cases)
  have "i \<noteq> anc" using parent_chain_distinct [OF crdb_invD(2) [OF 8(1)] 8(2)] 8(3) by auto
  with d 8 show ?case
    using crdb_until_eq [OF assms 8(1) _ _ _ parent_chain_climb_until [OF 8(2,3)]]
    by (intro exI [of _ "takeWhile (\<lambda>p. p \<noteq> anc) ps @ [anc]"]) simp
next
  case (9 w dels)
  then show ?case using crdb_roots_law [OF assms, of w dels] by simp
next
  case (14 w inp d)
  then show ?case
    using insert_directory_spec [of "snd (alloc d w)" inp "fst (alloc d w)"] assms
    by (auto simp: crdb_CreateRoot_def plain_def world_simps)
next
  case (15 w inp d q)
  then show ?case
    using insert_directory_spec [of "snd (alloc d w)" inp "fst (alloc d w)"] assms
    by (auto simp: crdb_CreateDirectory_def plain_def world_simps)
next
  case (16 w inp inp' i w1 a d n m)
  then show ?case using crdb_update_law [OF assms 16(1-3)] by simp
next
  case (17 w inp i)
  then show ?case using crdb_delete_law [OF assms 17(1,2,3)] by (fastforce simp: subtree_def)
next
  case (18 w inp i)
  then have "table_ok (rows (db w))" by (simp add: crdb_invD)
  with 18 show ?case
    by (simp add: crdb_delete_missing [OF assms 18(1,2,3)] crdb_view_commit crdb_inv_commit)
      (simp add: crdb_view_def)
next
  case (19 w inp i)
  then show ?case using crdb_delete_law [OF assms 19(1,2,3)] by simp
qed (simp_all add: crdb_invD)

text \<open>
  A database that scans its tables along some index and streams the rows of a recursive query
  as they are produced.
\<close>

definition index_scan :: "(directory \<Rightarrow> 'k::linorder) \<Rightarrow> sql_engine" where
  "index_scan f = \<lparr>scan_rows = sort_key f, emit_ids = (\<lambda>ids. ids)\<rparr>"

abbreviation crdb_on :: "(directory \<Rightarrow> 'k::linorder) \<Rightarrow> crdb_driver" where
  "crdb_on f \<equiv> crdb_NewDirectoryDriver (index_scan f) []"

lemma engine_ok_index_scan [simp]: "engine_ok (index_scan f)"
  by (simp add: engine_ok_def index_scan_def)

lemma plain_crdb_on [simp]: "plain (crdb_on f)"
  by (simp add: plain_def crdb_NewDirectoryDriver_def)

interpretation crdb: cascading_store "crdb_admin (crdb_on f)" crdb_inv crdb_view sql_avail
  for f :: "directory \<Rightarrow> 'k::linorder"
  by (rule crdb_cascading) simp

end
