(* ===== verification/Store_Runs.thy ===== *)
theory Store_Runs
  imports Storage_Contract
begin

text \<open>
  Sequences of operations on a directory store, and when two stores cannot be told apart.

  \<^item> \<open>perform\<close> runs one operation the way the tree manager does: an update reads the directory,
    assigns the fields and writes it back. \<open>runs\<close> folds it over a sequence.
  \<^item> \<open>runs_ok\<close> are the sequences on which the drivers promise the same: identifiers are fresh,
    parents exist, and a deletion meets at most ten live descendants.
  \<^item> \<open>agreeing_stores\<close>: two directory stores that stamp new directories alike; \<open>runs_agree\<close> is the
    simulation between them.
\<close>

datatype store_op =
    OpGet directory_id "storage_option list"
  | OpCreate directory
  | OpRoot directory
  | OpUpdate directory_id string "directory_metadata option"
  | OpDelete directory_id

datatype store_answer = Found directory | Removed "directory_id set"

definition answer_of :: "('db, 'bus) world \<times> addr outcome \<Rightarrow> ('db, 'bus) world \<times> store_answer outcome" where
  "answer_of r = handle r (\<lambda>w e. (w, Err e)) (\<lambda>w a. (w, Ok (Found (heap w a))))"

fun perform :: "('db, 'bus) directory_admin \<Rightarrow> inputs \<Rightarrow> store_op \<Rightarrow> ('db, 'bus) world
    \<Rightarrow> ('db, 'bus) world \<times> store_answer outcome" where
  "perform T inp (OpGet i options) w = answer_of (GetDirectory T inp i options w)"
| "perform T inp (OpCreate d) w =
     (let (a, w) = alloc d w in answer_of (CreateDirectory T inp a w))"
| "perform T inp (OpRoot d) w =
     (let (a, w) = alloc d w in answer_of (CreateRoot T inp a w))"
| "perform T inp (OpUpdate i n m) w =
     handle (GetDirectory T inp i [] w) (\<lambda>w e. (w, Err e)) (\<lambda>w a.
       handle (UpdateDirectory T inp (Some a) (write_ptr a ((heap w a)\<lparr>Name := n, Metadata := m\<rparr>) w))
         (\<lambda>w e. (w, Err e)) (\<lambda>w _. (w, Ok (Found (heap w a)))))"
| "perform T inp (OpDelete i) w =
     handle (DeleteDirectory T inp i w) (\<lambda>w e. (w, Err e))
       (\<lambda>w ps. (w, Ok (Removed ((\<lambda>a. DirId (heap w a)) ` set ps))))"

fun runs :: "('db, 'bus) directory_admin \<Rightarrow> (inputs \<times> store_op) list \<Rightarrow> ('db, 'bus) world
    \<Rightarrow> ('db, 'bus) world \<times> store_answer outcome list" where
  "runs T [] w = (w, [])"
| "runs T ((inp, op) # ops) w =
     (let (w1, r) = perform T inp op w; (w2, rs) = runs T ops w1 in (w2, r # rs))"

fun op_ok :: "forest \<Rightarrow> inputs \<Rightarrow> store_op \<Rightarrow> bool" where
  "op_ok F inp (OpCreate d) \<longleftrightarrow> F (in_uuid inp) = None \<and> DeletedAt d = None
     \<and> (case Parent d of None \<Rightarrow> False | Some q \<Rightarrow> F q \<noteq> None)"
| "op_ok F inp (OpRoot d) \<longleftrightarrow> F (in_uuid inp) = None \<and> DeletedAt d = None \<and> Parent d = None"
| "op_ok F inp (OpDelete i) \<longleftrightarrow> live_child F i \<longrightarrow> card (descendants F False i) \<le> 10"
| "op_ok F inp op \<longleftrightarrow> True"

fun runs_ok :: "('db, 'bus) directory_admin \<Rightarrow> (('db, 'bus) world \<Rightarrow> forest)
    \<Rightarrow> (inputs \<times> store_op) list \<Rightarrow> ('db, 'bus) world \<Rightarrow> bool" where
  "runs_ok T view [] w \<longleftrightarrow> True"
| "runs_ok T view ((inp, op) # ops) w \<longleftrightarrow>
     op_ok (view w) inp op \<and> runs_ok T view ops (fst (perform T inp op w))"

locale agreeing_stores =
  A: directory_store T inv view avail + B: directory_store T' inv' view' avail'
  for T :: "('db, 'bus) directory_admin" and inv view avail
    and T' :: "('db2, 'bus2) directory_admin" and inv' view' avail'
begin

definition alike :: "('db, 'bus) world \<Rightarrow> ('db2, 'bus2) world \<Rightarrow> bool" where
  "alike w v \<longleftrightarrow> inv w \<and> inv' v \<and> view w = view' v"

definition both :: "inputs \<Rightarrow> bool" where
  "both inp \<longleftrightarrow> avail inp \<and> avail' inp \<and> in_time2 inp = in_time1 inp"

lemma get_agree:
  assumes "alike w v" "both inp"
  shows "\<exists>w1 v1 r. perform T inp (OpGet i options) w = (w1, r)
    \<and> perform T' inp (OpGet i options) v = (v1, r) \<and> alike w1 v1"
proof (cases "\<exists>d. view w i = Some d \<and> visible (WithDeleted (BuildOptions options)) d")
  case True
  then obtain d where d: "view w i = Some d" "visible (WithDeleted (BuildOptions options)) d" by blast
  with assms A.get_found [of w inp i d options] B.get_found [of v inp i d options]
  show ?thesis by (auto simp: alike_def both_def answer_of_def)
next
  case False
  with assms A.get_missing [of w inp i options] B.get_missing [of v inp i options]
  show ?thesis by (auto simp: alike_def both_def answer_of_def)
qed

lemma create_agree:
  assumes "alike w v" "both inp" "op_ok (view w) inp (OpCreate d)"
  shows "\<exists>w1 v1 r. perform T inp (OpCreate d) w = (w1, r)
    \<and> perform T' inp (OpCreate d) v = (v1, r) \<and> alike w1 v1"
proof -
  obtain q where q: "Parent d = Some q" "q \<in> dom (view w)" "view w (in_uuid inp) = None" "DeletedAt d = None"
    using assms(3) by (auto split: option.splits)
  have inv: "inv w" "inv' v" "avail inp" "avail' inp" "in_time2 inp = in_time1 inp" "view' v = view w"
    using assms(1,2) by (simp_all add: alike_def both_def)
  obtain w1 p t where A: "CreateDirectory T inp (fst (alloc d w)) (snd (alloc d w)) = (w1, Ok p)"
    "heap w1 p = stored_new inp t d" "inv w1" "view w1 = (view w)(in_uuid inp \<mapsto> stored_new inp t d)"
    using A.create_directory [OF inv(1,3) q(3,1,2,4)] by blast
  obtain v1 p' t' where B: "CreateDirectory T' inp (fst (alloc d v)) (snd (alloc d v)) = (v1, Ok p')"
    "heap v1 p' = stored_new inp t' d" "inv' v1" "view' v1 = (view' v)(in_uuid inp \<mapsto> stored_new inp t' d)"
    using B.create_directory [OF inv(2,4), of d q] q inv(6) by auto
  have "stored_new inp t d = stored_new inp t' d" using inv(5) by (simp add: stored_new_def)
  with A B inv(6) show ?thesis by (auto simp: answer_of_def alike_def case_prod_unfold)
qed

lemma root_agree:
  assumes "alike w v" "both inp" "op_ok (view w) inp (OpRoot d)"
  shows "\<exists>w1 v1 r. perform T inp (OpRoot d) w = (w1, r)
    \<and> perform T' inp (OpRoot d) v = (v1, r) \<and> alike w1 v1"
proof -
  have q: "Parent d = None" "view w (in_uuid inp) = None" "DeletedAt d = None" using assms(3) by simp_all
  have inv: "inv w" "inv' v" "avail inp" "avail' inp" "in_time2 inp = in_time1 inp" "view' v = view w"
    using assms(1,2) by (simp_all add: alike_def both_def)
  obtain w1 p t where A: "CreateRoot T inp (fst (alloc d w)) (snd (alloc d w)) = (w1, Ok p)"
    "heap w1 p = stored_new inp t d" "inv w1" "view w1 = (view w)(in_uuid inp \<mapsto> stored_new inp t d)"
    using A.create_root [OF inv(1,3) q(2,1,3)] by blast
  obtain v1 p' t' where B: "CreateRoot T' inp (fst (alloc d v)) (snd (alloc d v)) = (v1, Ok p')"
    "heap v1 p' = stored_new inp t' d" "inv' v1" "view' v1 = (view' v)(in_uuid inp \<mapsto> stored_new inp t' d)"
    using B.create_root [OF inv(2,4), of d] q inv(6) by auto
  have "stored_new inp t d = stored_new inp t' d" using inv(5) by (simp add: stored_new_def)
  with A B inv(6) show ?thesis by (auto simp: answer_of_def alike_def case_prod_unfold)
qed

lemma update_agree:
  assumes "alike w v" "both inp"
  shows "\<exists>w1 v1 r. perform T inp (OpUpdate i n m) w = (w1, r)
    \<and> perform T' inp (OpUpdate i n m) v = (v1, r) \<and> alike w1 v1"
proof -
  have inv: "inv w" "inv' v" "avail inp" "avail' inp" "view' v = view w"
    using assms by (simp_all add: alike_def both_def)
  show ?thesis
  proof (cases "\<exists>d. view w i = Some d \<and> DeletedAt d = None")
    case True
    then obtain d where d: "view w i = Some d" "visible (WithDeleted (BuildOptions [])) d"
      by (auto simp: visible_def)
    obtain w1 a where A: "GetDirectory T inp i [] w = (w1, Ok a)" "heap w1 a = d"
      using A.get_found [OF inv(1,3) d] by blast
    obtain v1 b where B: "GetDirectory T' inp i [] v = (v1, Ok b)" "heap v1 b = d"
      using B.get_found [OF inv(2,4), of i d "[]"] d inv(5) by auto
    let ?d = "d\<lparr>Name := n, Metadata := m\<rparr>"
    from A.update_directory [OF inv(1,3,3) A(1), of ?d m n] A(2) obtain w2 where
      "UpdateDirectory T inp (Some a) (write_ptr a ?d w1) = (w2, Ok ())" "heap w2 a = stored_update inp ?d"
      "inv w2" "view w2 = (view w)(i \<mapsto> stored_update inp ?d)" by auto
    moreover from B.update_directory [OF inv(2,4,4) B(1), of ?d m n] B(2) obtain v2 where
      "UpdateDirectory T' inp (Some b) (write_ptr b ?d v1) = (v2, Ok ())" "heap v2 b = stored_update inp ?d"
      "inv' v2" "view' v2 = (view' v)(i \<mapsto> stored_update inp ?d)" by auto
    ultimately show ?thesis using A B inv(5) by (auto simp: alike_def)
  next
    case False
    then have miss: "\<not> visible (WithDeleted (BuildOptions [])) d" if "view w i = Some d" for d
      using that by (auto simp: visible_def)
    obtain w1 where "GetDirectory T inp i [] w = (w1, Err ErrDirectoryNotFound)" "view w1 = view w" "inv w1"
      using A.get_missing [OF inv(1,3) miss] by blast
    moreover obtain v1 where "GetDirectory T' inp i [] v = (v1, Err ErrDirectoryNotFound)"
      "view' v1 = view' v" "inv' v1"
      using B.get_missing [OF inv(2,4), of i "[]"] miss inv(5) by auto
    ultimately show ?thesis using inv(5) by (auto simp: alike_def)
  qed
qed

lemma delete_agree:
  assumes "alike w v" "both inp" "op_ok (view w) inp (OpDelete i)"
  shows "\<exists>w1 v1 r. perform T inp (OpDelete i) w = (w1, r)
    \<and> perform T' inp (OpDelete i) v = (v1, r) \<and> alike w1 v1"
proof -
  have inv: "inv w" "inv' v" "avail inp" "avail' inp" "view' v = view w"
    using assms by (simp_all add: alike_def both_def)
  show ?thesis
  proof (cases "live_child (view w) i")
    case True
    then have "card (descendants (view w) False i) \<le> 10" using assms(3) by simp
    moreover obtain w1 ps I where "DeleteDirectory T inp i w = (w1, Ok ps)" "inv w1"
      "set (map (\<lambda>a. DirId (heap w1 a)) ps) = I" "view w1 = mark_deleted I (in_time1 inp) (view w)"
      "card (descendants (view w) False i) \<le> 10 \<longrightarrow> I = subtree (view w) i"
      using A.delete_directory [OF inv(1,3) True] by metis
    moreover obtain v1 ps' I' where "DeleteDirectory T' inp i v = (v1, Ok ps')" "inv' v1"
      "set (map (\<lambda>a. DirId (heap v1 a)) ps') = I'" "view' v1 = mark_deleted I' (in_time1 inp) (view' v)"
      "card (descendants (view' v) False i) \<le> 10 \<longrightarrow> I' = subtree (view' v) i"
      using B.delete_directory [OF inv(2,4), of i] True inv(5) by metis
    ultimately show ?thesis using inv(5) by (auto simp: alike_def)
  next
    case False
    with A.delete_missing [OF inv(1,3), of i] B.delete_missing [OF inv(2,4), of i] inv(5)
    show ?thesis by (auto simp: alike_def)
  qed
qed

lemma perform_agree:
  "alike w v \<Longrightarrow> both inp \<Longrightarrow> op_ok (view w) inp op \<Longrightarrow>
    \<exists>w1 v1 r. perform T inp op w = (w1, r) \<and> perform T' inp op v = (v1, r) \<and> alike w1 v1"
  by (cases op) (simp_all only: get_agree create_agree root_agree update_agree delete_agree)

text \<open>The same operations get the same answers, and leave worlds that stand for the same forest.\<close>

lemma runs_agree:
  "alike w v \<Longrightarrow> (\<And>inp op. (inp, op) \<in> set ops \<Longrightarrow> both inp) \<Longrightarrow> runs_ok T view ops w \<Longrightarrow>
    snd (runs T ops w) = snd (runs T' ops v) \<and> alike (fst (runs T ops w)) (fst (runs T' ops v))"
proof (induction ops arbitrary: w v)
  case (Cons io ops)
  obtain inp op where io: "io = (inp, op)" by (rule prod.exhaust)
  have "both inp" "op_ok (view w) inp op" using Cons.prems(2,3) io by auto
  from perform_agree [OF Cons.prems(1) this] obtain w1 v1 r where
    one: "perform T inp op w = (w1, r)" "perform T' inp op v = (v1, r)" "alike w1 v1" by blast
  moreover have "runs_ok T view ops w1" using Cons.prems(3) io one(1) by simp
  ultimately have "snd (runs T ops w1) = snd (runs T' ops v1)
      \<and> alike (fst (runs T ops w1)) (fst (runs T' ops v1))"
    using Cons.IH [of w1 v1] Cons.prems(2) by auto
  with one io show ?case by (simp add: case_prod_unfold Let_def)
qed simp

end

end
