(* ===== verification/Crdb_Service.thy ===== *)
theory Crdb_Service
  imports Crdb_Contract Store_Runs Treemanager_Laws
begin

text \<open>
  The CockroachDB driver in its places: behind the notifier with its retrier, where it is again
  a directory store (\<open>crdb_noop\<close>), and beside the in-memory driver, from which no sequence of
  operations can tell it apart (\<open>memory_crdb\<close>).
\<close>

interpretation crdb_noop: reliable_store "crdb_admin (crdb_on f)" crdb_inv crdb_view sql_avail
    noop_NewNotifier "attempts n"
  for f :: "directory \<Rightarrow> 'k::linorder" and n ..

lemma memory_crdb_agree:
  assumes "plain t"
  shows "agreeing_stores memory_driver mem_inv mem_view (\<lambda>_. True) (crdb_admin t) crdb_inv crdb_view sql_avail"
  by (intro agreeing_stores.intro mem.directory_store_axioms cascading_store.axioms(1) [OF crdb_cascading [OF assms]])

interpretation memory_crdb: agreeing_stores memory_driver mem_inv mem_view "\<lambda>_. True"
    "crdb_admin (crdb_on f)" crdb_inv crdb_view sql_avail
  for f :: "directory \<Rightarrow> 'k::linorder"
  by (rule memory_crdb_agree) simp

end
