(* ===== verification/Http_Service.thy ===== *)
theory Http_Service
  imports Http_Wire Crdb_Service
begin

text \<open>
  The client over the server over a store. \<open>json_wire\<close> is the contract of the libraries on both
  ends; \<open>served_store\<close> adds a store that keeps its own contract, and shows for each method of the
  client what it returns. The interpretations connect the client to both drivers.
\<close>

section \<open>The contract of the wire\<close>

locale json_wire =
  fixes L :: "'j client_libs" and S :: "'j server_libs" and p :: "string \<Rightarrow> uuid option"
  assumes plain_ids: "plain_ids L"
    and parse_id: "p (uuid_String L u) = Some u"
    and create_text: "json_create r \<Longrightarrow> \<exists>b. encode_create L r = Inr b \<and> bind_create S (Some b) = Inr r"
    and update_text: "json_update v \<Longrightarrow> \<exists>b. encode_update L v = Inr b \<and> bind_update S (Some b) = Inr v"
    and fetch_text: "json_directory (fetch_Directory f) \<Longrightarrow> json_text (fetch_Version f) \<Longrightarrow>
      decode_fetch L (encode_body S (FetchBody f), None) = Inr f"
    and list_text: "json_list l \<Longrightarrow> decode_list L (encode_body S (ListBody l), None) = Inr l"
begin

lemma parse_id_text: "p (id_text L i) = Some (uuid_of i)"
  by (simp add: DirectoryID_String_def parse_id)

lemma read_fetch:
  assumes "json_directory d"
  shows "read_answer what code (decode_fetch L) (w, Ok (wire_answer S (fetch_response code d)))
    = (w, Ok \<lparr>fetch_Directory = d, fetch_Version = APIVersion\<rparr>)"
  using assms fetch_text [of "\<lparr>fetch_Directory = d, fetch_Version = APIVersion\<rparr>"]
  by (simp add: read_answer_def fetch_response_def wire_answer_def APIVersion_def)

lemma read_list:
  assumes "direct peer"
  shows "\<exists>l. read_answer what 200 (decode_list L)
      (w, Ok (wire_answer S (list_response ((wire_request S peer path vs data)\<lparr>req_id := i, req_until := v\<rparr>) options ids)))
      = (w, Ok l) \<and> list_Directories l = ids
    \<and> (Next (list_Links l) \<noteq> None \<longleftrightarrow> int (length ids) = sint (GetPageSize (BuildOptions options)))"
proof -
  have "(wire_request S peer path vs data)\<lparr>req_id := i, req_until := v\<rparr>
      = wire_request S (peer\<lparr>req_id := i, req_until := v\<rparr>) path vs data"
    by (simp add: wire_request_def)
  moreover have "direct (peer\<lparr>req_id := i, req_until := v\<rparr>)" using assms by (simp add: direct_def)
  ultimately obtain l where l: "list_response ((wire_request S peer path vs data)\<lparr>req_id := i, req_until := v\<rparr>) options ids
      = Response 200 (ListBody l)" "json_list l" "list_Directories l = ids"
      "Next (list_Links l) \<noteq> None \<longleftrightarrow> int (length ids) = sint (GetPageSize (BuildOptions options))"
    using json_list_response by metis
  then show ?thesis using list_text [OF l(2)] by (simp add: read_answer_def wire_answer_def)
qed

lemma read_answer_world: "fst (read_answer what code dec (w, Ok a)) = w"
  by (simp add: read_answer_def split: sum.splits)

lemma read_refusal:
  "code \<noteq> code' \<Longrightarrow> read_answer what code dec (w, Ok (wire_answer S (Response code' b)))
    = (w, Err (ErrText (what @ '': '' @ status_line S code')))"
  by (simp add: read_answer_def wire_answer_def)

lemma route_dir:
  "find_route ''GET'' (dir_path L i []) = Some (R_get (id_text L i))"
  "find_route ''POST'' (dir_path L i []) = Some (R_create (id_text L i))"
  "find_route ''PATCH'' (dir_path L i []) = Some (R_update (id_text L i))"
  "find_route ''DELETE'' (dir_path L i []) = Some (R_delete (id_text L i))"
  "find_route ''GET'' (dir_path L i [''children'']) = Some (R_children (id_text L i))"
  "find_route ''GET'' (dir_path L i [''parents'']) = Some (R_parents (id_text L i))"
  "find_route ''GET'' (dir_path L i [''parents'', id_text L j]) = Some (R_until (id_text L i) (id_text L j))"
  "find_route ''GET'' (api_path [''roots'']) = Some R_listRoots"
  "find_route ''POST'' (api_path [''roots'']) = Some R_createRoot"
  by (simp_all add: find_route_def api_path_def)

lemma send_route:
  assumes "segs \<noteq> []" "\<forall>s \<in> set segs. segment s" "find_route meth segs = Some rt"
  shows "send (connect u S peer T p inps) meth segs vs data w
    = carry_back S (serve T p (\<lambda>req. None) inps rt (wire_request S peer (segs_path segs) vs data) w)"
  by (simp add: send_connect [OF assms(1,2)] newHandler_def assms(3))

lemma send_dir:
  assumes "\<forall>s \<in> set segs. segment s" "find_route meth (dir_path L i segs) = Some rt"
  shows "send (connect u S peer T p inps) meth (dir_path L i segs) vs data w
    = carry_back S (serve T p (\<lambda>req. None) inps rt (wire_request S peer (segs_path (dir_path L i segs)) vs data) w)"
  using assms segment_id_text [OF plain_ids, of i] by (intro send_route) auto

end

section \<open>The client over a store\<close>

locale served_store = json_wire L S p + directory_store T inv view avail
  for L :: "'j client_libs" and S :: "'j server_libs" and p :: "string \<Rightarrow> uuid option"
    and T :: "('db, 'bus) directory_admin" and inv view avail
begin

lemma parse_dir: "ParseDirectoryID p (id_text L i) = Inr i"
  by (simp add: ParseDirectoryID_def parse_id_text)

lemma client_get:
  assumes "origin_ok u" "inv w" "\<And>k. avail (inps k)" "view w i = Some d"
    and "visible (WithDeleted (BuildOptions options)) d" "json_directory d"
  shows "\<exists>w'. http_GetDirectory L (connect u S peer T p inps) i options w
      = (w', Ok \<lparr>fetch_Directory = d, fetch_Version = APIVersion\<rparr>) \<and> view w' = view w \<and> inv w'"
proof -
  obtain opts where opts: "storageOptionsFromGetQuery (map_of (options_values options)) = Inr opts"
    "BuildOptions opts = effective (BuildOptions options)" by (rule options_read)
  let ?req = "(wire_request S peer (segs_path (dir_path L i [])) (options_values options) None)\<lparr>req_id := id_text L i\<rparr>"
  obtain w' where w': "getDirectory T p inps ?req w = (w', Ok (fetch_response 200 d))" "view w' = view w" "inv w'"
    using server_get_found [where inps = inps and uuid_Parse = p and req = ?req and options = opts
        and u = "uuid_of i" and d = d, OF assms(2,3)] opts parse_id_text assms(4,5)
    by (auto simp: wire_request_def)
  have "http_GetDirectory L (connect u S peer T p inps) i options w
      = (w', Ok \<lparr>fetch_Directory = d, fetch_Version = APIVersion\<rparr>)"
    using assms(1,6) w'(1)
    by (simp add: http_GetDirectory_send plain_ids send_dir [OF _ route_dir(1)] read_fetch)
  with w'(2,3) show ?thesis by blast
qed

lemma client_get_missing:
  assumes "origin_ok u" "inv w" "\<And>k. avail (inps k)"
    and "\<And>d. view w i = Some d \<Longrightarrow> \<not> visible (WithDeleted (BuildOptions options)) d"
  shows "\<exists>w'. http_GetDirectory L (connect u S peer T p inps) i options w
      = (w', Err (ErrText (''error getting directory: '' @ status_line S 404))) \<and> view w' = view w \<and> inv w'"
proof -
  obtain opts where opts: "storageOptionsFromGetQuery (map_of (options_values options)) = Inr opts"
    "BuildOptions opts = effective (BuildOptions options)" by (rule options_read)
  let ?req = "(wire_request S peer (segs_path (dir_path L i [])) (options_values options) None)\<lparr>req_id := id_text L i\<rparr>"
  obtain w' where w': "getDirectory T p inps ?req w = (w', Ok (not_found ''directory not found''))"
    "view w' = view w" "inv w'"
    using server_get_missing [where inps = inps and uuid_Parse = p and req = ?req and options = opts
        and u = "uuid_of i", OF assms(2,3)] opts parse_id_text assms(4)
    by (auto simp: wire_request_def)
  have "http_GetDirectory L (connect u S peer T p inps) i options w
      = (w', Err (ErrText (''error getting directory: '' @ status_line S 404)))"
    using assms(1) w'(1)
    by (simp add: http_GetDirectory_send plain_ids send_dir [OF _ route_dir(1)] not_found_def read_refusal)
  with w'(2,3) show ?thesis by blast
qed

lemma client_children:
  assumes "origin_ok u" "direct peer" "inv w" "\<And>k. avail (inps k)" "view w i = Some d"
    and "visible (WithDeleted (BuildOptions options)) d" "page_in_range (BuildOptions options)"
  shows "\<exists>w' l cs. http_GetChildren L (connect u S peer T p inps) i options w = (w', Ok l)
    \<and> list_Directories l = page_of (BuildOptions options) cs
    \<and> distinct cs \<and> set cs = descendants (view w) (WithDeleted (BuildOptions options)) i
    \<and> (Next (list_Links l) \<noteq> None \<longleftrightarrow> int (length (list_Directories l)) = sint (GetPageSize (BuildOptions options)))
    \<and> view w' = view w \<and> inv w'"
proof -
  obtain opts where opts: "storageOptionsFromGetQuery (map_of (options_values options)) = Inr opts"
    "BuildOptions opts = effective (BuildOptions options)" by (rule options_read)
  let ?path = "segs_path (dir_path L i [''children''])"
  let ?req = "(wire_request S peer ?path (options_values options) None)\<lparr>req_id := id_text L i\<rparr>"
  obtain w' cs where w': "listChildren T p inps ?req w
      = (w', Ok (list_response ?req options (page_of (BuildOptions options) cs)))"
    "distinct cs" "set cs = descendants (view w) (WithDeleted (BuildOptions options)) i" "view w' = view w" "inv w'"
    using server_children [where inps = inps and uuid_Parse = p and req = ?req and options = opts
        and u = "uuid_of i" and d = d, OF assms(3,4)] opts parse_id_text assms(5-7)
    by (auto simp: wire_request_def list_response_effective [OF opts(2)])
  have "?req = (wire_request S peer ?path (options_values options) None)
      \<lparr>req_id := id_text L i, req_until := req_until peer\<rparr>" by (simp add: wire_request_def)
  then obtain l where "read_answer ''error getting children'' 200 (decode_list L)
      (w', Ok (wire_answer S (list_response ?req options (page_of (BuildOptions options) cs)))) = (w', Ok l)"
    "list_Directories l = page_of (BuildOptions options) cs"
    "Next (list_Links l) \<noteq> None \<longleftrightarrow> int (length (page_of (BuildOptions options) cs)) = sint (GetPageSize (BuildOptions options))"
    using read_list [OF assms(2)] by metis
  with w' assms(1) show ?thesis
    by (intro exI [of _ w'] exI [of _ l] exI [of _ cs])
      (simp add: http_GetChildren_send plain_ids send_dir [OF _ route_dir(5)])
qed

lemma client_roots:
  assumes "origin_ok u" "direct peer" "inv w" "\<And>k. avail (inps k)" "page_in_range (BuildOptions options)"
  shows "\<exists>l rs. http_ListRoots L (connect u S peer T p inps) options w = (w, Ok l)
    \<and> list_Directories l = page_of (BuildOptions options) rs
    \<and> distinct rs \<and> set rs = roots_of (view w) (WithDeleted (BuildOptions options))"
proof -
  obtain opts where opts: "storageOptionsFromGetQuery (map_of (options_values options)) = Inr opts"
    "BuildOptions opts = effective (BuildOptions options)" by (rule options_read)
  let ?path = "segs_path (api_path [''roots''])"
  let ?req = "wire_request S peer ?path (options_values options) None"
  obtain rs where rs: "listRoots T inps ?req w
      = (w, Ok (list_response ?req options (page_of (BuildOptions options) rs)))"
    "distinct rs" "set rs = roots_of (view w) (WithDeleted (BuildOptions options))"
    using server_roots [where inps = inps and req = ?req and options = opts, OF assms(3,4)] opts assms(5)
    by (auto simp: wire_request_def list_response_effective [OF opts(2)])
  obtain l where "list_response ?req options (page_of (BuildOptions options) rs) = Response 200 (ListBody l)"
    "json_list l" "list_Directories l = page_of (BuildOptions options) rs"
    using json_list_response [OF assms(2)] by blast
  then show ?thesis
    using rs assms(1)
    by (intro exI [of _ l] exI [of _ rs])
      (simp add: http_ListRoots_send send_route [OF _ _ route_dir(8)] read_answer_def wire_answer_def list_text)
qed

lemma client_parents:
  assumes "origin_ok u" "direct peer" "inv w" "\<And>k. avail (inps k)"
    and "parent_chain (view w) (WithDeleted (BuildOptions options)) i ps" "page_in_range (BuildOptions options)"
  shows "\<exists>w' l qs. http_GetParents L (connect u S peer T p inps) i options w = (w', Ok l)
    \<and> list_Directories l = page_of (BuildOptions options) qs \<and> mset qs = mset ps
    \<and> view w' = view w \<and> inv w'"
proof -
  obtain opts where opts: "storageOptionsFromGetQuery (map_of (options_values options)) = Inr opts"
    "BuildOptions opts = effective (BuildOptions options)" by (rule options_read)
  let ?path = "segs_path (dir_path L i [''parents''])"
  let ?req = "(wire_request S peer ?path (options_values options) None)\<lparr>req_id := id_text L i\<rparr>"
  obtain w' qs where w': "listParents T p inps ?req w
      = (w', Ok (list_response ?req options (page_of (BuildOptions options) qs)))"
    "mset qs = mset ps" "view w' = view w" "inv w'"
    using server_parents [where inps = inps and uuid_Parse = p and req = ?req and options = opts
        and u = "uuid_of i" and ps = ps, OF assms(3,4)] opts parse_id_text assms(5,6)
    by (auto simp: wire_request_def list_response_effective [OF opts(2)])
  have "?req = (wire_request S peer ?path (options_values options) None)
      \<lparr>req_id := id_text L i, req_until := req_until peer\<rparr>" by (simp add: wire_request_def)
  then obtain l where "read_answer ''error getting parents'' 200 (decode_list L)
      (w', Ok (wire_answer S (list_response ?req options (page_of (BuildOptions options) qs)))) = (w', Ok l)"
    "list_Directories l = page_of (BuildOptions options) qs"
    using read_list [OF assms(2)] by metis
  with w' assms(1) show ?thesis
    by (intro exI [of _ w'] exI [of _ l] exI [of _ qs])
      (simp add: http_GetParents_send plain_ids send_dir [OF _ route_dir(6)])
qed

lemma client_create:
  assumes "origin_ok u" "inv w" "\<And>k. avail (inps k)" "view w i = Some q" "DeletedAt q = None"
    and "json_create r" "view w (in_uuid (inps 1)) = None"
  shows "\<exists>w' d t. http_CreateDirectory L (connect u S peer T p inps) r i w
      = read_answer ''error creating directory'' 201 (decode_fetch L) (w', Ok (wire_answer S (fetch_response 201 d)))
    \<and> d = stored_new (inps 1) t (new_directory r (Some i))
    \<and> view w' = (view w)(in_uuid (inps 1) \<mapsto> d) \<and> inv w'"
proof -
  obtain b where b: "encode_create L r = Inr b" "bind_create S (Some b) = Inr r"
    using create_text [OF assms(6)] by blast
  let ?req = "(wire_request S peer (segs_path (dir_path L i [])) [] (Some b))\<lparr>req_id := id_text L i\<rparr>"
  obtain w' d t where w': "createDirectory T p inps ?req w = (w', Ok (fetch_response 201 d))"
    "d = stored_new (inps 1) t (new_directory r (Some i))"
    "view w' = (view w)(in_uuid (inps 1) \<mapsto> d)" "inv w'"
    using server_create [where inps = inps and uuid_Parse = p and req = ?req and u = "uuid_of i"
        and r = r and q = q, OF assms(2,3)] parse_id_text assms(4,5,7) b(2)
    by (auto simp: wire_request_def)
  then show ?thesis
    using assms(1)
    by (intro exI [of _ w'] exI [of _ d] exI [of _ t])
      (simp add: http_CreateDirectory_send [OF _ plain_ids b(1)] send_dir [OF _ route_dir(2)])
qed

lemma client_create_no_parent:
  assumes "origin_ok u" "inv w" "\<And>k. avail (inps k)" "json_create r"
    and "\<And>q. view w i = Some q \<Longrightarrow> DeletedAt q \<noteq> None"
  shows "\<exists>w'. http_CreateDirectory L (connect u S peer T p inps) r i w
      = (w', Err (ErrText (''error creating directory: '' @ status_line S 400)))
    \<and> view w' = view w \<and> inv w'"
proof -
  obtain b where b: "encode_create L r = Inr b" "bind_create S (Some b) = Inr r"
    using create_text [OF assms(4)] by blast
  let ?req = "(wire_request S peer (segs_path (dir_path L i [])) [] (Some b))\<lparr>req_id := id_text L i\<rparr>"
  obtain w' where w': "createDirectory T p inps ?req w = (w', Ok (bad_request ''parent directory not found''))"
    "view w' = view w" "inv w'"
    using server_create_no_parent [where inps = inps and uuid_Parse = p and req = ?req and u = "uuid_of i"
        and r = r, OF assms(2,3)] parse_id_text assms(5) b(2)
    by (auto simp: wire_request_def)
  have "http_CreateDirectory L (connect u S peer T p inps) r i w
      = (w', Err (ErrText (''error creating directory: '' @ status_line S 400)))"
    using assms(1) w'(1)
    by (simp add: http_CreateDirectory_send [OF _ plain_ids b(1)] send_dir [OF _ route_dir(2)]
        bad_request_def read_refusal)
  with w'(2,3) show ?thesis by blast
qed

lemma client_update:
  assumes "origin_ok u" "inv w" "\<And>k. avail (inps k)" "view w i = Some d" "DeletedAt d = None"
    and "json_update v" "json_directory (stored_update (inps 1) (patched v d))"
  shows "\<exists>w'. http_UpdateDirectory L (connect u S peer T p inps) i v w
      = (w', Ok \<lparr>fetch_Directory = stored_update (inps 1) (patched v d), fetch_Version = APIVersion\<rparr>)
    \<and> view w' = (view w)(i \<mapsto> stored_update (inps 1) (patched v d)) \<and> inv w'"
proof -
  obtain b where b: "encode_update L v = Inr b" "bind_update S (Some b) = Inr v"
    using update_text [OF assms(6)] by blast
  let ?req = "(wire_request S peer (segs_path (dir_path L i [])) [] (Some b))\<lparr>req_id := id_text L i\<rparr>"
  obtain w' where w': "updateDirectory T p inps ?req w
      = (w', Ok (fetch_response 200 (stored_update (inps 1) (patched v d))))"
    "view w' = (view w)(i \<mapsto> stored_update (inps 1) (patched v d))" "inv w'"
    using server_update [where inps = inps and uuid_Parse = p and req = ?req and u = "uuid_of i"
        and r = v and d = d, OF assms(2,3)] parse_id_text assms(4,5) b(2)
    by (auto simp: wire_request_def)
  then show ?thesis
    using assms(1,7)
    by (intro exI [of _ w'])
      (simp add: http_UpdateDirectory_send [OF _ plain_ids b(1)] send_dir [OF _ route_dir(3)] read_fetch)
qed

lemma client_delete:
  assumes "origin_ok u" "inv w" "\<And>k. avail (inps k)" "live_child (view w) i"
  shows "\<exists>w' l. http_DeleteDirectory L (connect u S peer T p inps) i w = (w', Ok l)
    \<and> distinct (list_Directories l) \<and> i \<in> set (list_Directories l)
    \<and> set (list_Directories l) \<subseteq> subtree (view w) i
    \<and> (card (descendants (view w) False i) \<le> 10 \<longrightarrow> set (list_Directories l) = subtree (view w) i)
    \<and> view w' = mark_deleted (set (list_Directories l)) (in_time1 (inps 0)) (view w) \<and> inv w'"
proof -
  let ?req = "(wire_request S peer (segs_path (dir_path L i [])) [] None)\<lparr>req_id := id_text L i\<rparr>"
  let ?l = "\<lambda>ids. \<lparr>list_Links = \<lparr>Next = None\<rparr>, list_Directories = ids, list_Page = 0, list_PageSize = 0,
      list_Version = APIVersion\<rparr>"
  obtain w' ids where w': "deleteDirectory T p inps ?req w = (w', Ok (Response 200 (ListBody (?l ids))))"
    "distinct ids" "i \<in> set ids" "set ids \<subseteq> subtree (view w) i"
    "card (descendants (view w) False i) \<le> 10 \<longrightarrow> set ids = subtree (view w) i"
    "view w' = mark_deleted (set ids) (in_time1 (inps 0)) (view w)" "inv w'"
    using server_delete [where inps = inps and uuid_Parse = p and req = ?req and u = "uuid_of i", OF assms(2,3)]
      parse_id_text assms(4) by auto
  have "decode_list L (encode_body S (ListBody (?l ids)), None) = Inr (?l ids)"
    by (rule list_text) (simp add: json_list_def APIVersion_def)
  with w' assms(1) show ?thesis
    by (intro exI [of _ w'] exI [of _ "?l ids"])
      (simp add: http_DeleteDirectory_send plain_ids send_dir [OF _ route_dir(4)] read_answer_def wire_answer_def)
qed

lemma created_is_read_back:
  assumes "origin_ok u" "inv w" "\<And>k. avail (inps k)" "\<And>k. avail (inps' k)" "view w i = Some q" "DeletedAt q = None"
    and "json_create r" "view w (in_uuid (inps 1)) = None"
    and times: "json_time (in_time1 (inps 1))" "json_time (in_time2 (inps 1))"
  shows "\<exists>w' d. http_CreateDirectory L (connect u S peer T p inps) r i w
        = (w', Ok \<lparr>fetch_Directory = d, fetch_Version = APIVersion\<rparr>)
    \<and> DirId d = in_uuid (inps 1) \<and> Name d = create_Name r \<and> Parent d = Some i
    \<and> Metadata d = Some (case create_Metadata r of Some m \<Rightarrow> m | None \<Rightarrow> fmempty)
    \<and> view w' = (view w)(in_uuid (inps 1) \<mapsto> d) \<and> inv w'
    \<and> snd (http_GetDirectory L (connect u S peer T p inps') (DirId d) [] w')
        = Ok \<lparr>fetch_Directory = d, fetch_Version = APIVersion\<rparr>"
proof -
  obtain w' d t where c: "http_CreateDirectory L (connect u S peer T p inps) r i w
      = read_answer ''error creating directory'' 201 (decode_fetch L) (w', Ok (wire_answer S (fetch_response 201 d)))"
    "d = stored_new (inps 1) t (new_directory r (Some i))"
    "view w' = (view w)(in_uuid (inps 1) \<mapsto> d)" "inv w'"
    using client_create [where inps = inps, OF assms(1-3,5-8)] by blast
  have d: "DirId d = in_uuid (inps 1)" "Name d = create_Name r" "Parent d = Some i"
    "Metadata d = Some (case create_Metadata r of Some m \<Rightarrow> m | None \<Rightarrow> fmempty)"
    "CreatedAt d = in_time1 (inps 1)" "UpdatedAt d \<in> {in_time1 (inps 1), in_time2 (inps 1)}" "DeletedAt d = None"
    "visible (WithDeleted (BuildOptions [])) d"
    by (simp_all add: c(2) stored_new_def new_directory_def default_metadata_def visible_def zero_directory_def
        split: option.splits)
  have "json_directory d"
    using d(2,4-7) times assms(7)
    by (auto simp: json_directory_def json_create_def json_metadata_def split: option.splits)
  note read = read_fetch [OF this] client_get [where inps = inps' and peer = peer, OF assms(1) c(4) assms(4) _ d(8) this]
  have "view w' (DirId d) = Some d" by (simp add: c(3) d(1))
  from read(2) [OF this] have "snd (http_GetDirectory L (connect u S peer T p inps') (DirId d) [] w')
      = Ok \<lparr>fetch_Directory = d, fetch_Version = APIVersion\<rparr>" by force
  moreover have "http_CreateDirectory L (connect u S peer T p inps) r i w = (w', Ok \<lparr>fetch_Directory = d, fetch_Version = APIVersion\<rparr>)"
    unfolding c(1) by (rule read(1))
  ultimately show ?thesis using c(3,4) d(1-4) by blast
qed

end

section \<open>Both drivers behind the wire\<close>

text \<open>
  A wire whose texts are the values themselves; identifiers are written in decimal.
\<close>

datatype json_doc = CreateDoc create_directory_request | UpdateDoc update_directory_request | BodyDoc http_body

definition decimal_id :: "uuid \<Rightarrow> string" where
  "decimal_id u = nat_digits (unat u)"

definition parse_decimal :: "string \<Rightarrow> uuid option" where
  "parse_decimal s = map_option word_of_nat (parse_digits s)"

definition json_error :: go_error where
  "json_error = ErrExternal ''invalid JSON''"

definition value_client :: "json_doc client_libs" where
  "value_client = \<lparr>url_Parse_other = (\<lambda>s. Inl (ErrExternal ''invalid URL'')), uuid_String = decimal_id,
     encode_create = (\<lambda>r. Inr (CreateDoc r)), encode_update = (\<lambda>r. Inr (UpdateDoc r)),
     decode_fetch = (\<lambda>(b, e). case b of BodyDoc (FetchBody f) \<Rightarrow> Inr f | _ \<Rightarrow> Inl json_error),
     decode_list = (\<lambda>(b, e). case b of BodyDoc (ListBody l) \<Rightarrow> Inr l | _ \<Rightarrow> Inl json_error)\<rparr>"

definition value_server :: "json_doc server_libs" where
  "value_server = \<lparr>
     bind_create = (\<lambda>b. case b of Some (CreateDoc r) \<Rightarrow> if create_Name r = [] then Inl json_error else Inr r
                                | _ \<Rightarrow> Inl json_error),
     bind_update = (\<lambda>b. case b of Some (UpdateDoc r) \<Rightarrow> Inr r | _ \<Rightarrow> Inl json_error),
     encode_body = BodyDoc,
     status_line = (\<lambda>code. nat_digits code)\<rparr>"

lemma segment_nat_digits: "segment (nat_digits n)"
proof -
  have "is_alnum (digit d)" if "d < 10" for d using that by (simp add: is_alnum_def digit_def)
  then have "\<forall>c \<in> set (nat_digits n). is_alnum c"
    by (induction n rule: nat_digits.induct) (subst nat_digits.simps, auto)
  moreover have "nat_digits n \<noteq> []" using nat_digits_Cons [of n] by auto
  moreover have "\<not> is_alnum (CHR ''.'')" by (simp add: is_alnum_def)
  ultimately show ?thesis by (auto simp: segment_def)
qed

lemma value_wire: "json_wire value_client value_server parse_decimal"
  by unfold_locales
    (auto simp: plain_ids_def value_client_def value_server_def decimal_id_def parse_decimal_def json_create_def
      segment_nat_digits parse_digits_nat_digits)

interpretation value_wire: json_wire value_client value_server parse_decimal
  by (rule value_wire)

interpretation memory_served: served_store value_client value_server parse_decimal
    "server_store memory_driver noop_NewNotifier (attempts n)" mem_inv mem_view "\<lambda>_. True" for n
  unfolding server_store_def StorageWithNotifier_retrier
  by (intro served_store.intro value_wire memory_noop.notified.directory_store_axioms)

interpretation crdb_served: served_store value_client value_server parse_decimal
    "server_store (crdb_admin (crdb_on f)) noop_NewNotifier (attempts n)" crdb_inv crdb_view sql_avail
  for f :: "directory \<Rightarrow> 'k::linorder" and n
  unfolding server_store_def StorageWithNotifier_retrier
  by (intro served_store.intro value_wire crdb_noop.notified.directory_store_axioms)

text \<open>Any wire that keeps its contract serves as well.\<close>

lemma memory_over_wire:
  "json_wire L S p \<Longrightarrow> served_store L S p (server_store memory_driver noop_NewNotifier (attempts n))
    mem_inv mem_view (\<lambda>_. True)"
  unfolding server_store_def StorageWithNotifier_retrier
  by (intro served_store.intro memory_noop.notified.directory_store_axioms)

lemma crdb_over_wire:
  "json_wire L S p \<Longrightarrow> served_store L S p (server_store (crdb_admin (crdb_on f)) noop_NewNotifier (attempts n))
    crdb_inv crdb_view sql_avail"
  unfolding server_store_def StorageWithNotifier_retrier
  by (intro served_store.intro crdb_noop.notified.directory_store_axioms)

end
