(* ===== verification/App_Storage.thy ===== *)
theory App_Storage
  imports Api Go_Strings
begin

text \<open>
  The application side's store of tracked directories (app/v1/storage.go, app/v1/sql/storage.go,
  app/v1/callback/callback.go).

  \<^item> \<open>app_storage\<close>: the interface \<open>AppStorage\<close>, a record of methods on a state \<open>'w\<close>.
  \<^item> \<open>sql_world\<close>: the table \<open>tracked_directories\<close>, a map from its primary key \<open>id\<close> to the
    nullable column \<open>deleted_at\<close>, and the rest of the world \<open>'e\<close>. Whether a statement fails, and
    what \<open>NOW()\<close> reads, come from there: \<open>fail\<close> and \<open>now\<close> are arguments.
  \<^item> \<open>with_callbacks\<close>: the store that calls the application before or after each write.
\<close>

record 'w app_storage =
  app_CreateDirectory :: "directory \<Rightarrow> 'w \<Rightarrow> 'w \<times> directory outcome"
  app_UpdateDirectory :: "directory \<Rightarrow> 'w \<Rightarrow> 'w \<times> unit outcome"
  app_DeleteDirectory :: "directory_id \<Rightarrow> 'w \<Rightarrow> 'w \<times> directory list outcome"
  app_IsDirectoryTracked :: "directory_id \<Rightarrow> 'w \<Rightarrow> 'w \<times> bool outcome"
  app_IsDirectoryInfoUpdated :: "directory \<Rightarrow> 'w \<Rightarrow> 'w \<times> bool outcome"

section \<open>The SQL store\<close>

record 'e sql_world =
  tracked :: "directory_id \<Rightarrow> go_time option option"
  env :: 'e

type_synonym 'e sql_fail = "'e \<Rightarrow> 'e \<times> go_error option"

text \<open>A statement is sent: it fails, or its effect and its rows are those of \<open>run\<close>.\<close>

definition sql_statement :: "'e sql_fail \<Rightarrow> ('e sql_world \<Rightarrow> 'e sql_world \<times> 'a) \<Rightarrow> 'e sql_world
    \<Rightarrow> 'e sql_world \<times> 'a outcome" where
  "sql_statement fail run w =
     (case fail (env w) of
        (e, Some err) \<Rightarrow> (w\<lparr>env := e\<rparr>, Err err)
      | (e, None) \<Rightarrow> (let (w', x) = run (w\<lparr>env := e\<rparr>) in (w', Ok x)))"

definition sql_IsDirectoryTracked ::
    "'e sql_fail \<Rightarrow> directory_id \<Rightarrow> 'e sql_world \<Rightarrow> 'e sql_world \<times> bool outcome" where
  "sql_IsDirectoryTracked fail i w =
     handle (sql_statement fail (\<lambda>w. (w, tracked w i \<noteq> None)) w)
       (\<lambda>w err. (w, Err (ErrWrap ''error checking if directory exists'' err)))
       (\<lambda>w exists. (w, Ok exists))"

text \<open>\<open>observed\<close> is a \<open>sql.NullTime\<close>.\<close>

definition compareDeletedAt :: "go_time option \<Rightarrow> go_time option \<Rightarrow> bool" where
  "compareDeletedAt observed expected =
     (case expected of
        None \<Rightarrow> observed = None
      | Some t \<Rightarrow>
          (if observed \<noteq> None \<and> time_IsZero t then False
           else if observed = None \<and> \<not> time_IsZero t then False
           else if observed \<noteq> None \<and> \<not> time_IsZero t \<and> observed \<noteq> Some t then False
           else True))"

definition sql_IsDirectoryInfoUpdated ::
    "'e sql_fail \<Rightarrow> directory \<Rightarrow> 'e sql_world \<Rightarrow> 'e sql_world \<times> bool outcome" where
  "sql_IsDirectoryInfoUpdated fail dir w =
     handle (sql_IsDirectoryTracked fail (DirId dir) w) (\<lambda>w e. (w, Err e)) (\<lambda>w is_tracked.
       if \<not> is_tracked then (w, Ok False)
       else handle (sql_statement fail (\<lambda>w. (w, tracked w (DirId dir))) w)
              (\<lambda>w err. (w, Err (ErrWrap ''error checking if directory exists'' err)))
              (\<lambda>w row. case row of
                          None \<Rightarrow> (w, Err (ErrWrap ''error checking if directory exists'' ErrNoRows))
                        | Some deletedAt \<Rightarrow> (w, Ok (compareDeletedAt deletedAt (DeletedAt dir)))))"

definition rows_affected_error :: "nat \<Rightarrow> go_error" where
  "rows_affected_error rows = ErrText (''expected 1 row affected, got '' @ nat_digits rows)"

definition sql_CreateDirectory ::
    "'e sql_fail \<Rightarrow> directory \<Rightarrow> 'e sql_world \<Rightarrow> 'e sql_world \<times> directory outcome" where
  "sql_CreateDirectory fail d w =
     handle (sql_statement fail
         (\<lambda>w. if tracked w (DirId d) = None
              then (w\<lparr>tracked := (tracked w)(DirId d \<mapsto> None)\<rparr>, 1) else (w, 0)) w)
       (\<lambda>w err. (w, Err (ErrWrap ''error inserting directory'' err)))
       (\<lambda>w rows. if rows \<noteq> 1 then (w, Err (rows_affected_error rows)) else (w, Ok d))"

definition sql_UpdateDirectory :: "directory \<Rightarrow> 'e sql_world \<Rightarrow> 'e sql_world \<times> unit outcome" where
  "sql_UpdateDirectory d w = (w, Ok ())"

definition sql_DeleteDirectory :: "'e sql_fail \<Rightarrow> ('e \<Rightarrow> go_time) \<Rightarrow> directory_id \<Rightarrow> 'e sql_world
    \<Rightarrow> 'e sql_world \<times> directory list outcome" where
  "sql_DeleteDirectory fail now i w =
     handle (sql_statement fail
         (\<lambda>w. if tracked w i = Some None
              then (w\<lparr>tracked := (tracked w)(i \<mapsto> Some (now (env w)))\<rparr>,
                    [zero_directory\<lparr>DirId := i, DeletedAt := Some (now (env w))\<rparr>])
              else (w, [])) w)
       (\<lambda>w err. (w, Err (ErrWrap ''error deleting directory'' err)))
       (\<lambda>w affected. if length affected \<noteq> 1
                     then (w, ErrWith affected (rows_affected_error (length affected)))
                     else (w, Ok affected))"

definition sql_storage :: "'e sql_fail \<Rightarrow> ('e \<Rightarrow> go_time) \<Rightarrow> 'e sql_world app_storage" where
  "sql_storage fail now = \<lparr>
     app_CreateDirectory = sql_CreateDirectory fail,
     app_UpdateDirectory = sql_UpdateDirectory,
     app_DeleteDirectory = sql_DeleteDirectory fail now,
     app_IsDirectoryTracked = sql_IsDirectoryTracked fail,
     app_IsDirectoryInfoUpdated = sql_IsDirectoryInfoUpdated fail\<rparr>"

section \<open>Callbacks\<close>

record 'w callback_config =
  cb_CreateDirectory :: "directory \<Rightarrow> 'w \<Rightarrow> 'w \<times> unit outcome"
  cb_UpdateDirectory :: "directory \<Rightarrow> 'w \<Rightarrow> 'w \<times> unit outcome"
  cb_DeleteDirectory :: "directory_id \<Rightarrow> 'w \<Rightarrow> 'w \<times> unit outcome"

definition callback_CreateDirectory :: "'w app_storage \<Rightarrow> 'w callback_config \<Rightarrow> directory \<Rightarrow> 'w
    \<Rightarrow> 'w \<times> directory outcome" where
  "callback_CreateDirectory impl cfg d0 w =
     handle (app_CreateDirectory impl d0 w) (\<lambda>w e. (w, Err e)) (\<lambda>w d.
       handle (cb_CreateDirectory cfg d w) (\<lambda>w e. (w, Err e)) (\<lambda>w _. (w, Ok d)))"

definition callback_UpdateDirectory :: "'w app_storage \<Rightarrow> 'w callback_config \<Rightarrow> directory \<Rightarrow> 'w
    \<Rightarrow> 'w \<times> unit outcome" where
  "callback_UpdateDirectory impl cfg d w =
     handle (app_UpdateDirectory impl d w) (\<lambda>w e. (w, Err e)) (\<lambda>w _.
       handle (cb_UpdateDirectory cfg d w) (\<lambda>w e. (w, Err e)) (\<lambda>w _. (w, Ok ())))"

definition callback_DeleteDirectory :: "'w app_storage \<Rightarrow> 'w callback_config \<Rightarrow> directory_id \<Rightarrow> 'w
    \<Rightarrow> 'w \<times> directory list outcome" where
  "callback_DeleteDirectory impl cfg i w =
     handle (cb_DeleteDirectory cfg i w) (\<lambda>w e. (w, Err e)) (\<lambda>w _. app_DeleteDirectory impl i w)"

definition with_callbacks :: "'w app_storage \<Rightarrow> 'w callback_config \<Rightarrow> 'w app_storage" where
  "with_callbacks impl cfg = \<lparr>
     app_CreateDirectory = callback_CreateDirectory impl cfg,
     app_UpdateDirectory = callback_UpdateDirectory impl cfg,
     app_DeleteDirectory = callback_DeleteDirectory impl cfg,
     app_IsDirectoryTracked = app_IsDirectoryTracked impl,
     app_IsDirectoryInfoUpdated = app_IsDirectoryInfoUpdated impl\<rparr>"

section \<open>The SQL store when the database answers\<close>

lemma sql_statement_ok:
  "fail (env w) = (e, None) \<Longrightarrow> run (w\<lparr>env := e\<rparr>) = (w', x) \<Longrightarrow> sql_statement fail run w = (w', Ok x)"
  by (simp add: sql_statement_def)

text \<open>\<open>no_fault\<close>: every statement is executed.\<close>

abbreviation no_fault :: "'e sql_fail" where
  "no_fault \<equiv> \<lambda>e. (e, None)"

lemma sql_ops_ok [simp]:
  "sql_IsDirectoryTracked no_fault i w = (w, Ok (tracked w i \<noteq> None))"
  "sql_CreateDirectory no_fault d w =
     (if tracked w (DirId d) = None then (w\<lparr>tracked := (tracked w)(DirId d \<mapsto> None)\<rparr>, Ok d)
      else (w, Err (rows_affected_error 0)))"
  "sql_DeleteDirectory no_fault now i w =
     (if tracked w i = Some None
      then (w\<lparr>tracked := (tracked w)(i \<mapsto> Some (now (env w)))\<rparr>,
            Ok [zero_directory\<lparr>DirId := i, DeletedAt := Some (now (env w))\<rparr>])
      else (w, ErrWith [] (rows_affected_error 0)))"
  by (simp_all add: sql_IsDirectoryTracked_def sql_CreateDirectory_def sql_DeleteDirectory_def
      sql_statement_def)

lemma sql_IsDirectoryInfoUpdated_ok [simp]:
  "sql_IsDirectoryInfoUpdated no_fault d w =
     (w, Ok (case tracked w (DirId d) of None \<Rightarrow> False | Some t \<Rightarrow> compareDeletedAt t (DeletedAt d)))"
  by (simp add: sql_IsDirectoryInfoUpdated_def sql_statement_def split: option.splits)

lemma sql_storage_simps [simp]:
  "app_CreateDirectory (sql_storage fail now) = sql_CreateDirectory fail"
  "app_UpdateDirectory (sql_storage fail now) = sql_UpdateDirectory"
  "app_DeleteDirectory (sql_storage fail now) = sql_DeleteDirectory fail now"
  "app_IsDirectoryTracked (sql_storage fail now) = sql_IsDirectoryTracked fail"
  "app_IsDirectoryInfoUpdated (sql_storage fail now) = sql_IsDirectoryInfoUpdated fail"
  by (simp_all add: sql_storage_def)

lemma compareDeletedAt_iff:
  "compareDeletedAt observed expected \<longleftrightarrow>
    (case expected of None \<Rightarrow> observed = None
     | Some t \<Rightarrow> if time_IsZero t then observed = None else observed = Some t)"
  by (auto simp: compareDeletedAt_def split: option.splits)

end
