(* ===== verification/App_Controller.thy ===== *)
theory App_Controller
  imports App_Storage
begin

text \<open>
  The application controller (app/v1/controllerimpl.go, fullsubtree_reconciler.go,
  noop_reconciler.go).

  The store, the client, the reconciler and the clock are interfaces: records and functions on
  a state \<open>'w\<close>. A client that is nil is \<open>None\<close>. The body of the loop of \<open>Run\<close> is one step per
  case of its \<open>select\<close>; which case fires is the scheduler's choice, so \<open>controller_steps\<close> allows
  each that is possible. Receiving from a closed channel yields nil.
\<close>

record 'w read_only_client =
  client_GetDirectory :: "directory_id \<Rightarrow> 'w \<Rightarrow> 'w \<times> directory_fetch outcome"
  client_GetChildren :: "directory_id \<Rightarrow> 'w \<Rightarrow> 'w \<times> directory_list outcome"

type_synonym 'w reconciler = "directory_event \<Rightarrow> 'w \<Rightarrow> 'w \<times> unit outcome"

record 'w controller =
  ctl_client :: "'w read_only_client option"
  baseDir :: directory_id
  ctl_store :: "'w app_storage"
  ctl_reconciler :: "'w reconciler option"
  frMinimumInterval :: go_int
  frMaximumInterval :: go_int
  frDuration :: go_int

definition minute :: go_int where
  "minute = 60 * 1000 * 1000 * 1000"

definition NoopReconciler :: "'w reconciler" where
  "NoopReconciler ev w = (w, Ok ())"

definition nil_storage :: "'w app_storage" where
  "nil_storage = \<lparr>
     app_CreateDirectory = (\<lambda>d w. (w, Panic)), app_UpdateDirectory = (\<lambda>d w. (w, Panic)),
     app_DeleteDirectory = (\<lambda>i w. (w, Panic)), app_IsDirectoryTracked = (\<lambda>i w. (w, Panic)),
     app_IsDirectoryInfoUpdated = (\<lambda>d w. (w, Panic))\<rparr>"

definition newController :: "directory_id \<Rightarrow> ('w controller \<Rightarrow> 'w controller) list
    \<Rightarrow> go_error + 'w controller" where
  "newController base opts =
     (let c = fold (\<lambda>opt c. opt c) opts
                \<lparr>ctl_client = None, baseDir = base, ctl_store = nil_storage, ctl_reconciler = None,
                 frMinimumInterval = 5, frMaximumInterval = 10, frDuration = minute\<rparr>
      in if ctl_reconciler c = None then Inl ErrNoReconciler else Inr c)"

definition withReconciler :: "'w reconciler \<Rightarrow> 'w controller \<Rightarrow> 'w controller" where
  "withReconciler r c = c\<lparr>ctl_reconciler := Some r\<rparr>"

definition withClient :: "'w read_only_client option \<Rightarrow> 'w controller \<Rightarrow> 'w controller" where
  "withClient cli c = c\<lparr>ctl_client := cli\<rparr>"

definition withStorage :: "'w app_storage \<Rightarrow> 'w controller \<Rightarrow> 'w controller" where
  "withStorage store c = c\<lparr>ctl_store := store\<rparr>"

definition withFullReconcileInterval ::
    "go_int \<Rightarrow> go_int \<Rightarrow> go_int \<Rightarrow> 'w controller \<Rightarrow> 'w controller" where
  "withFullReconcileInterval mn mx d c =
     c\<lparr>frMinimumInterval := mn, frMaximumInterval := mx, frDuration := d\<rparr>"

definition newSeeder :: "directory_id \<Rightarrow> 'w read_only_client option \<Rightarrow> 'w app_storage
    \<Rightarrow> go_error + 'w controller" where
  "newSeeder base cli store =
     newController base [withClient cli, withStorage store, withReconciler NoopReconciler]"

section \<open>Persisting a directory\<close>

definition call_reconciler :: "'w controller \<Rightarrow> directory_event \<Rightarrow> 'w \<Rightarrow> 'w \<times> unit outcome" where
  "call_reconciler c ev w = (case ctl_reconciler c of None \<Rightarrow> (w, Panic) | Some r \<Rightarrow> r ev w)"

definition persistDirectory ::
    "('w \<Rightarrow> go_time) \<Rightarrow> 'w controller \<Rightarrow> directory \<Rightarrow> 'w \<Rightarrow> 'w \<times> unit outcome" where
  "persistDirectory now c d w =
     (if IsDeleted d
      then handle (app_DeleteDirectory (ctl_store c) (DirId d) w) (\<lambda>w e. (w, Err e)) (\<lambda>w _.
             call_reconciler c \<lparr>event_Version = APIVersion, event_Type = EventTypeDelete,
               event_Time = time_UTC (now w), event_Directory = d\<rparr> w)
      else handle (app_CreateDirectory (ctl_store c) d w) (\<lambda>w e. (w, Err e)) (\<lambda>w _.
             call_reconciler c \<lparr>event_Version = APIVersion, event_Type = EventTypeCreate,
               event_Time = time_UTC (now w), event_Directory = d\<rparr> w))"

section \<open>Events\<close>

definition isRelevantEvent :: "'w controller \<Rightarrow> directory_event \<Rightarrow> 'w \<Rightarrow> 'w \<times> bool outcome" where
  "isRelevantEvent c ev w =
     (let d = event_Directory ev
      in handle (app_IsDirectoryTracked (ctl_store c) (DirId d) w)
           (\<lambda>w e. (w, Err (ErrWrap ''error checking if directory is tracked'' e)))
           (\<lambda>w tracking.
              if tracking then (w, Ok True)
              else if event_Type ev \<noteq> EventTypeCreate then (w, Ok False)
              else case Parent d of
                     None \<Rightarrow> (w, Ok False)
                   | Some p \<Rightarrow>
                       handle (app_IsDirectoryTracked (ctl_store c) p w)
                         (\<lambda>w e. (w, Err (ErrWrap ''error checking if parent directory is tracked'' e)))
                         (\<lambda>w trackingParent. (w, Ok trackingParent))))"

definition processIncomingEvent :: "('w \<Rightarrow> go_time) \<Rightarrow> 'w controller \<Rightarrow> directory_event option
    \<Rightarrow> 'w \<Rightarrow> 'w \<times> unit outcome" where
  "processIncomingEvent now c ptr w =
     (case ptr of
        None \<Rightarrow> (w, Panic)
      | Some ev \<Rightarrow>
          handle (isRelevantEvent c ev w)
            (\<lambda>w e. (w, Err (ErrWrap ''error checking if directory is tracked'' e)))
            (\<lambda>w isRelevant.
               if \<not> isRelevant then (w, Ok ())
               else handle (persistDirectory now c (event_Directory ev) w)
                      (\<lambda>w e. (w, Err (ErrWrap ''error persisting directory'' e)))
                      (\<lambda>w _. (w, Ok ()))))"

section \<open>The full reconciliation\<close>

definition persistIfUpToDate :: "('w \<Rightarrow> go_time) \<Rightarrow> 'w controller \<Rightarrow> directory_id \<Rightarrow> 'w
    \<Rightarrow> 'w \<times> unit outcome" where
  "persistIfUpToDate now c dir w =
     (case ctl_client c of
        None \<Rightarrow> (w, Ok ())
      | Some cl \<Rightarrow>
          handle (client_GetDirectory cl dir w) (\<lambda>w e. (w, Err e)) (\<lambda>w fd.
            handle (app_IsDirectoryInfoUpdated (ctl_store c) (fetch_Directory fd) w)
              (\<lambda>w e. (w, Err e))
              (\<lambda>w upToDate. if upToDate then (w, Ok ())
                            else persistDirectory now c (fetch_Directory fd) w)))"

fun persist_all :: "('w \<Rightarrow> go_time) \<Rightarrow> 'w controller \<Rightarrow> directory_id list \<Rightarrow> 'w \<Rightarrow> 'w \<times> unit outcome" where
  "persist_all now c [] w = (w, Ok ())"
| "persist_all now c (subdir # subdirs) w =
     handle (persistIfUpToDate now c subdir w) (\<lambda>w e. (w, Err e)) (\<lambda>w _. persist_all now c subdirs w)"

definition InitializeDirectories ::
    "('w \<Rightarrow> go_time) \<Rightarrow> 'w controller \<Rightarrow> 'w \<Rightarrow> 'w \<times> unit outcome" where
  "InitializeDirectories now c w =
     (case ctl_client c of
        None \<Rightarrow> (w, Ok ())
      | Some cl \<Rightarrow>
          handle (persistIfUpToDate now c (baseDir c) w) (\<lambda>w e. (w, Err e)) (\<lambda>w _.
            handle (client_GetChildren cl (baseDir c) w) (\<lambda>w e. (w, Err e)) (\<lambda>w subdirs.
              persist_all now c (list_Directories subdirs) w)))"

section \<open>The interval of the full reconciliation\<close>

text \<open>\<open>rand.Intn(n)\<close> yields a number below \<open>n\<close> and panics unless \<open>n\<close> is positive; \<open>rnd\<close> is its
  source.\<close>

definition rand_Intn :: "nat \<Rightarrow> go_int \<Rightarrow> go_int outcome" where
  "rand_Intn rnd n = (if sint n \<le> 0 then Panic else Ok (word_of_int (int rnd mod sint n)))"

definition getRandomTickerDuration :: "nat \<Rightarrow> 'w controller \<Rightarrow> go_int outcome" where
  "getRandomTickerDuration rnd c =
     and_then (rand_Intn rnd (frMaximumInterval c))
       (\<lambda>n. Ok ((frMinimumInterval c + n) * frDuration c))"

text \<open>\<open>time.NewTicker\<close> and \<open>Ticker.Reset\<close> panic on an interval that is not positive.\<close>

definition set_ticker :: "go_int outcome \<Rightarrow> go_int outcome" where
  "set_ticker r = and_then r (\<lambda>d. if sint d \<le> 0 then Panic else Ok d)"

section \<open>Run\<close>

datatype select_case =
    CtxDone go_error
  | Tick nat
  | FromErrCh "go_error option"
  | FromEvCh "directory_event option"

datatype run_status = Running | Returned "go_error option" | Crashed | Hanging

fun status_of :: "'a outcome \<Rightarrow> run_status" where
  "status_of (Ok x) = Running"
| "status_of (Err e) = Returned (Some e)"
| "status_of (ErrWith x e) = Returned (Some e)"
| "status_of Panic = Crashed"
| "status_of Diverge = Hanging"

text \<open>
  Up to the loop: the ticker is made with a random interval, and the directories are
  initialized when there is a client.
\<close>

definition run_start :: "('w \<Rightarrow> go_time) \<Rightarrow> 'w controller \<Rightarrow> nat \<Rightarrow> 'w \<Rightarrow> 'w \<times> run_status" where
  "run_start now c rnd w =
     (case set_ticker (getRandomTickerDuration rnd c) of
        Ok _ \<Rightarrow> (let (w', r) = InitializeDirectories now c w in (w', status_of r))
      | _ \<Rightarrow> (w, Crashed))"

fun run_select :: "('w \<Rightarrow> go_time) \<Rightarrow> 'w controller \<Rightarrow> select_case \<Rightarrow> 'w \<Rightarrow> 'w \<times> run_status" where
  "run_select now c (CtxDone e) w = (w, Returned (Some e))"
| "run_select now c (Tick rnd) w =
     (case InitializeDirectories now c w of
        (w', Ok _) \<Rightarrow> (w', status_of (set_ticker (getRandomTickerDuration rnd c)))
      | (w', r) \<Rightarrow> (w', status_of r))"
| "run_select now c (FromErrCh e) w = (w, Returned e)"
| "run_select now c (FromEvCh ev) w =
     (let (w', r) = processIncomingEvent now c ev w in (w', status_of r))"

text \<open>
  The ticker is stopped when there is no client, so its case never fires then.
\<close>

definition can_select :: "'w controller \<Rightarrow> select_case \<Rightarrow> bool" where
  "can_select c s \<longleftrightarrow> (case s of Tick _ \<Rightarrow> ctl_client c \<noteq> None | _ \<Rightarrow> True)"

inductive controller_steps :: "('w \<Rightarrow> go_time) \<Rightarrow> 'w controller \<Rightarrow> 'w \<Rightarrow> select_case list
    \<Rightarrow> 'w \<Rightarrow> run_status \<Rightarrow> bool"
  for now c w0 where
  begin_run: "run_start now c rnd w0 = (w, st) \<Longrightarrow> controller_steps now c w0 [] w st"
| one_select: "controller_steps now c w0 ss w Running \<Longrightarrow> can_select c s \<Longrightarrow>
    run_select now c s w = (w', st) \<Longrightarrow> controller_steps now c w0 (ss @ [s]) w' st"

end
