(* ===== verification/App_Laws.thy ===== *)
theory App_Laws
  imports App_Controller Forest
begin

text \<open>
  Correctness of the controller over the SQL store: which events it acts on, what each does to
  the table and to the reconciler, that it never tracks a directory outside the subtree of its
  base directory, and what a full reconciliation leaves behind.
\<close>

section \<open>Events on a store whose database answers\<close>

definition relevant :: "(directory_id \<Rightarrow> go_time option option) \<Rightarrow> directory_event \<Rightarrow> bool" where
  "relevant tr ev \<longleftrightarrow> tr (DirId (event_Directory ev)) \<noteq> None
     \<or> event_Type ev = EventTypeCreate
        \<and> (\<exists>p. Parent (event_Directory ev) = Some p \<and> tr p \<noteq> None)"

lemma isRelevantEvent_eq:
  assumes "ctl_store c = sql_storage no_fault now'"
  shows "isRelevantEvent c ev w = (w, Ok (relevant (tracked w) ev))"
  using assms by (auto simp: isRelevantEvent_def relevant_def Let_def split: option.splits)

definition delete_event :: "('w \<Rightarrow> go_time) \<Rightarrow> directory \<Rightarrow> 'w \<Rightarrow> directory_event" where
  "delete_event now d w = \<lparr>event_Version = APIVersion, event_Type = EventTypeDelete,
     event_Time = time_UTC (now w), event_Directory = d\<rparr>"

definition create_event :: "('w \<Rightarrow> go_time) \<Rightarrow> directory \<Rightarrow> 'w \<Rightarrow> directory_event" where
  "create_event now d w = \<lparr>event_Version = APIVersion, event_Type = EventTypeCreate,
     event_Time = time_UTC (now w), event_Directory = d\<rparr>"

lemma persistDirectory_eq:
  assumes "ctl_store c = sql_storage no_fault now'"
  shows "persistDirectory now c d w =
    (if IsDeleted d
     then if tracked w (DirId d) = Some None
          then (let w' = w\<lparr>tracked := (tracked w)(DirId d \<mapsto> Some (now' (env w)))\<rparr>
                in call_reconciler c (delete_event now d w') w')
          else (w, Err (rows_affected_error 0))
     else if tracked w (DirId d) = None
          then (let w' = w\<lparr>tracked := (tracked w)(DirId d \<mapsto> None)\<rparr>
                in call_reconciler c (create_event now d w') w')
          else (w, Err (rows_affected_error 0)))"
  using assms by (simp add: persistDirectory_def delete_event_def create_event_def Let_def)

lemma processIncomingEvent_eq:
  assumes "ctl_store c = sql_storage no_fault now'"
  shows "processIncomingEvent now c (Some ev) w =
    (if \<not> relevant (tracked w) ev then (w, Ok ())
     else handle (persistDirectory now c (event_Directory ev) w)
            (\<lambda>w e. (w, Err (ErrWrap ''error persisting directory'' e))) (\<lambda>w _. (w, Ok ())))"
  by (simp add: processIncomingEvent_def isRelevantEvent_eq [OF assms])

section \<open>The table stays within the subtree\<close>

text \<open>No fault is excluded here: a statement may fail at any point.\<close>

definition within :: "directory_id set \<Rightarrow> 'e sql_world \<times> 'a \<Rightarrow> bool" where
  "within S r \<longleftrightarrow> dom (tracked (fst r)) \<subseteq> S"

named_theorems within_intros

lemma within_handle [within_intros]:
  assumes "within S r" "\<And>w e. dom (tracked w) \<subseteq> S \<Longrightarrow> within S (f w e)"
    "\<And>w x. dom (tracked w) \<subseteq> S \<Longrightarrow> within S (g w x)"
  shows "within S (handle r f g)"
  using assms by (cases "(r, f, g)" rule: handle.cases) (simp_all add: within_def)

lemma within_pair [within_intros]: "dom (tracked w) \<subseteq> S \<Longrightarrow> within S (w, x)"
  by (simp add: within_def)

lemma within_statement [within_intros]:
  assumes "dom (tracked w) \<subseteq> S" "\<And>w. dom (tracked w) \<subseteq> S \<Longrightarrow> within S (run w)"
  shows "within S (sql_statement fail run w)"
proof (cases "fail (env w)")
  case (Pair e err)
  have "within S (run (w\<lparr>env := e\<rparr>))" using assms by simp
  with assms(1) Pair show ?thesis
    by (cases err; cases "run (w\<lparr>env := e\<rparr>)") (simp_all add: sql_statement_def within_def)
qed

lemma within_if [within_intros]:
  "(P \<Longrightarrow> within S r) \<Longrightarrow> (\<not> P \<Longrightarrow> within S r') \<Longrightarrow> within S (if P then r else r')"
  by simp

lemma within_option [within_intros]:
  "(x = None \<Longrightarrow> within S r) \<Longrightarrow> (\<And>y. x = Some y \<Longrightarrow> within S (f y)) \<Longrightarrow>
    within S (case x of None \<Rightarrow> r | Some y \<Rightarrow> f y)"
  by (cases x) simp_all

lemma within_IsDirectoryTracked [within_intros]:
  "dom (tracked w) \<subseteq> S \<Longrightarrow> within S (sql_IsDirectoryTracked fail i w)"
  unfolding sql_IsDirectoryTracked_def by (intro within_intros)

lemma within_IsDirectoryInfoUpdated [within_intros]:
  "dom (tracked w) \<subseteq> S \<Longrightarrow> within S (sql_IsDirectoryInfoUpdated fail d w)"
  unfolding sql_IsDirectoryInfoUpdated_def by (intro within_intros)

lemma within_CreateDirectory:
  "dom (tracked w) \<subseteq> S \<Longrightarrow> DirId d \<in> S \<Longrightarrow> within S (sql_CreateDirectory fail d w)"
  unfolding sql_CreateDirectory_def by (intro within_intros) (auto simp: within_def)

lemma within_DeleteDirectory [within_intros]:
  "dom (tracked w) \<subseteq> S \<Longrightarrow> within S (sql_DeleteDirectory fail now i w)"
  unfolding sql_DeleteDirectory_def by (intro within_intros) (auto simp: within_def)

text \<open>The reconciler and the client leave the table alone.\<close>

definition keeps_table :: "('e sql_world \<Rightarrow> 'e sql_world \<times> 'a) \<Rightarrow> bool" where
  "keeps_table f \<longleftrightarrow> (\<forall>w. tracked (fst (f w)) = tracked w)"

lemma within_keeps: "keeps_table f \<Longrightarrow> dom (tracked w) \<subseteq> S \<Longrightarrow> within S (f w)"
  by (simp add: keeps_table_def within_def)

definition table_safe :: "'e sql_world controller \<Rightarrow> bool" where
  "table_safe c \<longleftrightarrow> (\<exists>fail now'. ctl_store c = sql_storage fail now')
     \<and> (\<forall>r ev. ctl_reconciler c = Some r \<longrightarrow> keeps_table (r ev))
     \<and> (\<forall>cl i. ctl_client c = Some cl \<longrightarrow>
          keeps_table (client_GetDirectory cl i) \<and> keeps_table (client_GetChildren cl i))"

lemma within_call_reconciler [within_intros]:
  "table_safe c \<Longrightarrow> dom (tracked w) \<subseteq> S \<Longrightarrow> within S (call_reconciler c ev w)"
  unfolding call_reconciler_def
  by (auto simp: table_safe_def intro!: within_intros intro: within_keeps)

lemma within_persistDirectory:
  assumes "table_safe c" "dom (tracked w) \<subseteq> S" "DirId d \<in> S"
  shows "within S (persistDirectory now c d w)"
proof -
  obtain fail now' where st: "ctl_store c = sql_storage fail now'"
    using assms(1) by (auto simp: table_safe_def)
  show ?thesis
    unfolding persistDirectory_def st sql_storage_simps
    by (intro within_intros within_CreateDirectory assms)
qed

lemma sql_IsDirectoryTracked_Ok:
  "sql_IsDirectoryTracked fail i w = (w', Ok b) \<Longrightarrow> tracked w' = tracked w \<and> b = (tracked w i \<noteq> None)"
  by (auto simp: sql_IsDirectoryTracked_def sql_statement_def Let_def
      split: prod.splits option.splits)

lemma handle_Ok_errs:
  assumes "handle r f g = (w', Ok x)" "\<And>w e w' x. f w e \<noteq> (w', Ok x)"
  obtains w y where "r = (w, Ok y)" "g w y = (w', Ok x)"
  using assms by (cases "(r, f, g)" rule: handle.cases) auto

lemma isRelevantEvent_sound:
  assumes "ctl_store c = sql_storage fail now'" "isRelevantEvent c ev w = (w', Ok True)"
  shows "relevant (tracked w) ev \<and> tracked w' = tracked w"
proof -
  obtain w1 b where one: "sql_IsDirectoryTracked fail (DirId (event_Directory ev)) w = (w1, Ok b)"
    and rest: "(if b then (w1, Ok True) else if event_Type ev \<noteq> EventTypeCreate then (w1, Ok False)
      else case Parent (event_Directory ev) of None \<Rightarrow> (w1, Ok False)
        | Some p \<Rightarrow> handle (sql_IsDirectoryTracked fail p w1)
            (\<lambda>w e. (w, Err (ErrWrap ''error checking if parent directory is tracked'' e)))
            (\<lambda>w t. (w, Ok t))) = (w', Ok True)"
    using assms(2) unfolding isRelevantEvent_def assms(1) Let_def sql_storage_simps
    by (rule handle_Ok_errs) auto
  note t1 = sql_IsDirectoryTracked_Ok [OF one]
  show ?thesis
  proof (cases b)
    case True
    with rest t1 show ?thesis by (simp add: relevant_def)
  next
    case False
    with rest obtain p where p: "event_Type ev = EventTypeCreate" "Parent (event_Directory ev) = Some p"
      and h: "handle (sql_IsDirectoryTracked fail p w1)
            (\<lambda>w e. (w, Err (ErrWrap ''error checking if parent directory is tracked'' e)))
            (\<lambda>w t. (w, Ok t)) = (w', Ok True)"
      by (auto split: if_splits option.splits)
    from h obtain w2 where "sql_IsDirectoryTracked fail p w1 = (w2, Ok True)" "w2 = w'"
      by (rule handle_Ok_errs) auto
    with sql_IsDirectoryTracked_Ok [of fail p w1 w2 True] t1 p show ?thesis
      by (simp add: relevant_def)
  qed
qed

lemma within_isRelevantEvent:
  assumes "table_safe c" "dom (tracked w) \<subseteq> S"
  shows "within S (isRelevantEvent c ev w)"
proof -
  obtain fail now' where st: "ctl_store c = sql_storage fail now'"
    using assms(1) by (auto simp: table_safe_def)
  show ?thesis
    unfolding isRelevantEvent_def st sql_storage_simps Let_def by (intro within_intros assms(2))
qed

section \<open>Run within the subtree of the base directory\<close>

definition scope :: "forest \<Rightarrow> directory_id \<Rightarrow> directory_id set" where
  "scope F base = insert base (descendants F True base)"

text \<open>The client answers about the directory asked for and lists descendants of the base
  directory; an event tells a directory's parent as it is in the forest.\<close>

definition client_ok :: "forest \<Rightarrow> 'w controller \<Rightarrow> bool" where
  "client_ok F c \<longleftrightarrow> (\<forall>cl. ctl_client c = Some cl \<longrightarrow>
     (\<forall>i w w' fd. client_GetDirectory cl i w = (w', Ok fd) \<longrightarrow> DirId (fetch_Directory fd) = i)
     \<and> (\<forall>w w' l. client_GetChildren cl (baseDir c) w = (w', Ok l) \<longrightarrow>
          set (list_Directories l) \<subseteq> scope F (baseDir c)))"

definition event_ok :: "forest \<Rightarrow> directory_event \<Rightarrow> bool" where
  "event_ok F ev \<longleftrightarrow> (\<exists>d. F (DirId (event_Directory ev)) = Some d
     \<and> Parent d = Parent (event_Directory ev))"

fun select_ok :: "forest \<Rightarrow> select_case \<Rightarrow> bool" where
  "select_ok F (FromEvCh (Some ev)) = event_ok F ev"
| "select_ok F _ = True"

lemma scope_child:
  assumes "p \<in> scope F base" "F i = Some d" "Parent d = Some p"
  shows "i \<in> scope F base"
proof (cases "p = base")
  case True
  with assms show ?thesis by (auto simp: scope_def descendants_def visible_def intro: descends.child)
next
  case False
  with assms(1) have "descends F True base p" by (simp add: scope_def descendants_def)
  from descends.below [OF this assms(2) _ assms(3)] show ?thesis
    by (simp add: scope_def descendants_def visible_def)
qed

lemma relevant_in_scope:
  assumes "relevant tr ev" "dom tr \<subseteq> scope F base" "event_ok F ev"
  shows "DirId (event_Directory ev) \<in> scope F base"
proof (cases "tr (DirId (event_Directory ev)) = None")
  case True
  with assms(1) obtain p where "Parent (event_Directory ev) = Some p" "tr p \<noteq> None"
    by (auto simp: relevant_def)
  with assms(2,3) show ?thesis by (auto simp: event_ok_def intro: scope_child)
next
  case False
  with assms(2) show ?thesis by auto
qed

lemma within_processIncomingEvent:
  assumes "table_safe c" "dom (tracked w) \<subseteq> scope F (baseDir c)"
    and "\<And>ev. ptr = Some ev \<Longrightarrow> event_ok F ev"
  shows "within (scope F (baseDir c)) (processIncomingEvent now c ptr w)"
proof (cases ptr)
  case None
  with assms(2) show ?thesis by (simp add: processIncomingEvent_def within_def)
next
  case (Some ev)
  let ?S = "scope F (baseDir c)"
  obtain fail now' where st: "ctl_store c = sql_storage fail now'"
    using assms(1) by (auto simp: table_safe_def)
  note rel = within_isRelevantEvent [OF assms(1,2), of ev]
  show ?thesis
  proof (cases "\<exists>w'. isRelevantEvent c ev w = (w', Ok True)")
    case True
    then obtain w' where w': "isRelevantEvent c ev w = (w', Ok True)" by blast
    with isRelevantEvent_sound [OF st this] assms(2) have t: "relevant (tracked w) ev"
      "dom (tracked w') \<subseteq> ?S" by auto
    have "DirId (event_Directory ev) \<in> ?S"
      using relevant_in_scope [OF t(1) assms(2)] assms(3) Some by blast
    from within_persistDirectory [OF assms(1) t(2) this, of now] show ?thesis
      using Some w' by (simp add: processIncomingEvent_def) (intro within_intros)
  next
    case False
    with rel Some show ?thesis
      by (cases "isRelevantEvent c ev w"; cases "snd (isRelevantEvent c ev w)")
        (auto simp: processIncomingEvent_def within_def)
  qed
qed

lemma within_persistIfUpToDate:
  assumes "table_safe c" "client_ok F c" "dom (tracked w) \<subseteq> S" "i \<in> S"
  shows "within S (persistIfUpToDate now c i w)"
proof (cases "ctl_client c")
  case None
  with assms(3) show ?thesis by (simp add: persistIfUpToDate_def within_def)
next
  case (Some cl)
  obtain fail now' where st: "ctl_store c = sql_storage fail now'"
    using assms(1) by (auto simp: table_safe_def)
  have get: "within S (client_GetDirectory cl i w)"
    using assms(1,3) Some by (auto simp: table_safe_def intro: within_keeps)
  show ?thesis
  proof (cases "\<exists>w' fd. client_GetDirectory cl i w = (w', Ok fd)")
    case True
    then obtain w' fd where g: "client_GetDirectory cl i w = (w', Ok fd)" by blast
    with assms(2,4) Some have "DirId (fetch_Directory fd) \<in> S" by (auto simp: client_ok_def)
    moreover have "dom (tracked w') \<subseteq> S" using get g by (simp add: within_def)
    ultimately show ?thesis
      using Some g st by (simp add: persistIfUpToDate_def)
        (intro within_intros within_persistDirectory assms(1))
  next
    case False
    with get Some show ?thesis
      by (cases "client_GetDirectory cl i w"; cases "snd (client_GetDirectory cl i w)")
        (auto simp: persistIfUpToDate_def within_def)
  qed
qed

lemma within_persist_all:
  assumes "table_safe c" "client_ok F c" "dom (tracked w) \<subseteq> S" "set ids \<subseteq> S"
  shows "within S (persist_all now c ids w)"
  using assms(3,4)
proof (induction ids arbitrary: w)
  case Nil
  then show ?case by (simp add: within_def)
next
  case (Cons i ids)
  then show ?case
    by (auto intro!: within_handle within_pair within_persistIfUpToDate [OF assms(1,2)])
qed

lemma within_InitializeDirectories:
  assumes "table_safe c" "client_ok F c" "dom (tracked w) \<subseteq> scope F (baseDir c)"
  shows "within (scope F (baseDir c)) (InitializeDirectories now c w)"
proof (cases "ctl_client c")
  case None
  with assms(3) show ?thesis by (simp add: InitializeDirectories_def within_def)
next
  case (Some cl)
  let ?S = "scope F (baseDir c)"
  have children: "within ?S (handle (client_GetChildren cl (baseDir c) w') (\<lambda>w e. (w, Err e))
      (\<lambda>w l. persist_all now c (list_Directories l) w))" if "dom (tracked w') \<subseteq> ?S" for w'
  proof -
    have kids: "within ?S (client_GetChildren cl (baseDir c) w')"
      using assms(1) that Some by (auto simp: table_safe_def intro: within_keeps)
    show ?thesis
    proof (cases "\<exists>w'' l. client_GetChildren cl (baseDir c) w' = (w'', Ok l)")
      case True
      then obtain w'' l where g: "client_GetChildren cl (baseDir c) w' = (w'', Ok l)" by blast
      with assms(2) Some have "set (list_Directories l) \<subseteq> ?S" by (auto simp: client_ok_def)
      with kids g show ?thesis
        using within_persist_all [OF assms(1,2)] by (simp add: within_def)
    next
      case False
      with kids show ?thesis
        by (cases "client_GetChildren cl (baseDir c) w'"; cases "snd (client_GetChildren cl (baseDir c) w')")
          (auto simp: within_def)
    qed
  qed
  have "baseDir c \<in> ?S" by (simp add: scope_def)
  with Some show ?thesis
    by (auto simp: InitializeDirectories_def
        intro!: within_handle within_pair children within_persistIfUpToDate [OF assms(1,2,3)])
qed

lemma controller_steps_scope:
  assumes "table_safe c" "client_ok F c" "dom (tracked w0) \<subseteq> scope F (baseDir c)"
    and "controller_steps now c w0 ss w st" "\<forall>s \<in> set ss. select_ok F s"
  shows "dom (tracked w) \<subseteq> scope F (baseDir c)"
  using assms(4,5)
proof (induction rule: controller_steps.induct)
  case (begin_run rnd w st)
  with within_InitializeDirectories [OF assms(1,2,3), of now] assms(3) show ?case
    by (auto simp: run_start_def within_def Let_def split: outcome.splits prod.splits)
next
  case (one_select ss w s w' st)
  then have w: "dom (tracked w) \<subseteq> scope F (baseDir c)" by simp
  show ?case
  proof (cases s)
    case (Tick rnd)
    with one_select within_InitializeDirectories [OF assms(1,2) w, of now] show ?thesis
      by (auto simp: within_def split: outcome.splits prod.splits)
  next
    case (FromEvCh ptr)
    have "event_ok F ev" if "ptr = Some ev" for ev using one_select.prems FromEvCh that by auto
    from within_processIncomingEvent [where now = now and ptr = ptr, OF assms(1) w this] one_select FromEvCh show ?thesis
      by (auto simp: within_def split: prod.splits)
  qed (use one_select w in auto)
qed

section \<open>A full reconciliation\<close>

text \<open>
  A client in front of live directories: it answers for every identifier of \<open>ids\<close> with a
  directory that is not deleted, and lists \<open>kids\<close> under the base directory.
\<close>

definition live_client :: "'w read_only_client \<Rightarrow> directory_id \<Rightarrow> directory_id list \<Rightarrow> bool" where
  "live_client cl base kids \<longleftrightarrow>
     (\<forall>i \<in> set (base # kids). \<forall>w. \<exists>fd. client_GetDirectory cl i w = (w, Ok fd)
        \<and> DirId (fetch_Directory fd) = i \<and> DeletedAt (fetch_Directory fd) = None)
     \<and> (\<forall>w. \<exists>l. client_GetChildren cl base w = (w, Ok l) \<and> list_Directories l = kids)"

definition track_all :: "directory_id list \<Rightarrow> 'e sql_world \<Rightarrow> 'e sql_world" where
  "track_all ids w = w\<lparr>tracked := (\<lambda>i. if i \<in> set ids then Some None else tracked w i)\<rparr>"

lemma track_all_simps [simp]:
  "track_all [] w = w" "track_all js (track_all is w) = track_all (is @ js) w"
  "tracked (track_all ids w) i = (if i \<in> set ids then Some None else tracked w i)"
  by (auto simp: track_all_def fun_eq_iff intro!: sql_world.equality)

lemma track_all_set: "set ids = set ids' \<Longrightarrow> track_all ids w = track_all ids' w"
  by (simp add: track_all_def)

lemma newSeeder_eq:
  "newSeeder base cli store = Inr \<lparr>ctl_client = cli, baseDir = base, ctl_store = store,
     ctl_reconciler = Some NoopReconciler, frMinimumInterval = 5, frMaximumInterval = 10,
     frDuration = minute\<rparr>"
  by (simp add: newSeeder_def newController_def withClient_def withStorage_def withReconciler_def)

lemma track_all_env [simp]: "env (track_all ids w) = env w"
  by (simp add: track_all_def)

lemma track_all_env_update: "(track_all ids w)\<lparr>env := e\<rparr> = track_all ids (w\<lparr>env := e\<rparr>)"
  by (simp add: track_all_def cong: if_cong)

lemma persistIfUpToDate_live:
  assumes c: "ctl_client c = Some cl" "ctl_store c = sql_storage no_fault now'"
    "ctl_reconciler c = Some NoopReconciler"
    and d: "client_GetDirectory cl i w = (v, Ok fd)" "DirId (fetch_Directory fd) = i"
    "DeletedAt (fetch_Directory fd) = None"
    and t: "tracked v i = None \<or> tracked v i = Some None"
  shows "persistIfUpToDate now c i w = (track_all [i] v, Ok ())"
proof (cases "tracked v i")
  case None
  have "\<not> IsDeleted (fetch_Directory fd)" using d(3) by (simp add: IsDeleted_def)
  moreover have "v\<lparr>tracked := (tracked v)(i \<mapsto> None)\<rparr> = track_all [i] v"
    by (simp add: track_all_def fun_eq_iff cong: if_cong)
  ultimately show ?thesis
    using c d None
    by (simp add: persistIfUpToDate_def persistDirectory_eq [OF c(2)] call_reconciler_def
        NoopReconciler_def Let_def)
next
  case (Some x)
  with t have "x = None" by simp
  moreover have "track_all [i] v = v"
    using Some \<open>x = None\<close> by (auto simp: track_all_def fun_eq_iff intro!: sql_world.equality)
  ultimately show ?thesis
    using c d Some by (simp add: persistIfUpToDate_def compareDeletedAt_def)
qed

text \<open>
  A client that changes the rest of the world while it answers, and keeps \<open>I\<close> of it: it answers
  for the base directory and for every identifier of the list that it gives of the children,
  which satisfies \<open>K\<close>.
\<close>

definition answers :: "('e \<Rightarrow> bool) \<Rightarrow> 'e sql_world read_only_client \<Rightarrow> directory_id \<Rightarrow> bool" where
  "answers I cl i \<longleftrightarrow> (\<forall>w. I (env w) \<longrightarrow> (\<exists>e fd. client_GetDirectory cl i w = (w\<lparr>env := e\<rparr>, Ok fd)
     \<and> I e \<and> DirId (fetch_Directory fd) = i \<and> DeletedAt (fetch_Directory fd) = None))"

definition lists :: "('e \<Rightarrow> bool) \<Rightarrow> (directory_id list \<Rightarrow> bool) \<Rightarrow> 'e sql_world read_only_client
    \<Rightarrow> directory_id \<Rightarrow> bool" where
  "lists I K cl i \<longleftrightarrow> (\<forall>w. I (env w) \<longrightarrow> (\<exists>e l. client_GetChildren cl i w = (w\<lparr>env := e\<rparr>, Ok l)
     \<and> I e \<and> K (list_Directories l)))"

lemma persist_all_answers:
  assumes c: "ctl_client c = Some cl" "ctl_store c = sql_storage no_fault now'"
    "ctl_reconciler c = Some NoopReconciler"
    and "\<And>i. i \<in> set ids \<Longrightarrow> answers I cl i" "I (env w)"
    and "\<And>i. i \<in> set ids \<Longrightarrow> tracked w i = None \<or> tracked w i = Some None"
  shows "\<exists>e. persist_all now c ids w = (track_all ids (w\<lparr>env := e\<rparr>), Ok ()) \<and> I e"
  using assms(4-6)
proof (induction ids arbitrary: w)
  case Nil
  then show ?case by (intro exI [of _ "env w"]) simp
next
  case (Cons i ids)
  obtain e fd where fd: "client_GetDirectory cl i w = (w\<lparr>env := e\<rparr>, Ok fd)" "I e"
    "DirId (fetch_Directory fd) = i" "DeletedAt (fetch_Directory fd) = None"
    using Cons.prems(1) [of i] Cons.prems(2) by (auto simp: answers_def)
  let ?v = "track_all [i] (w\<lparr>env := e\<rparr>)"
  have one: "persistIfUpToDate now c i w = (?v, Ok ())"
    using persistIfUpToDate_live [OF c fd(1,3,4)] Cons.prems(3) by simp
  have "I (env ?v)" "\<And>j. j \<in> set ids \<Longrightarrow> answers I cl j" using fd(2) Cons.prems(1) by simp_all
  moreover have "tracked ?v j = None \<or> tracked ?v j = Some None" if "j \<in> set ids" for j
    using that Cons.prems(3) by simp
  ultimately obtain e' where "persist_all now c ids ?v = (track_all ids (?v\<lparr>env := e'\<rparr>), Ok ())" "I e'"
    using Cons.IH [of ?v] by blast
  with one show ?case by (intro exI [of _ e']) (simp add: track_all_env_update)
qed

lemma InitializeDirectories_answers:
  assumes c: "ctl_client c = Some cl" "ctl_store c = sql_storage no_fault now'"
    "ctl_reconciler c = Some NoopReconciler"
    and cl: "answers I cl (baseDir c)" "lists I K cl (baseDir c)"
      "\<And>kids i. K kids \<Longrightarrow> i \<in> set kids \<Longrightarrow> answers I cl i"
    and "I (env w)"
    and t: "\<And>kids i. K kids \<Longrightarrow> i \<in> set (baseDir c # kids) \<Longrightarrow> tracked w i = None \<or> tracked w i = Some None"
  shows "\<exists>e kids. InitializeDirectories now c w = (track_all (baseDir c # kids) (w\<lparr>env := e\<rparr>), Ok ())
    \<and> I e \<and> K kids"
proof -
  let ?b = "baseDir c"
  have K: "\<exists>kids. K kids" using cl(2) assms(7) by (auto simp: lists_def)
  obtain e fd where fd: "client_GetDirectory cl ?b w = (w\<lparr>env := e\<rparr>, Ok fd)" "I e"
    "DirId (fetch_Directory fd) = ?b" "DeletedAt (fetch_Directory fd) = None"
    using cl(1) assms(7) by (auto simp: answers_def)
  let ?v = "track_all [?b] (w\<lparr>env := e\<rparr>)"
  have base: "persistIfUpToDate now c ?b w = (?v, Ok ())"
    using persistIfUpToDate_live [OF c fd(1,3,4)] K t by auto
  obtain e' l where l: "client_GetChildren cl ?b ?v = (?v\<lparr>env := e'\<rparr>, Ok l)" "I e'" "K (list_Directories l)"
  proof -
    have "I (env ?v)" using fd(2) by simp
    then show ?thesis using cl(2) that unfolding lists_def by blast
  qed
  have "tracked (?v\<lparr>env := e'\<rparr>) i = None \<or> tracked (?v\<lparr>env := e'\<rparr>) i = Some None"
    if "i \<in> set (list_Directories l)" for i using that t [OF l(3)] by simp
  moreover have "I (env (?v\<lparr>env := e'\<rparr>))" using l(2) by simp
  ultimately obtain e'' where "persist_all now c (list_Directories l) (?v\<lparr>env := e'\<rparr>)
      = (track_all (list_Directories l) (?v\<lparr>env := e'\<rparr>\<lparr>env := e''\<rparr>), Ok ())" "I e''"
    using persist_all_answers [OF c cl(3) [OF l(3)]] by blast
  with c(1) base l show ?thesis
    by (intro exI [of _ e''] exI [of _ "list_Directories l"])
      (simp add: InitializeDirectories_def track_all_env_update)
qed

text \<open>A client in front of live directories that do not change.\<close>

lemma InitializeDirectories_live:
  assumes c: "ctl_client c = Some cl" "ctl_store c = sql_storage no_fault now'"
    "ctl_reconciler c = Some NoopReconciler"
    and cl: "live_client cl (baseDir c) kids"
    and t: "\<And>i. i \<in> set (baseDir c # kids) \<Longrightarrow> tracked w i = None \<or> tracked w i = Some None"
  shows "InitializeDirectories now c w = (track_all (baseDir c # kids) w, Ok ())"
proof -
  let ?I = "\<lambda>e. e = env w" and ?K = "\<lambda>ks. ks = kids"
  have d: "answers ?I cl i" if i: "i \<in> set (baseDir c # kids)" for i
    unfolding answers_def
  proof (intro allI impI)
    fix v :: "'a sql_world"
    assume "env v = env w"
    moreover obtain fd where "client_GetDirectory cl i v = (v, Ok fd)" "DirId (fetch_Directory fd) = i"
      "DeletedAt (fetch_Directory fd) = None"
      using cl i unfolding live_client_def by blast
    ultimately show "\<exists>e fd. client_GetDirectory cl i v = (v\<lparr>env := e\<rparr>, Ok fd) \<and> e = env w
        \<and> DirId (fetch_Directory fd) = i \<and> DeletedAt (fetch_Directory fd) = None" by auto
  qed
  have "lists ?I ?K cl (baseDir c)"
    unfolding lists_def
  proof (intro allI impI)
    fix v :: "'a sql_world"
    assume "env v = env w"
    moreover obtain l where "client_GetChildren cl (baseDir c) v = (v, Ok l)" "list_Directories l = kids"
      using cl unfolding live_client_def by blast
    ultimately show "\<exists>e l. client_GetChildren cl (baseDir c) v = (v\<lparr>env := e\<rparr>, Ok l) \<and> e = env w
        \<and> list_Directories l = kids" by auto
  qed
  then obtain e kids' where "InitializeDirectories now c w = (track_all (baseDir c # kids') (w\<lparr>env := e\<rparr>), Ok ())"
    "e = env w" "kids' = kids"
    using InitializeDirectories_answers [OF c d, of ?K w now] d t by auto
  then show ?thesis by simp
qed

section \<open>The interval\<close>

lemma getRandomTickerDuration_range:
  fixes rnd :: nat
  assumes "1 \<le> sint (frMaximumInterval c)" "0 \<le> sint (frMinimumInterval c)"
    and "sint (frMinimumInterval c) + sint (frMaximumInterval c) < 2 ^ 63"
    and "0 \<le> sint (frDuration c)"
    and "(sint (frMinimumInterval c) + sint (frMaximumInterval c)) * sint (frDuration c) < 2 ^ 63"
  defines "k \<equiv> int rnd mod sint (frMaximumInterval c)"
  shows "\<exists>d. getRandomTickerDuration rnd c = Ok d
    \<and> sint d = (sint (frMinimumInterval c) + k) * sint (frDuration c)
    \<and> 0 \<le> k \<and> k < sint (frMaximumInterval c)"
proof -
  let ?mn = "sint (frMinimumInterval c)" and ?mx = "sint (frMaximumInterval c)" and ?u = "sint (frDuration c)"
  have k: "0 \<le> k" "k < ?mx" using assms(1) by (simp_all add: k_def)
  then have "sint (word_of_int k :: go_int) = k"
    using sint_go_int_bounds(2) [of "frMaximumInterval c"] by (intro sint_go_int_of_int) simp_all
  then have sum: "sint (frMinimumInterval c + word_of_int k) = ?mn + k"
    using k assms(2,3) by (subst go_int_add_exact) simp_all
  have "(?mn + k) * ?u \<le> (?mn + ?mx) * ?u" using k(2) assms(4) by (intro mult_right_mono) simp_all
  then have "(?mn + k) * ?u < 2 ^ 63" using assms(5) by linarith
  moreover have "0 \<le> (?mn + k) * ?u" using k(1) assms(2,4) by simp
  ultimately have "sint ((frMinimumInterval c + word_of_int k) * frDuration c) = (?mn + k) * ?u"
    using sum by (subst go_int_mult_exact) simp_all
  moreover have "getRandomTickerDuration rnd c = Ok ((frMinimumInterval c + word_of_int k) * frDuration c)"
    using assms(1) by (simp add: getRandomTickerDuration_def rand_Intn_def k_def)
  ultimately show ?thesis using k by auto
qed

end
