(* ===== verification/App_Over_Http.thy ===== *)
theory App_Over_Http
  imports Http_Service App_Laws
begin

text \<open>
  The application controller whose client is the HTTP client: the state of the client, that is
  the network with the tree manager behind it, is the part \<open>env\<close> of the application's world.
  \<open>seeding\<close> is a full reconciliation against a tree manager whose store keeps its contract.
\<close>

definition remote_client :: "'j client_libs \<Rightarrow> ('j, 'e) http_client \<Rightarrow> 'e sql_world read_only_client" where
  "remote_client L c =
     (let cli = http_methods L c
      in \<lparr>client_GetDirectory = (\<lambda>i w. let (e, r) = ro_GetDirectory cli i [] (env w) in (w\<lparr>env := e\<rparr>, r)),
          client_GetChildren = (\<lambda>i w. let (e, r) = ro_GetChildren cli i [] (env w) in (w\<lparr>env := e\<rparr>, r))\<rparr>)"

text \<open>The first page of a listing.\<close>

definition first_page :: "forest \<Rightarrow> directory_id \<Rightarrow> directory_id list \<Rightarrow> bool" where
  "first_page F i kids \<longleftrightarrow> (\<exists>cs. distinct cs \<and> set cs = descendants F False i \<and> kids = take 10 cs)"

lemma first_page_facts:
  assumes "first_page F i kids" "tree_ok F"
  shows "distinct kids" "set kids \<subseteq> descendants F False i" "length kids = min 10 (card (descendants F False i))"
  using assms set_take_subset by (fastforce simp: first_page_def dest: distinct_card)+

context served_store
begin

lemma remote_answers:
  assumes "origin_ok u" "\<And>k. avail (inps k)" "F i = Some d" "DeletedAt d = None" "json_directory d"
  shows "answers (\<lambda>e. inv e \<and> view e = F) (remote_client L (connect u S peer T p inps)) i"
  unfolding answers_def
proof (intro allI impI)
  fix w :: "('db, 'bus) world sql_world"
  assume w: "inv (env w) \<and> view (env w) = F"
  have "visible (WithDeleted (BuildOptions [])) d" using assms(4) by (simp add: visible_def)
  then obtain e where "http_GetDirectory L (connect u S peer T p inps) i [] (env w)
      = (e, Ok \<lparr>fetch_Directory = d, fetch_Version = APIVersion\<rparr>)" "view e = F" "inv e"
    using client_get [where inps = inps and i = i and options = "[]", OF assms(1) _ assms(2) _ _ assms(5)] w assms(3)
    by blast
  moreover have "DirId d = i" using view_id w assms(3) by blast
  ultimately show "\<exists>e fd. client_GetDirectory (remote_client L (connect u S peer T p inps)) i w = (w\<lparr>env := e\<rparr>, Ok fd)
      \<and> (inv e \<and> view e = F) \<and> DirId (fetch_Directory fd) = i \<and> DeletedAt (fetch_Directory fd) = None"
    using assms(4) by (intro exI [of _ e]) (simp add: remote_client_def http_methods_def)
qed

lemma remote_lists:
  assumes "origin_ok u" "direct peer" "\<And>k. avail (inps k)" "F i = Some d" "DeletedAt d = None"
  shows "lists (\<lambda>e. inv e \<and> view e = F) (first_page F i) (remote_client L (connect u S peer T p inps)) i"
  unfolding lists_def
proof (intro allI impI)
  fix w :: "('db, 'bus) world sql_world"
  assume w: "inv (env w) \<and> view (env w) = F"
  have "visible (WithDeleted (BuildOptions [])) d" using assms(5) by (simp add: visible_def)
  moreover have "page_in_range (BuildOptions [])" by (simp add: page_in_range_def)
  ultimately obtain e l cs where "http_GetChildren L (connect u S peer T p inps) i [] (env w) = (e, Ok l)"
    "list_Directories l = take 10 cs" "distinct cs" "set cs = descendants F False i" "view e = F" "inv e"
    using client_children [where inps = inps and i = i and options = "[]" and w = "env w" and d = d,
        OF assms(1,2) _ assms(3)] w assms(4) by auto
  then show "\<exists>e l. client_GetChildren (remote_client L (connect u S peer T p inps)) i w = (w\<lparr>env := e\<rparr>, Ok l)
      \<and> (inv e \<and> view e = F) \<and> first_page F i (list_Directories l)"
    by (auto simp: remote_client_def http_methods_def first_page_def)
qed

lemma seeding:
  assumes "newSeeder base (Some (remote_client L (connect u S peer T p inps))) (sql_storage no_fault now') = Inr c"
    and "origin_ok u" "direct peer" "\<And>k. avail (inps k)" "inv (env w)" "view (env w) = F"
    and live: "F base = Some d" "DeletedAt d = None"
    and json: "\<And>i d. i \<in> subtree F base \<Longrightarrow> F i = Some d \<Longrightarrow> json_directory d"
    and t: "\<And>i. i \<in> subtree F base \<Longrightarrow> tracked w i = None \<or> tracked w i = Some None"
  shows "\<exists>w' kids. InitializeDirectories now c w = (w', Ok ())
    \<and> tracked w' = (\<lambda>i. if i \<in> set (base # kids) then Some None else tracked w i)
    \<and> distinct kids \<and> set kids \<subseteq> descendants F False base \<and> length kids = min 10 (card (descendants F False base))
    \<and> view (env w') = F \<and> inv (env w')"
proof -
  let ?cl = "remote_client L (connect u S peer T p inps)" and ?I = "\<lambda>e. inv e \<and> view e = F"
  have c: "ctl_client c = Some ?cl" "ctl_store c = sql_storage no_fault now'"
    "ctl_reconciler c = Some NoopReconciler" "baseDir c = base"
    using assms(1) by (auto simp: newSeeder_eq)
  have F: "tree_ok F" using inv_tree assms(5,6) by blast
  have ans: "answers ?I ?cl i" if i: "i \<in> subtree F base" for i
  proof -
    have "\<exists>di. F i = Some di \<and> DeletedAt di = None"
    proof (cases "i = base")
      case False
      then have "descends F False base i" using i by (simp add: subtree_def descendants_def)
      then show ?thesis using descends_visible by (fastforce simp: visible_def)
    qed (use live in blast)
    then obtain di where di: "F i = Some di" "DeletedAt di = None" by blast
    show ?thesis by (rule remote_answers [where F = F and inps = inps and d = di])
      (use assms(2,4) di json [OF i di(1)] in simp_all)
  qed
  have base: "base \<in> subtree F base" by (simp add: subtree_def)
  have kids: "i \<in> subtree F base" if "first_page F base ks" "i \<in> set ks" for ks i
    using that first_page_facts(2) [OF _ F] by (fastforce simp: subtree_def)
  have "answers ?I ?cl i" if "first_page F base ks" "i \<in> set ks" for ks i
    using that ans kids by blast
  moreover have "tracked w i = None \<or> tracked w i = Some None"
    if "first_page F base ks" "i \<in> set (base # ks)" for ks i
    using that t [OF base] t [OF kids] by auto
  moreover have "?I (env w)" using assms(5,6) by simp
  ultimately obtain e ks where "InitializeDirectories now c w = (track_all (base # ks) (w\<lparr>env := e\<rparr>), Ok ())"
    "?I e" "first_page F base ks"
    using InitializeDirectories_answers [OF c(1-3), unfolded c(4), OF ans [OF base], of "first_page F base" w now]
      remote_lists [where F = F and inps = inps and d = d, OF assms(2-4) live] by blast
  then show ?thesis
    using first_page_facts [OF _ F]
    by (intro exI [of _ "track_all (base # ks) (w\<lparr>env := e\<rparr>)"] exI [of _ ks]) (auto simp: track_all_def)
qed

end

end
