(* ===== verification/Server_Keeps.thy ===== *)
theory Server_Keeps
  imports Notifier Treemanager_Laws
begin

text \<open>
  What a server keeps of its store under all circumstances. \<open>keeping_store T J\<close> is a driver \<open>T\<close> none
  of whose operations breaks \<open>J\<close>, a property of the driver's own state, whatever their inputs are:
  faults of the connection, broken cursors, identifiers that are not fresh. Then no handler breaks
  it, nor does the notifier in front of the driver, whatever that one does.
\<close>

definition leaves :: "('db \<Rightarrow> bool) \<Rightarrow> ('db, 'bus) world \<times> 'a outcome \<Rightarrow> bool" where
  "leaves J run \<longleftrightarrow> J (db (fst run))"

named_theorems leaves_intros

lemma leaves_handle [leaves_intros]:
  "leaves J r \<Longrightarrow> (\<And>w e. J (db w) \<Longrightarrow> leaves J (f w e)) \<Longrightarrow> (\<And>w x. J (db w) \<Longrightarrow> leaves J (g w x))
    \<Longrightarrow> leaves J (handle r f g)"
  by (cases "(r, f, g)" rule: handle.cases) (simp_all add: leaves_def)

lemma leaves_sum [leaves_intros]:
  "(\<And>e. leaves J (f e)) \<Longrightarrow> (\<And>x. leaves J (g x)) \<Longrightarrow> leaves J (case s of Inl e \<Rightarrow> f e | Inr x \<Rightarrow> g x)"
  by (cases s) simp_all

lemma leaves_option [leaves_intros]:
  "leaves J r \<Longrightarrow> (\<And>x. leaves J (g x)) \<Longrightarrow> leaves J (case s of None \<Rightarrow> r | Some x \<Rightarrow> g x)"
  by (cases s) simp_all

lemma leaves_if [leaves_intros]: "leaves J r \<Longrightarrow> leaves J r' \<Longrightarrow> leaves J (if b then r else r')"
  by simp

lemma leaves_let [leaves_intros]: "(\<And>x. leaves J (f x)) \<Longrightarrow> leaves J (let x = s in f x)"
  by simp

lemma leaves_alloc [leaves_intros]:
  "J (db w) \<Longrightarrow> (\<And>w a. J (db w) \<Longrightarrow> leaves J (f a w)) \<Longrightarrow> leaves J (case alloc d w of (a, w) \<Rightarrow> f a w)"
  by (simp add: alloc_def)

lemma leaves_run [leaves_intros]:
  "leaves J run \<Longrightarrow> (\<And>w r. J (db w) \<Longrightarrow> leaves J (f w r)) \<Longrightarrow> leaves J (case run of (w, r) \<Rightarrow> f w r)"
  by (cases run) (simp add: leaves_def)

lemma leaves_at: "J (db w) \<Longrightarrow> leaves J (w, r)"
  by (simp add: leaves_def)

lemma leaves_assign: "J (db w) \<Longrightarrow> leaves J (assign ptr f w)"
  by (cases ptr) (simp_all add: assign_def leaves_def world_simps)

section \<open>Stores that keep a property\<close>

locale keeping_store =
  fixes T :: "('db, 'bus) directory_admin"
    and J :: "'db \<Rightarrow> bool"
  assumes keeps_get: "J (db w) \<Longrightarrow> leaves J (GetDirectory T inp i options w)"
    and keeps_parents: "J (db w) \<Longrightarrow> leaves J (GetParents T inp i options w)"
    and keeps_until: "J (db w) \<Longrightarrow> leaves J (GetParentsUntilAncestor T inp i a options w)"
    and keeps_children: "J (db w) \<Longrightarrow> leaves J (GetChildren T inp i options w)"
    and keeps_roots: "J (db w) \<Longrightarrow> leaves J (ListRoots T inp options w)"
    and keeps_create: "J (db w) \<Longrightarrow> leaves J (CreateDirectory T inp d w)"
    and keeps_update: "J (db w) \<Longrightarrow> leaves J (UpdateDirectory T inp ptr w)"
    and keeps_delete: "J (db w) \<Longrightarrow> leaves J (DeleteDirectory T inp i w)"
    and keeps_create_root: "J (db w) \<Longrightarrow> leaves J (CreateRoot T inp d w)"
begin

lemmas keeps = keeps_get keeps_parents keeps_until keeps_children keeps_roots keeps_create
  keeps_update keeps_delete keeps_create_root

lemma keeps_reference: "J (db w) \<Longrightarrow> leaves J (getDirectoryFromReference T p inp s options w)"
  unfolding getDirectoryFromReference_def by (intro leaves_intros keeps leaves_at)

lemma keeps_apply_update: "J (db w) \<Longrightarrow> leaves J (apply_update T inps r d w)"
  unfolding apply_update_def Let_def
  by (intro leaves_intros keeps leaves_at leaves_assign)

lemmas keeps_steps = leaves_intros keeps keeps_reference keeps_apply_update leaves_at

lemma keeps_handlers:
  shows keeps_listRoots: "J (db w) \<Longrightarrow> leaves J (listRoots T inps req w)"
    and keeps_createRoot: "J (db w) \<Longrightarrow> leaves J (createRootDirectory T inps req w)"
    and keeps_getDirectory: "J (db w) \<Longrightarrow> leaves J (getDirectory T p inps req w)"
    and keeps_createDirectory: "J (db w) \<Longrightarrow> leaves J (createDirectory T p inps req w)"
    and keeps_updateDirectory: "J (db w) \<Longrightarrow> leaves J (updateDirectory T p inps req w)"
    and keeps_deleteDirectory: "J (db w) \<Longrightarrow> leaves J (deleteDirectory T p inps req w)"
    and keeps_listChildren: "J (db w) \<Longrightarrow> leaves J (listChildren T p inps req w)"
    and keeps_listParents: "J (db w) \<Longrightarrow> leaves J (listParents T p inps req w)"
    and keeps_listParentsUntil: "J (db w) \<Longrightarrow> leaves J (listParentsUntil T p inps req w)"
  unfolding listRoots_def createRootDirectory_def getDirectory_def createDirectory_def
    updateDirectory_def deleteDirectory_def listChildren_def listParents_def listParentsUntil_def Let_def
  by (intro keeps_steps; assumption)+

lemma keeps_serve: "J (db w) \<Longrightarrow> J (db (fst (serve T p auth inps rt req w)))"
  unfolding leaves_def [symmetric]
  by (cases rt; cases "auth req") (simp_all add: leaves_at keeps_handlers)

lemma keeps_reachable:
  assumes "server_reachable T view avail p auth w0 w" "J (db w0)"
  shows "J (db w)"
  using assms
proof (induction rule: server_reachable.induct)
  case (request w inps meth segs req w' r)
  then obtain rt where "serve T p auth inps rt req w = (w', r)" by (auto simp: newHandler_def)
  with keeps_serve [of w p auth inps rt req] request show ?case by simp
qed

end

section \<open>Behind the notifier\<close>

lemma leaves_call_wrapper: "J (db w) \<Longrightarrow> leaves J (call_wrapper n h w)"
  by (simp add: call_wrapper_def leaves_def split: option.split prod.split)

lemma leaves_notify_deleted: "J (db w) \<Longrightarrow> leaves J (notify_deleted n affected ds w)"
  by (induction ds arbitrary: w) (simp_all add: leaves_at, intro leaves_intros leaves_at leaves_call_wrapper)

lemma keeping_notified:
  assumes "keeping_store T J" shows "keeping_store (notifying T N wrap) J"
  by (intro keeping_store.intro; simp add: notifying_def nws_methods_def nws_CreateDirectory_def
      nws_UpdateDirectory_def nws_DeleteDirectory_def nws_CreateRoot_def)
    (intro leaves_intros leaves_at leaves_call_wrapper leaves_notify_deleted
      keeping_store.keeps_get [OF assms] keeping_store.keeps_parents [OF assms]
      keeping_store.keeps_until [OF assms] keeping_store.keeps_children [OF assms]
      keeping_store.keeps_roots [OF assms] keeping_store.keeps_create [OF assms]
      keeping_store.keeps_update [OF assms] keeping_store.keeps_delete [OF assms]
      keeping_store.keeps_create_root [OF assms]; assumption)+

end
