(* ===== verification/Interleavings.thy ===== *)
theory Interleavings
  imports Server_Keeps
begin

text \<open>
  Requests that are served at the same time. A handler that changes the store by two calls
  (\<open>createDirectory\<close> looks its parent up and then creates, \<open>updateDirectory\<close> reads and then writes) is
  cut between them; other requests may run in between. Every call of the store is one step, as
  is every handler that calls it once or only reads.

  \<^item> \<open>pending\<close> is a request in flight and \<open>pending_step\<close> its next step; \<open>uninterrupted\<close> shows that the
    steps of a request on its own are its handler.
  \<^item> \<open>pool_steps\<close>: requests arrive and run, in any schedule. \<open>keeps_pool_steps\<close>: no schedule breaks
    what the calls of the store keep.
  \<^item> \<open>create_outruns_delete\<close>: over any directory store, a creation whose parent is deleted between
    its two steps succeeds.
\<close>

section \<open>Requests in flight\<close>

datatype pending =
    Arrived route "nat \<Rightarrow> inputs" http_request
  | Creating "nat \<Rightarrow> inputs" create_directory_request directory_id
  | Patching "nat \<Rightarrow> inputs" update_directory_request "addr option"
  | Answered "http_response outcome"

fun proceed :: "'w \<times> 'a outcome \<Rightarrow> ('w \<Rightarrow> go_error \<Rightarrow> 'w \<times> pending) \<Rightarrow> ('w \<Rightarrow> 'a \<Rightarrow> 'w \<times> pending) \<Rightarrow> 'w \<times> pending" where
  "proceed (w, Ok x) on_err on_ok = on_ok w x"
| "proceed (w, Err e) on_err on_ok = on_err w e"
| "proceed (w, ErrWith x e) on_err on_ok = on_err w e"
| "proceed (w, Panic) on_err on_ok = (w, Answered Panic)"
| "proceed (w, Diverge) on_err on_ok = (w, Answered Diverge)"

abbreviation answer :: "http_response \<Rightarrow> pending" where
  "answer r \<equiv> Answered (Ok r)"

definition create_check :: "('db, 'bus) directory_admin \<Rightarrow> (string \<Rightarrow> uuid option) \<Rightarrow> (nat \<Rightarrow> inputs)
    \<Rightarrow> http_request \<Rightarrow> ('db, 'bus) world \<Rightarrow> ('db, 'bus) world \<times> pending" where
  "create_check T uuid_Parse inps req w =
     (case ParseDirectoryID uuid_Parse (req_id req) of
        Inl e \<Rightarrow> (w, answer (bad_request ''invalid id''))
      | Inr i \<Rightarrow>
          (case req_create req of
             Inl e \<Rightarrow> (w, answer (bad_request (error_text e)))
           | Inr r \<Rightarrow>
               proceed (GetDirectory T (inps 0) i [] w)
                 (\<lambda>w e. if errors_is e ErrDirectoryNotFound
                        then (w, answer (bad_request ''parent directory not found''))
                        else (w, answer (server_error ''internal server error'')))
                 (\<lambda>w parent. (w, Creating inps r (DirId (heap w parent))))))"

definition create_finish :: "('db, 'bus) directory_admin \<Rightarrow> (nat \<Rightarrow> inputs) \<Rightarrow> create_directory_request
    \<Rightarrow> directory_id \<Rightarrow> ('db, 'bus) world \<Rightarrow> ('db, 'bus) http_run" where
  "create_finish T inps r parentID w =
     (let (d, w) = alloc (zero_directory\<lparr>Name := create_Name r, Metadata := create_Metadata r,
                            Parent := Some parentID\<rparr>) w
      in handle (CreateDirectory T (inps 1) d w)
           (\<lambda>w e. (w, Ok (server_error ''internal server error'')))
           (\<lambda>w rd. (w, Ok (fetch_response 201 (heap w rd)))))"

definition update_read :: "('db, 'bus) directory_admin \<Rightarrow> (string \<Rightarrow> uuid option) \<Rightarrow> (nat \<Rightarrow> inputs)
    \<Rightarrow> http_request \<Rightarrow> ('db, 'bus) world \<Rightarrow> ('db, 'bus) world \<times> pending" where
  "update_read T uuid_Parse inps req w =
     (case ParseDirectoryID uuid_Parse (req_id req) of
        Inl e \<Rightarrow> (w, answer (bad_request ''invalid id''))
      | Inr i \<Rightarrow>
          (case req_update req of
             Inl e \<Rightarrow> (w, answer (bad_request (error_text e)))
           | Inr r \<Rightarrow>
               proceed (GetDirectory T (inps 0) i [] w)
                 (\<lambda>w e. if errors_is e ErrDirectoryNotFound
                        then (w, answer (not_found ''directory not found''))
                        else (w, Patching inps r None))
                 (\<lambda>w d. (w, Patching inps r (Some d)))))"

fun settle :: "('db, 'bus) http_run \<Rightarrow> ('db, 'bus) world \<times> pending" where
  "settle (w, r) = (w, Answered r)"

fun pending_step :: "('db, 'bus) directory_admin \<Rightarrow> (string \<Rightarrow> uuid option)
    \<Rightarrow> (http_request \<Rightarrow> http_response option) \<Rightarrow> pending \<Rightarrow> ('db, 'bus) world \<Rightarrow> ('db, 'bus) world \<times> pending" where
  "pending_step T p auth (Arrived (R_create i) inps req) w =
     (case auth req of Some resp \<Rightarrow> (w, answer resp) | None \<Rightarrow> create_check T p inps (req\<lparr>req_id := i\<rparr>) w)"
| "pending_step T p auth (Arrived (R_update i) inps req) w =
     (case auth req of Some resp \<Rightarrow> (w, answer resp) | None \<Rightarrow> update_read T p inps (req\<lparr>req_id := i\<rparr>) w)"
| "pending_step T p auth (Arrived rt inps req) w = settle (serve T p auth inps rt req w)"
| "pending_step T p auth (Creating inps r parentID) w = settle (create_finish T inps r parentID w)"
| "pending_step T p auth (Patching inps r d) w = settle (apply_update T inps r d w)"
| "pending_step T p auth (Answered r) w = (w, Answered r)"

text \<open>A request on its own takes at most two steps, and they are its handler.\<close>

definition step_answer :: "('db, 'bus) directory_admin \<Rightarrow> (string \<Rightarrow> uuid option)
    \<Rightarrow> (http_request \<Rightarrow> http_response option) \<Rightarrow> ('db, 'bus) world \<times> pending \<Rightarrow> ('db, 'bus) world \<times> pending" where
  "step_answer T p auth wq = pending_step T p auth (snd wq) (fst wq)"

lemma pending_step_settle [simp]: "step_answer T p auth (settle r) = settle r"
  by (cases r) (simp add: step_answer_def)

lemma step_proceed:
  assumes "\<And>w e. step_answer T p auth (f w e) = settle (f' w e)" "\<And>w x. step_answer T p auth (g w x) = settle (g' w x)"
  shows "step_answer T p auth (proceed r f g) = settle (handle r f' g')"
  using assms by (cases "(r, f', g')" rule: handle.cases) (simp_all add: step_answer_def)

lemma create_steps: "step_answer T p auth (create_check T p inps req w) = settle (createDirectory T p inps req w)"
  unfolding create_check_def createDirectory_def
  by (auto simp: step_answer_def split: sum.split
      intro!: step_proceed [unfolded step_answer_def] simp: create_finish_def Let_def)

lemma update_steps: "step_answer T p auth (update_read T p inps req w) = settle (updateDirectory T p inps req w)"
  unfolding update_read_def updateDirectory_def
  by (auto simp: step_answer_def split: sum.split intro!: step_proceed [unfolded step_answer_def])

lemma uninterrupted:
  "step_answer T p auth (pending_step T p auth (Arrived rt inps req) w) = settle (serve T p auth inps rt req w)"
  by (cases rt) (simp_all add: create_steps update_steps split: option.split, simp_all add: step_answer_def)

section \<open>Schedules\<close>

text \<open>A state is the list of the requests that have arrived and the world.\<close>

inductive pool_step :: "('db, 'bus) directory_admin \<Rightarrow> (string \<Rightarrow> uuid option)
    \<Rightarrow> (http_request \<Rightarrow> http_response option) \<Rightarrow> pending list \<times> ('db, 'bus) world
    \<Rightarrow> pending list \<times> ('db, 'bus) world \<Rightarrow> bool"
  for T p auth where
  arrives: "pool_step T p auth (qs, w) (qs @ [Arrived rt inps req], w)"
| runs: "k < length qs \<Longrightarrow> pending_step T p auth (qs ! k) w = (w', q) \<Longrightarrow> pool_step T p auth (qs, w) (qs[k := q], w')"

abbreviation pool_steps :: "('db, 'bus) directory_admin \<Rightarrow> (string \<Rightarrow> uuid option)
    \<Rightarrow> (http_request \<Rightarrow> http_response option) \<Rightarrow> pending list \<times> ('db, 'bus) world
    \<Rightarrow> pending list \<times> ('db, 'bus) world \<Rightarrow> bool" where
  "pool_steps T p auth \<equiv> (pool_step T p auth)\<^sup>*\<^sup>*"

text \<open>A single request, of a route whose handler is one step.\<close>

lemma one_request:
  assumes "\<forall>i. rt \<noteq> R_create i \<and> rt \<noteq> R_update i"
  shows "\<exists>w' r. pending_step T p auth (Arrived rt inps req) w = (w', Answered r)
    \<and> pool_steps T p auth ([], w) ([Answered r], w')"
proof -
  let ?q = "Arrived rt inps req"
  obtain w' r where r: "serve T p auth inps rt req w = (w', r)" by force
  then have step: "pending_step T p auth ?q w = (w', Answered r)"
    using assms by (cases rt) (auto simp del: serve.simps)
  have "pool_step T p auth ([], w) ([?q], w)" using pool_step.arrives [of T p auth "[]"] by simp
  moreover have "pool_step T p auth ([?q], w) ([Answered r], w')"
    using pool_step.runs [of 0 "[?q]" T p auth] step by simp
  ultimately show ?thesis using step by (meson rtranclp.rtrancl_into_rtrancl rtranclp.rtrancl_refl)
qed

section \<open>What every schedule keeps\<close>

lemma leaves_settle: "J (db (fst (settle r))) \<longleftrightarrow> leaves J r"
  by (cases r) (simp add: leaves_def)

lemma leaves_proceed:
  "leaves J r \<Longrightarrow> (\<And>w e. J (db w) \<Longrightarrow> J (db (fst (f w e)))) \<Longrightarrow> (\<And>w x. J (db w) \<Longrightarrow> J (db (fst (g w x))))
    \<Longrightarrow> J (db (fst (proceed r f g)))"
  by (cases "(r, f, g)" rule: proceed.cases) (simp_all add: leaves_def)

context keeping_store
begin

lemma keeps_pending_step:
  assumes "J (db w)"
  shows "J (db (fst (pending_step T p auth q w)))"
proof -
  have create: "J (db (fst (create_check T p inps req w)))" for inps req
    unfolding create_check_def using assms by (auto split: sum.split intro!: leaves_proceed [OF keeps_get])
  have update: "J (db (fst (update_read T p inps req w)))" for inps req
    unfolding update_read_def using assms by (auto split: sum.split intro!: leaves_proceed [OF keeps_get])
  have finish: "leaves J (create_finish T inps r i w)" for inps r i
    unfolding create_finish_def Let_def by (intro keeps_steps assms)
  have serves: "J (db (fst (settle (serve T p auth inps rt req w))))" for inps rt req
    using keeps_serve [OF assms, of p auth inps rt req] by (simp add: leaves_settle leaves_def)
  show ?thesis
  proof (cases q)
    case (Arrived rt inps req)
    with assms create update serves show ?thesis by (cases rt) (auto simp del: serve.simps split: option.split)
  qed (use assms finish keeps_apply_update [OF assms] in \<open>simp_all add: leaves_settle\<close>)
qed

lemma keeps_pool_step: "pool_step T p auth s s' \<Longrightarrow> J (db (snd s)) \<Longrightarrow> J (db (snd s'))"
proof (induction rule: pool_step.induct)
  case (runs k qs w w' q)
  then show ?case using keeps_pending_step [of w p auth "qs ! k"] by simp
qed simp

lemma keeps_pool_steps: "pool_steps T p auth s s' \<Longrightarrow> J (db (snd s)) \<Longrightarrow> J (db (snd s'))"
  by (induction rule: rtranclp_induct) (auto intro: keeps_pool_step)

end

section \<open>Two requests\<close>

lemma first_runs:
  "pool_steps T p auth s ([q1, q2], w) \<Longrightarrow> pending_step T p auth q1 w = (w', q) \<Longrightarrow> pool_steps T p auth s ([q, q2], w')"
  using pool_step.runs [of 0 "[q1, q2]" T p auth w w' q] by (simp add: rtranclp.rtrancl_into_rtrancl)

lemma second_runs:
  "pool_steps T p auth s ([q1, q2], w) \<Longrightarrow> pending_step T p auth q2 w = (w', q) \<Longrightarrow> pool_steps T p auth s ([q1, q], w')"
  using pool_step.runs [of 1 "[q1, q2]" T p auth w w' q] by (simp add: rtranclp.rtrancl_into_rtrancl)

context directory_store
begin

text \<open>A creation looks its parent up, the parent is deleted, the creation goes on.\<close>

lemma create_outruns_delete:
  assumes "inv w" "\<And>k. avail (inps k)" "\<And>k. avail (inps' k)" "auth req = None" "auth req' = None"
    and "p i = Some u" "live_child (view w) (DirectoryID u)" "req_create req = Inr r"
    and "view w (in_uuid (inps 1)) = None"
  shows "\<exists>w' d resp resp'. pool_steps T p auth ([Arrived (R_create i) inps req, Arrived (R_delete i) inps' req'], w)
        ([answer resp, answer resp'], w') \<and> status resp = 201 \<and> status resp' = 200
    \<and> view w' (in_uuid (inps 1)) = Some d \<and> DeletedAt d = None \<and> Parent d = Some (DirectoryID u)
    \<and> (\<exists>e. view w' (DirectoryID u) = Some e \<and> DeletedAt e \<noteq> None)"
proof -
  let ?q = "DirectoryID u"
  obtain e where e: "view w ?q = Some e" "DeletedAt e = None" using assms(7) by (auto simp: live_child_def)
  then have "visible (WithDeleted (BuildOptions [])) e" by (simp add: visible_def)
  then obtain w1 a where get: "GetDirectory T (inps 0) ?q [] w = (w1, Ok a)" "heap w1 a = e" "view w1 = view w" "inv w1"
    using get_found [OF assms(1) assms(2) e(1)] by blast
  have id: "DirId e = ?q" using tree_ok_id [OF inv_tree [OF assms(1)] e(1)] .
  have check: "pending_step T p auth (Arrived (R_create i) inps req) w = (w1, Creating inps r ?q)"
    using get(1,2) id assms(4,8) by (simp add: create_check_def ParseDirectoryID_Some [of p, OF assms(6)])
  obtain w2 ids where del: "deleteDirectory T p inps' (req'\<lparr>req_id := i\<rparr>) w1 = (w2, Ok (Response 200 (ListBody
        \<lparr>list_Links = \<lparr>Next = None\<rparr>, list_Directories = ids, list_Page = 0, list_PageSize = 0,
         list_Version = APIVersion\<rparr>)))" "?q \<in> set ids" "inv w2"
    "view w2 = mark_deleted (set ids) (in_time1 (inps' 0)) (view w1)"
    using server_delete [of w1 inps' p "req'\<lparr>req_id := i\<rparr>" u] get(3,4) assms(3,6,7) by auto
  let ?gone = "Response 200 (ListBody \<lparr>list_Links = \<lparr>Next = None\<rparr>, list_Directories = ids, list_Page = 0,
    list_PageSize = 0, list_Version = APIVersion\<rparr>)"
  have deletes: "pending_step T p auth (Arrived (R_delete i) inps' req') w1 = (w2, answer ?gone)"
    using del(1) assms(5) by simp
  let ?d = "zero_directory\<lparr>Name := create_Name r, Metadata := create_Metadata r, Parent := Some ?q\<rparr>"
  have new: "view w2 (in_uuid (inps 1)) = None" using assms(9) get(3) del(4) by (simp add: mark_deleted_def)
  have parent: "?q \<in> dom (view w2)" using e(1) get(3) del(4) by (auto simp: mark_deleted_def)
  obtain w3 b t where cr: "CreateDirectory T (inps 1) (fst (alloc ?d w2)) (snd (alloc ?d w2)) = (w3, Ok b)"
    "heap w3 b = stored_new (inps 1) t ?d" "view w3 = (view w2)(in_uuid (inps 1) \<mapsto> stored_new (inps 1) t ?d)"
    using create_directory [OF del(3) assms(2) new _ parent, of ?d] by (auto simp: zero_directory_def)
  have creates: "pending_step T p auth (Creating inps r ?q) w2 = (w3, answer (fetch_response 201 (heap w3 b)))"
    using cr(1) by (simp add: create_finish_def case_prod_unfold Let_def)
  have "pool_steps T p auth ([Arrived (R_create i) inps req, Arrived (R_delete i) inps' req'], w)
      ([answer (fetch_response 201 (heap w3 b)), answer ?gone], w3)"
    by (rule first_runs [OF second_runs [OF first_runs [OF rtranclp.rtrancl_refl check] deletes] creates])
  moreover have "view w3 ?q = Some (e\<lparr>DeletedAt := Some (in_time1 (inps' 0))\<rparr>)"
    using cr(3) new parent e(1) get(3) del(2,4) by (auto simp: mark_deleted_def domIff)
  ultimately show ?thesis
    using cr(3)
    by (intro exI [of _ w3] exI [of _ "stored_new (inps 1) t ?d"] exI [of _ "fetch_response 201 (heap w3 b)"]
        exI [of _ ?gone]) (simp add: stored_new_def zero_directory_def fetch_response_def)
qed

end

end
