(* ===== verification/Crdb_History.thy ===== *)
theory Crdb_History
  imports Crdb_Contract Interleavings
begin

text \<open>
  The versions of the table that the CockroachDB driver commits, with any options of the driver,
  any engine and any inputs, faults included. \<open>history_ok\<close>: every version is well-formed, and a later
  version keeps the rows of an earlier one: none is removed, moved, recreated or revived.
\<close>

definition table_grows :: "directory list \<Rightarrow> directory list \<Rightarrow> bool" where
  "table_grows earlier later \<longleftrightarrow> (\<forall>d \<in> set earlier. \<exists>e \<in> set later. row_kept d e)"

definition history_ok :: "crdb_state \<Rightarrow> bool" where
  "history_ok s \<longleftrightarrow> list_all table_ok (rows s # past s)
     \<and> sorted_wrt (\<lambda>later earlier. table_grows earlier later) (rows s # past s)"

lemma table_grows_trans: "table_grows A B \<Longrightarrow> table_grows B C \<Longrightarrow> table_grows A C"
  unfolding table_grows_def by (meson row_kept_trans)

lemma table_grows_append [simp]: "table_grows table (table @ new)"
  by (auto simp: table_grows_def intro: row_kept_refl)

lemma table_grows_map: "(\<And>d. row_kept d (f d)) \<Longrightarrow> table_grows table (map f table)"
  by (auto simp: table_grows_def)

lemma table_ok_map:
  assumes "table_ok table" "\<And>d. row_kept d (f d)"
  shows "table_ok (map f table)"
proof -
  have "map DirId (map f table) = map DirId table" using assms(2) by (simp add: row_kept_def)
  moreover have "tree_ok (\<lambda>i. map_option f (table_forest table i))"
    using assms(2) by (intro tree_ok_map table_ok_tree [OF assms(1)]) (simp_all add: row_kept_def)
  moreover have "table_forest (map f table) = (\<lambda>i. map_option f (table_forest table i))"
    using assms(2) by (intro table_forest_map) (simp add: row_kept_def)
  ultimately show ?thesis using table_ok_distinct [OF assms(1)] by (metis table_ok_def)
qed

lemma table_ok_insert:
  assumes "table_ok table" "sql_insert row table = Inr table'"
  shows "table_ok table' \<and> table_grows table table'"
proof -
  have new: "DirId row \<notin> DirId ` set table" "table' = table @ [row]"
    "\<And>p. Parent row = Some p \<Longrightarrow> p \<in> DirId ` set table"
    using assms(2) by (auto simp: sql_insert_def split: if_splits option.splits)
  then have "table_forest table (DirId row) = None" using table_forest_dom [of table] by (auto simp: domIff)
  then have "tree_ok ((table_forest table)(DirId row \<mapsto> row))"
    using new(3) by (intro tree_ok_insert [OF table_ok_tree [OF assms(1)]]) (simp_all add: table_forest_dom)
  moreover have "table_forest table' = (table_forest table)(DirId row \<mapsto> row)"
    unfolding new(2) using new(1) by (rule table_forest_append)
  moreover have "distinct (map DirId table')"
    using new(1,2) table_ok_distinct [OF assms(1)] by simp
  ultimately show ?thesis using new(2) by (simp add: table_ok_def)
qed

lemma history_commit:
  assumes "history_ok (db w)" "table_ok table" "table_grows (rows (db w)) table"
  shows "history_ok (db (commit table w))"
  using assms table_grows_trans by (auto simp: history_ok_def commit_def)

lemma history_heap [simp]: "db (write_ptr a d w) = db w" "db (snd (alloc d w)) = db w"
  by (simp_all add: world_simps)

section \<open>The operations\<close>

lemma update_row_kept: "row_kept d (update_row inp e d)"
  by (simp add: update_row_def row_kept_def)

lemma history_table_ok: "history_ok (db w) \<Longrightarrow> table_ok (rows (db w))"
  by (simp add: history_ok_def)

lemma history_insert:
  assumes "history_ok (db w)" "sql_insert row (rows (db w)) = Inr table"
  shows "history_ok (db (commit table w))"
  using table_ok_insert [OF history_table_ok [OF assms(1)] assms(2)] assms(1) by (intro history_commit) simp_all

lemma history_map:
  assumes "history_ok (db w)" "\<And>d. row_kept d (f d)"
  shows "history_ok (db (commit (map f (rows (db w))) w))"
  using assms by (intro history_commit table_ok_map history_table_ok table_grows_map)

lemma leaves_insert_directory:
  assumes "history_ok (db w)"
  shows "leaves history_ok (insert_directory inp a w)"
proof -
  let ?w = "write_ptr a (default_metadata (heap w a)) w"
  have "history_ok (db ?w)" using assms by simp
  note ins = history_insert [OF this]
  show ?thesis
    unfolding insert_directory_def Let_def leaves_def
    using assms ins by (auto split: option.split sum.split)
qed

lemma leaves_update:
  assumes "history_ok (db w)"
  shows "leaves history_ok (crdb_UpdateDirectory t inp ptr w)"
proof -
  have "history_ok (db (commit (map (update_row inp d) (rows (db w))) (write_ptr a e w)))" for d a e
    using history_map [of "write_ptr a e w", OF _ update_row_kept] assms by simp
  then show ?thesis
    using assms by (auto simp: crdb_UpdateDirectory_def Let_def leaves_def split: option.split sum.split)
qed

lemma db_affected_loop: "db (fst (affected_loop st k rs aff w)) = db w"
  by (induction rs arbitrary: k aff w) (auto simp: alloc_def split: row_step.split)

lemma leaves_delete:
  assumes "history_ok (db w)"
  shows "leaves history_ok (crdb_DeleteDirectory t inp i w)"
proof -
  have "history_ok (db (commit (map (\<lambda>d. if DeletedAt d = None \<and> P d then d\<lparr>DeletedAt := Some now\<rparr> else d)
      (rows (db w))) w))" for P now
    using assms by (intro history_map) (simp_all add: row_kept_def)
  then show ?thesis
    using assms by (simp add: crdb_DeleteDirectory_def Let_def leaves_def db_affected_loop split: option.split)
qed

lemma crdb_keeping: "keeping_store (crdb_admin t) history_ok"
proof
  show "leaves history_ok (GetDirectory (crdb_admin t) inp i options w)" if "history_ok (db w)"
    for w :: "'b crdb_world" and inp i options
    using that by (auto simp: crdb_admin_def crdb_GetDirectory_def Let_def leaves_def alloc_def split: sum.split)
qed (simp_all add: crdb_admin_def leaves_at leaves_update leaves_delete leaves_insert_directory
    crdb_CreateRoot_def crdb_CreateDirectory_def)

interpretation crdb_keeps: keeping_store "crdb_admin t" history_ok for t
  by (rule crdb_keeping)

interpretation crdb_server_keeps: keeping_store "server_store (crdb_admin t) N retry" history_ok for t N retry
  unfolding server_store_def StorageWithNotifier_retrier by (rule keeping_notified [OF crdb_keeping])

end
