(* ===== verification/Family.thy ===== *)
theory Family
  imports Treemanager_Laws App_Laws
begin

text \<open>
  Concrete worlds of the in-memory driver, on which the theorems are instantiated:
  \<open>family ps b\<close> holds the directories \<open>1, \<dots>, length ps\<close>, each created one nanosecond after the
  one before; the list gives the position of each one's parent.
\<close>

definition member_id :: "nat \<Rightarrow> directory_id" where
  "member_id a = DirectoryID (word_of_nat (Suc a))"

definition member :: "nat option list \<Rightarrow> nat \<Rightarrow> directory" where
  "member ps a = zero_directory\<lparr>DirId := member_id a, CreatedAt := GoTime (int (Suc a)) 0,
     Parent := (if a < length ps then map_option member_id (ps ! a) else None)\<rparr>"

definition family :: "nat option list \<Rightarrow> 'bus \<Rightarrow> 'bus mem_world" where
  "family ps b = \<lparr>heap = member ps, brk = length ps,
     db = map (\<lambda>a. (member_id a, DirPtr a)) [0..<length ps], bus = b\<rparr>"

definition family_ok :: "nat option list \<Rightarrow> bool" where
  "family_ok ps \<longleftrightarrow> length ps < 1000 \<and> (\<forall>a < length ps. \<forall>p. ps ! a = Some p \<longrightarrow> p < a)"

lemma unat_member_id:
  assumes "a < 1000" shows "unat (uuid_of (member_id a)) = Suc a"
proof -
  have "Suc a < 2 ^ 128" using assms by simp
  then show ?thesis by (simp add: member_id_def unsigned_of_nat take_bit_nat_eq_self del: of_nat_Suc)
qed

lemma member_id_inj: "a < 1000 \<Longrightarrow> b < 1000 \<Longrightarrow> member_id a = member_id b \<longleftrightarrow> a = b"
  using unat_member_id by (metis Suc_inject)

lemma member_simps [simp]:
  "DirId (member ps a) = member_id a" "DeletedAt (member ps a) = None"
  "CreatedAt (member ps a) = GoTime (int (Suc a)) 0" "Metadata (member ps a) = None"
  "a < length ps \<Longrightarrow> Parent (member ps a) = map_option member_id (ps ! a)"
  by (simp_all add: member_def zero_directory_def)

lemma family_keys_distinct:
  assumes "n \<le> 1000" shows "distinct (map member_id [0..<n])"
  using assms member_id_inj by (auto simp: distinct_map inj_on_def)

lemma mem_wf_family:
  assumes "family_ok ps" shows "mem_wf (family ps b)"
proof -
  have "map fst (db (family ps b)) = map member_id [0..<length ps]"
    by (simp add: family_def o_def)
  then have "distinct (map fst (db (family ps b)))"
    using family_keys_distinct [of "length ps"] assms by (simp add: family_ok_def)
  then show ?thesis by (auto simp: mem_wf_def family_def entry_ok_def)
qed

lemma mem_ptr_family:
  assumes "family_ok ps" "a < length ps"
  shows "mem_ptr (family ps b) (member_id a) = Some a"
proof -
  have "map_of (db (family ps b)) (member_id a) = Some (DirPtr a)"
    using mem_wf_distinct [OF mem_wf_family [OF assms(1)]] assms(2)
    by (intro map_of_distinct_mem) (auto simp: family_def)
  then show ?thesis by (simp add: mem_ptr_map_of)
qed

lemma mem_view_family:
  assumes "family_ok ps" "a < length ps"
  shows "mem_view (family ps b) (member_id a) = Some (member ps a)"
  using mem_ptr_family [OF assms, of b] by (simp add: mem_view_def) (simp add: family_def)

lemma mem_view_family_cases:
  assumes "family_ok ps" "mem_view (family ps b) i = Some d"
  obtains a where "a < length ps" "i = member_id a" "d = member ps a"
proof -
  obtain a where a: "map_of (db (family ps b)) i = Some (DirPtr a)" "d = heap (family ps b) a"
    using assms(2) by (auto simp: mem_view_Some mem_ptr_map_of)
  from map_of_SomeD [OF a(1)] have "a < length ps" "i = member_id a" by (auto simp: family_def)
  with a(2) that show thesis by (simp add: family_def)
qed

lemma mem_view_family_None:
  assumes "family_ok ps" "\<And>a. a < length ps \<Longrightarrow> i \<noteq> member_id a"
  shows "mem_view (family ps b) i = None"
  using assms by (metis mem_view_family_cases option.exhaust)

lemma mem_inv_family:
  assumes "family_ok ps" shows "mem_inv (family ps b)"
proof -
  let ?F = "mem_view (family ps b)"
  have small: "a < 1000" if "a < length ps" for a
    using that assms by (simp add: family_ok_def)
  have "rank_ok (\<lambda>i. unat (uuid_of i)) ?F"
    unfolding rank_ok_def
  proof (intro allI impI)
    fix i d p assume d: "?F i = Some d" "Parent d = Some p"
    from assms d(1) obtain a where a: "a < length ps" "i = member_id a" "d = member ps a"
      by (rule mem_view_family_cases)
    with d(2) obtain q where q: "ps ! a = Some q" "p = member_id q" by auto
    with a(1) assms have "q < a" by (simp add: family_ok_def)
    with a q small show "unat (uuid_of p) < unat (uuid_of i)"
      by (simp add: unat_member_id)
  qed
  moreover have "dom ?F \<subseteq> member_id ` {..<length ps}"
    using assms by (auto elim: mem_view_family_cases)
  then have "finite (dom ?F)" by (rule finite_subset) simp
  moreover have "p \<in> dom ?F" if d: "?F i = Some d" "Parent d = Some p" for i d p
  proof -
    from assms d(1) obtain a where a: "a < length ps" "i = member_id a" "d = member ps a"
      by (rule mem_view_family_cases)
    with d(2) obtain q where q: "ps ! a = Some q" "p = member_id q" by auto
    with a(1) assms have "q < length ps" by (fastforce simp: family_ok_def)
    with q(2) mem_view_family [OF assms, of q b] show ?thesis by auto
  qed
  moreover have "DirId d = i" if "?F i = Some d" for i d
    using assms that by (auto elim: mem_view_family_cases)
  ultimately have "tree_ok ?F" by (intro tree_okI) blast+
  with mem_wf_family [OF assms] show ?thesis by (simp add: mem_inv_def)
qed

text \<open>A chain \<open>1 <- 2 <- 3\<close> and a root whose one child has eleven children.\<close>

definition chain3 :: "nat option list" where
  "chain3 = [None, Some 0, Some 1]"

definition star11 :: "nat option list" where
  "star11 = None # Some 0 # replicate 11 (Some 1)"

lemma family_ok_examples [simp]: "family_ok chain3" "family_ok star11"
  by (auto simp: family_ok_def chain3_def star11_def nth_Cons' less_Suc_eq)

lemmas mem_inv_examples [simp] = mem_inv_family [OF family_ok_examples(1)] mem_inv_family [OF family_ok_examples(2)]

lemma card_descendants_family:
  assumes "family_ok ps"
  shows "card (descendants (mem_view (family ps b)) dels i) \<le> length ps"
proof -
  have "dom (mem_view (family ps b)) \<subseteq> member_id ` {..<length ps}"
    using assms by (auto elim: mem_view_family_cases)
  then have "descendants (mem_view (family ps b)) dels i \<subseteq> member_id ` {..<length ps}"
    using descendants_subset_dom by blast
  then have "card (descendants (mem_view (family ps b)) dels i) \<le> card (member_id ` {..<length ps})"
    by (intro card_mono) simp_all
  also have "\<dots> \<le> length ps" using card_image_le [of "{..<length ps}" member_id] by simp
  finally show ?thesis .
qed

lemma family_member:
  "family_ok ps \<Longrightarrow> a < length ps \<Longrightarrow>
    \<exists>d. mem_view (family ps b) (member_id a) = Some d \<and> DeletedAt d = None
      \<and> Parent d = map_option member_id (ps ! a)"
  by (simp add: mem_view_family)

lemma chain3_simps [simp]:
  "length chain3 = 3" "chain3 ! 0 = None" "chain3 ! 1 = Some 0" "chain3 ! Suc 0 = Some 0" "chain3 ! 2 = Some 1"
  by (simp_all add: chain3_def)

lemma chain3_chain:
  "parent_chain (mem_view (family chain3 b)) dels (member_id 2) [member_id 1, member_id 0]"
proof (intro parent_chain.intros)
  show "mem_view (family chain3 b) (member_id 2) = Some (member chain3 2)"
    "mem_view (family chain3 b) (member_id 1) = Some (member chain3 1)"
    "mem_view (family chain3 b) (member_id 0) = Some (member chain3 0)"
    by (simp_all add: mem_view_family)
qed (simp_all add: visible_def)

lemma star11_simps [simp]: "length star11 = 13" "star11 ! 0 = None" "star11 ! 1 = Some 0"
  "star11 ! Suc 0 = Some 0"
  by (simp_all add: star11_def)

lemma star11_descendants: "member_id a \<in> descendants (mem_view (family star11 b)) dels (member_id 1)"
  if "1 < a" "a \<le> 12"
proof -
  have "star11 ! a = Some 1" using that by (auto simp: star11_def nth_Cons')
  with that show ?thesis
    using mem_view_family [OF family_ok_examples(2), of a b]
    by (auto simp: descendants_def visible_def intro!: descends.child)
qed

lemma card_star11: "10 < card (descendants (mem_view (family star11 b)) dels (member_id 1))"
proof -
  have "inj_on member_id {2..12}" using member_id_inj by (auto simp: inj_on_def)
  then have "card (member_id ` {2..12}) = 11" by (simp add: card_image)
  moreover have "card (member_id ` {2..12}) \<le> card (descendants (mem_view (family star11 b)) dels (member_id 1))"
    by (intro card_mono finite_descendants mem_invD(2) mem_inv_examples image_subsetI
        star11_descendants) simp_all
  ultimately show ?thesis by simp
qed

lemma star11_live: "live_child (mem_view (family star11 b)) (member_id 1)"
  by (simp add: live_child_def mem_view_family)

text \<open>The chain with its middle directory deleted.\<close>

definition broken_chain :: "'bus \<Rightarrow> 'bus mem_world" where
  "broken_chain b = write_ptr 1 ((member chain3 1)\<lparr>DeletedAt := Some (GoTime 50 0)\<rparr>) (family chain3 b)"

lemma broken_chain_view:
  "mem_view (broken_chain b) = mark_deleted {member_id 1} (GoTime 50 0) (mem_view (family chain3 b))"
  and broken_chain_inv: "mem_inv (broken_chain b)"
proof -
  have ptr: "mem_ptr (family chain3 b) (member_id 1) = Some 1" by (rule mem_ptr_family) simp_all
  have heap: "heap (family chain3 b) 1 = member chain3 1" by (simp add: family_def)
  note one = mem_mark_one [OF mem_invD(1) [OF mem_inv_examples(1)] ptr, of "GoTime 50 0",
    unfolded heap, folded broken_chain_def]
  show view: "mem_view (broken_chain b) = mark_deleted {member_id 1} (GoTime 50 0) (mem_view (family chain3 b))"
    by (rule one(2))
  show "mem_inv (broken_chain b)"
    using one(1) tree_ok_mark_deleted [OF mem_invD(2) [OF mem_inv_examples(1)]]
    by (simp add: mem_inv_def view)
qed

lemma broken_chain_no_chain: "\<not> parent_chain (mem_view (broken_chain b)) False (member_id 2) ps"
proof -
  have two: "mem_view (broken_chain b) (member_id 2) = Some (member chain3 2)"
    and one: "mem_view (broken_chain b) (member_id 1)
      = Some ((member chain3 1)\<lparr>DeletedAt := Some (GoTime 50 0)\<rparr>)"
    using member_id_inj [of 2 1]
    by (simp_all add: broken_chain_view mark_deleted_def mem_view_family del: One_nat_def)
  have "\<not> parent_chain (mem_view (broken_chain b)) False (member_id 1) qs" for qs
    using one by (auto elim: parent_chain.cases simp: visible_def simp del: One_nat_def)
  then show ?thesis
    using two by (auto elim: parent_chain.cases simp del: One_nat_def)
qed

lemma fresh_example [simp]: "mem_view (family chain3 b) (DirectoryID 99) = None"
  by (rule mem_view_family_None [OF family_ok_examples(1)])
    (auto simp: member_id_def less_Suc_eq numeral_3_eq_3)

end
