(* ===== verification/Memory_Properties.thy ===== *)
theory Memory_Properties
  imports Family
begin

text \<open>
  The properties of the in-memory driver and of the storage options, each with a witness on a
  concrete world where the theorem has hypotheses.
\<close>

section \<open>The contract\<close>


section \<open>Listings\<close>

text \<open>C13: \<open>GetChildren\<close> of the in-memory driver returns a page of one list that holds every
  visible descendant of the directory exactly once, in order of creation.\<close>

theorem memory_children_listed:
  assumes "mem_inv w" "page_in_range (BuildOptions options)"
  shows "\<exists>cs. mem_GetChildren r options w = Ok (page_of (BuildOptions options) cs)
    \<and> distinct cs \<and> set cs = descendants (mem_view w) (WithDeleted (BuildOptions options)) r
    \<and> sorted (map (\<lambda>i. time_ns (CreatedAt (the (mem_view w i)))) cs)"
proof -
  obtain as where as: "mem_getChildren r (BuildOptions options) w = Ok as" "distinct (ids_of w as)"
    "set (ids_of w as) = descendants (mem_view w) (WithDeleted (BuildOptions options)) r"
    "set as \<subseteq> set (ptrs (db w))"
    using mem_getChildren_spec [OF assms(1)] by blast
  let ?cs = "ids_of w (sort_key (creation_key w) as)"
  have "time_ns (CreatedAt (the (mem_view w (DirId (heap w a))))) = creation_key w a" if "a \<in> set as" for a
    using that as(4) in_ptrs_iff [OF mem_invD(1) [OF assms(1)]]
    by (auto simp: mem_view_def creation_key_def)
  then have "map (\<lambda>i. time_ns (CreatedAt (the (mem_view w i)))) ?cs
      = map (creation_key w) (sort_key (creation_key w) as)"
    by simp
  then have "sorted (map (\<lambda>i. time_ns (CreatedAt (the (mem_view w i)))) ?cs)"
    by (simp only: sorted_sort_key)
  moreover have "distinct ?cs" using as(2) by (simp add: distinct_map)
  ultimately show ?thesis
    using mem_GetChildren_eq [OF as(1) assms(2)] as(3) by (intro exI [of _ ?cs]) simp
qed

theorem memory_children_listed_witness:
  "mem_inv (family star11 ()) \<and> page_in_range (BuildOptions [])
    \<and> (\<exists>cs. mem_GetChildren (member_id 0) [] (family star11 ()) = Ok (take 10 cs)
        \<and> set cs = descendants (mem_view (family star11 ())) False (member_id 0))"
  using memory_children_listed [of "family star11 ()" "[]" "member_id 0"] by auto



text \<open>\<open>ListRoots\<close> of the in-memory driver returns a page of a list that holds every visible
  root exactly once.\<close>

theorem memory_roots_listed:
  assumes "mem_inv w" "page_in_range (BuildOptions options)"
  shows "\<exists>rs. mem_ListRoots options w = Ok (page_of (BuildOptions options) rs)
    \<and> distinct rs \<and> set rs = roots_of (mem_view w) (WithDeleted (BuildOptions options))"
  using mem.list_roots [OF assms(1), of "WithDeleted (BuildOptions options)"] assms(2) by auto

theorem memory_roots_listed_witness:
  "mem_inv (family chain3 ()) \<and> (\<exists>rs. mem_ListRoots [] (family chain3 ()) = Ok (take 10 rs)
    \<and> set rs = roots_of (mem_view (family chain3 ())) False)"
  using memory_roots_listed [of "family chain3 ()" "[]"] by auto

text \<open>C22: \<open>GetParents\<close> of the in-memory driver on a chain of at most twelve parents, each younger
  than its own parent: the page is taken from the root-first order, the reverse of the
  order in which the loop collected them, because the less function of the sort reads
  a slice that the sort does not move.\<close>

theorem memory_parents_root_first:
  assumes "mem_inv w" "page_in_range (BuildOptions options)"
    and chain: "parent_chain (mem_view w) (WithDeleted (BuildOptions options)) i ps" "length ps \<le> 12"
    and age: "\<And>j. Suc j < length ps \<Longrightarrow>
      time_Before (CreatedAt (the (mem_view w (ps ! Suc j)))) (CreatedAt (the (mem_view w (ps ! j))))"
  shows "mem_GetParents i options w = Ok (page_of (BuildOptions options) (rev ps))"
proof -
  have view: "mem_view w (ps ! j) = Some (heap w (ptr_of w (ps ! j)))" if "j < length ps" for j
  proof -
    have "ps ! j \<in> set ps" using that by simp
    then obtain d where "mem_view w (ps ! j) = Some d"
      using parent_chain_in_dom [OF chain(1)] by fastforce
    then show ?thesis by (auto simp: mem_view_Some ptr_of_def)
  qed
  have "sort_slice (parents_less (heap w) (map (ptr_of w) ps)) ps = rev ps"
    using age view by (intro sort_slice_reverses) (simp add: parents_less_def)
  then show ?thesis using mem_GetParents_eq [OF mem_invD(1) [OF assms(1)] assms(2) chain(1)] by simp
qed

theorem memory_parents_root_first_witness:
  "parent_chain (mem_view (family chain3 ())) False (member_id 2) [member_id 1, member_id 0]
    \<and> mem_GetParents (member_id 2) [] (family chain3 ()) = Ok [member_id 0, member_id 1]"
  using memory_parents_root_first [of "family chain3 ()" "[]" "member_id 2" "[member_id 1, member_id 0]"]
  by (simp add: chain3_chain chain3_chain [simplified] mem_view_family time_Before_def)

text \<open>\<open>GetParents\<close> of the in-memory driver fails with \<open>ErrDirectoryNotFound\<close> when some
  directory on the way up is deleted and deleted directories are not asked for; the loop ends.\<close>

theorem memory_parents_hidden:
  assumes "mem_inv w" "mem_view w i = Some d"
    and "\<nexists>ps. parent_chain (mem_view w) (WithDeleted (BuildOptions options)) i ps"
  shows "mem_GetParents i options w = Err ErrDirectoryNotFound"
  using mem_GetParents_hidden [OF assms] .

theorem memory_parents_hidden_witness:
  "mem_GetParents (member_id 2) [] (broken_chain ()) = Err ErrDirectoryNotFound"
proof (rule memory_parents_hidden)
  show "mem_view (broken_chain ()) (member_id 2) = Some (member chain3 2)"
    using member_id_inj [of 2 1] by (simp add: broken_chain_view mark_deleted_def mem_view_family)
qed (simp_all add: broken_chain_inv broken_chain_no_chain)

text \<open>\<open>GetParentsUntilAncestor\<close> of the in-memory driver returns a page of the parents up to
  and including the ancestor, each once, when the ancestor is above the directory.\<close>

theorem memory_until_listed:
  assumes "mem_inv w" "page_in_range (BuildOptions options)"
    and "parent_chain (mem_view w) (WithDeleted (BuildOptions options)) i ps" "anc \<in> set ps"
  shows "\<exists>qs. mem_GetParentsUntilAncestor i anc options w = Ok (page_of (BuildOptions options) qs)
    \<and> mset qs = mset (takeWhile (\<lambda>p. p \<noteq> anc) ps @ [anc])"
  using mem.get_until [OF assms(1,3,4)] assms(2) by auto

theorem memory_until_listed_witness:
  "mem_GetParentsUntilAncestor (member_id 2) (member_id 1) [] (family chain3 ()) = Ok [member_id 1]"
proof -
  obtain qs where "mem_GetParentsUntilAncestor (member_id 2) (member_id 1) [] (family chain3 ())
      = Ok (page_of (BuildOptions []) qs)" "mset qs = {#member_id 1#}"
    using memory_until_listed [of "family chain3 ()" "[]" "member_id 2" "[member_id 1, member_id 0]" "member_id 1"]
      chain3_chain by fastforce
  then show ?thesis by (simp add: mset_single_iff)
qed

text \<open>\<open>GetParentsUntilAncestor\<close> of the in-memory driver panics when the starting directory is
  a root and is itself the ancestor asked for: it dereferences the root's nil parent.\<close>

theorem memory_until_root_panics:
  assumes "mem_inv w" "mem_view w i = Some d" "Parent d = None"
    and "visible (WithDeleted (BuildOptions options)) d"
  shows "mem_GetParentsUntilAncestor i i options w = Panic"
proof -
  have wf: "mem_wf w" and id: "DirId d = i"
    using assms(1,2) by (auto simp: mem_invD dest: tree_ok_id [OF mem_invD(2)])
  from until_loop_root_itself [OF wf assms(2,4,3) id] mem_GetDirectory_visible(1) [OF wf assms(2,4)]
  show ?thesis by (simp add: mem_GetParentsUntilAncestor_def returned_def)
qed

theorem memory_until_root_panics_witness:
  "mem_GetParentsUntilAncestor (member_id 0) (member_id 0) [] (family chain3 ()) = Panic"
  by (rule memory_until_root_panics [of _ _ "member chain3 0"])
    (simp_all add: mem_view_family visible_def)

text \<open>C40: A page whose 64-bit offset wrapped below zero makes every listing of the in-memory
  driver panic, whatever is stored.\<close>

theorem memory_offset_overflow_panics:
  assumes "mem_inv w" "sint (GetPageOffset (BuildOptions options)) < 0"
  shows "mem_GetChildren r options w = Panic \<and> mem_ListRoots options w = Panic"
proof
  obtain as where as: "mem_getChildren r (BuildOptions options) w = Ok as"
    using mem_getChildren_spec [OF assms(1)] by blast
  with assms(2) show "mem_GetChildren r options w = Panic"
    by (simp add: mem_GetChildren_def page_copy_negative_offset)
  show "mem_ListRoots options w = Panic"
    using assms(2) mem_wf_no_Foreign [OF mem_invD(1) [OF assms(1)]]
    by (simp add: mem_ListRoots_def collect_roots_filter page_copy_negative_offset)
qed

theorem memory_offset_overflow_panics_witness:
  "mem_GetChildren (member_id 0) [Pagination 3 0x4000000000000000] (family chain3 ()) = Panic"
  by (rule memory_offset_overflow_panics [THEN conjunct1])
    (simp_all add: BuildOptions_def Pagination_def GetPageOffset_def GetPageSize_def GetPage_def
      new_options_def)

section \<open>Writes\<close>

text \<open>A directory created under an existing parent is found by its identifier with its
  fields, its metadata defaulted to the empty map; the rest of the forest is unchanged and the
  invariant kept.\<close>

theorem memory_create_then_get:
  assumes "mem_inv w" "mem_view w (in_uuid inp) = None"
    and "Parent d = Some q" "q \<in> dom (mem_view w)" "DeletedAt d = None"
  shows "\<exists>w' p t a. mem_CreateDirectory inp (fst (alloc d w)) (snd (alloc d w)) = (w', Ok p)
    \<and> mem_inv w' \<and> mem_view w' = (mem_view w)(in_uuid inp \<mapsto> stored_new inp t d)
    \<and> mem_GetDirectory (in_uuid inp) [] w' = Ok a \<and> heap w' a = stored_new inp t d"
  using mem.create_then_get [OF assms(1) TrueI TrueI assms(2-5)] by fastforce

definition example_inputs :: "nat \<Rightarrow> inputs" where
  "example_inputs k = \<lparr>in_uuid = DirectoryID (99 + word_of_nat k), in_time1 = GoTime 100 0,
     in_time2 = GoTime 101 0, in_fault = None, in_row = (\<lambda>_. RowOk), in_lag = 0\<rparr>"

theorem memory_create_then_get_witness:
  "\<exists>w' p a. mem_CreateDirectory (example_inputs 0)
      (fst (alloc (zero_directory\<lparr>Parent := Some (member_id 2)\<rparr>) (family chain3 ())))
      (snd (alloc (zero_directory\<lparr>Parent := Some (member_id 2)\<rparr>) (family chain3 ()))) = (w', Ok p)
    \<and> mem_GetDirectory (DirectoryID 99) [] w' = Ok a \<and> Parent (heap w' a) = Some (member_id 2)"
proof -
  let ?d = "zero_directory\<lparr>Parent := Some (member_id 2)\<rparr>"
  have "member_id 2 \<in> dom (mem_view (family chain3 ()))" by (simp add: mem_view_family domIff)
  then show ?thesis
    using memory_create_then_get [of "family chain3 ()" "example_inputs 0" ?d "member_id 2"]
    by (fastforce simp: example_inputs_def stored_new_def zero_directory_def)
qed

text \<open>An update of a live directory through the pointer a lookup returned is seen by the
  next lookup: name and metadata as written, \<open>UpdatedAt\<close> fresh, everything else, and
  every other directory, unchanged.\<close>

theorem memory_update_then_get:
  assumes "mem_inv w" "mem_view w i = Some d0" "DeletedAt d0 = None"
  shows "\<exists>a w' b. mem_GetDirectory i [] w = Ok a
    \<and> mem_UpdateDirectory inp (Some a) (write_ptr a (d0\<lparr>Name := n, Metadata := m\<rparr>) w) = (w', Ok ())
    \<and> mem_inv w' \<and> mem_view w' = (mem_view w)(i \<mapsto> stored_update inp (d0\<lparr>Name := n, Metadata := m\<rparr>))
    \<and> mem_GetDirectory i [] w' = Ok b \<and> heap w' b = stored_update inp (d0\<lparr>Name := n, Metadata := m\<rparr>)"
  using mem.update_then_get [OF assms(1) TrueI TrueI TrueI assms(2,3), where n = n and m = m] by fastforce

theorem memory_update_then_get_witness:
  "\<exists>a w' b. mem_GetDirectory (member_id 1) [] (family chain3 ()) = Ok a
    \<and> mem_UpdateDirectory (example_inputs 0) (Some a)
        (write_ptr a ((member chain3 1)\<lparr>Name := ''renamed'', Metadata := None\<rparr>) (family chain3 ())) = (w', Ok ())
    \<and> mem_GetDirectory (member_id 1) [] w' = Ok b
    \<and> Name (heap w' b) = ''renamed'' \<and> Parent (heap w' b) = Some (member_id 0)"
proof -
  have "mem_view (family chain3 ()) (member_id 1) = Some (member chain3 1)"
    by (rule mem_view_family) simp_all
  from memory_update_then_get [OF mem_inv_examples(1) this, of "example_inputs 0" None "''renamed''"]
  show ?thesis by (fastforce simp: stored_update_def)
qed

text \<open>\<open>DeleteDirectory\<close> on a live directory with a parent and at most ten live descendants:
  it returns the directory and all of them, afterwards none of them is found unless deleted
  directories are asked for, then with the time of the deletion; nothing else changes.\<close>

theorem memory_delete_then_get:
  assumes "mem_inv w" "live_child (mem_view w) i"
    and "card (descendants (mem_view w) False i) \<le> 10"
  shows "\<exists>w' ps. mem_DeleteDirectory inp i w = (w', Ok ps) \<and> mem_inv w'
    \<and> set (map (\<lambda>a. DirId (heap w' a)) ps) = subtree (mem_view w) i
    \<and> (\<forall>j \<in> subtree (mem_view w) i. mem_GetDirectory j [] w' = Err ErrDirectoryNotFound
         \<and> (\<exists>a. mem_GetDirectory j [WithDeletedDirectories] w' = Ok a
              \<and> DeletedAt (heap w' a) = Some (in_time1 inp)))
    \<and> (\<forall>j. j \<notin> subtree (mem_view w) i \<longrightarrow> mem_view w' j = mem_view w j)"
  using mem.delete_then_get [OF assms(1) TrueI TrueI assms(2,3), of inp undefined] by simp

theorem memory_delete_then_get_witness:
  "live_child (mem_view (family chain3 ())) (member_id 1)
    \<and> (\<exists>w' ps. mem_DeleteDirectory (example_inputs 0) (member_id 1) (family chain3 ()) = (w', Ok ps)
        \<and> mem_GetDirectory (member_id 1) [] w' = Err ErrDirectoryNotFound)"
proof -
  have live: "live_child (mem_view (family chain3 ())) (member_id 1)"
    by (simp add: live_child_def mem_view_family)
  have "card (descendants (mem_view (family chain3 ())) False (member_id 1)) \<le> length chain3"
    by (rule card_descendants_family) simp
  then have "card (descendants (mem_view (family chain3 ())) False (member_id 1)) \<le> 10" by simp
  from memory_delete_then_get [OF mem_inv_examples(1) live this, of "example_inputs 0"] live
  show ?thesis by (fastforce simp: subtree_def)
qed

text \<open>C14: With more than ten live descendants, \<open>DeleteDirectory\<close> of the in-memory driver reports
  success with eleven directories and leaves some descendant live below a
  deleted directory: it lists the descendants with the default page.\<close>

theorem memory_delete_leaves_descendants:
  assumes "mem_inv w" "live_child (mem_view w) i"
    and "10 < card (descendants (mem_view w) False i)"
  shows "\<exists>w' ps j. mem_DeleteDirectory inp i w = (w', Ok ps) \<and> length ps = 11
    \<and> mem_GetDirectory i [] w' = Err ErrDirectoryNotFound
    \<and> descends (mem_view w) False i j \<and> mem_view w' j = mem_view w j
    \<and> (\<exists>a. mem_GetDirectory j [] w' = Ok a)"
proof -
  obtain d where d: "mem_view w i = Some d" "DeletedAt d = None" "Parent d \<noteq> None"
    using assms(2) by (auto simp: live_child_def)
  note age = children_by_age_spec [OF assms(1), of i]
  have len: "10 < length (children_by_age w i)"
    using assms(3) age(1) distinct_card [OF age(2)] by simp
  let ?del = "i # take 10 (children_by_age w i)" and ?j = "children_by_age w i ! 10"
  obtain w' where w': "mem_DeleteDirectory inp i w = (w', Ok (map (ptr_of w) ?del))" "mem_inv w'"
    "mem_view w' = mark_deleted (set ?del) (in_time1 inp) (mem_view w)"
    using mem_DeleteDirectory_spec [OF assms(1) d, of inp] by (elim exE conjE) (rule that)
  have j: "descends (mem_view w) False i ?j" using age(1) nth_mem [OF len] by (auto simp: descendants_def)
  then have "?j \<noteq> i" using descends_irrefl [OF mem_invD(2) [OF assms(1)]] by metis
  moreover have "?j \<notin> set (take 10 (children_by_age w i))"
    using age(2) len by (auto simp: in_set_conv_nth nth_eq_iff_index_eq)
  ultimately have same: "mem_view w' ?j = mem_view w ?j" by (simp add: w'(3) mark_deleted_def)
  obtain e where "mem_view w ?j = Some e" "visible False e" using descends_visible [OF j] by blast
  with same have "\<exists>a. mem_GetDirectory ?j [] w' = Ok a"
    using mem_GetDirectory_found [OF mem_invD(1) [OF w'(2)], of ?j e "[]"] by auto
  moreover have "mem_GetDirectory i [] w' = Err ErrDirectoryNotFound"
    using d(1) by (intro mem_GetDirectory_missing mem_invD(1) w'(2))
      (auto simp: w'(3) mark_deleted_def visible_def)
  moreover have "length (map (ptr_of w) ?del) = 11" using len by simp
  ultimately show ?thesis using w'(1) j same by blast
qed

theorem memory_delete_leaves_descendants_witness:
  "\<exists>w' ps j. mem_DeleteDirectory (example_inputs 0) (member_id 1) (family star11 ()) = (w', Ok ps)
    \<and> length ps = 11 \<and> mem_GetDirectory (member_id 1) [] w' = Err ErrDirectoryNotFound
    \<and> descends (mem_view (family star11 ())) False (member_id 1) j
    \<and> (\<exists>a. mem_GetDirectory j [] w' = Ok a)"
  using memory_delete_leaves_descendants [OF mem_inv_examples(2) star11_live card_star11,
      where inp = "example_inputs 0" and b1 = "()"]
  by metis

text \<open>The writes of the in-memory driver refuse what they must: a directory without a parent,
  a root with one, a deletion of a root, of a deleted or of an unknown directory; the
  world is unchanged.\<close>

theorem memory_write_errors:
  assumes "mem_inv w"
  shows "(Parent (heap w a) = None \<longrightarrow> mem_CreateDirectory inp a w = (w, Err ErrDirectoryWithoutParent))
    \<and> (Parent (heap w a) \<noteq> None \<longrightarrow> mem_CreateRoot inp a w = (w, Err ErrRootWithParentDirectory))
    \<and> (\<not> live_child (mem_view w) i \<longrightarrow> mem_DeleteDirectory inp i w = (w, Err ErrDirectoryNotFound))"
  using assms by (auto simp: mem_CreateDirectory_def mem_CreateRoot_def live_child_def mem_invD
      intro!: mem_DeleteDirectory_missing)

theorem memory_write_errors_witness:
  "mem_DeleteDirectory (example_inputs 0) (member_id 0) (family chain3 ())
    = (family chain3 (), Err ErrDirectoryNotFound)"
  by (rule memory_write_errors [THEN conjunct2, THEN conjunct2, rule_format]) (simp_all add: live_child_def mem_view_family)

end
