(* ===== verification/Server_Properties.thy ===== *)
theory Server_Properties
  imports Memory_Properties
begin

text \<open>
  The properties of the notifiers and of the tree manager's HTTP server, over the in-memory
  store behind a notifier.
\<close>

section \<open>Notifications\<close>

text \<open>The in-memory store behind the no-op notifier, retried any number of times, is a
  directory store itself: notifying changes nothing a client can rely on.\<close>

theorem notified_memory_is_directory_store:
  "directory_store (server_store memory_driver noop_NewNotifier (attempts n)) mem_inv mem_view (\<lambda>inp. True)"
  unfolding server_store_def StorageWithNotifier_retrier
  by (rule memory_noop.notified.directory_store_axioms)

text \<open>When JetStream accepts every message, a deletion through the NATS notifier publishes one
  event per affected directory, in the order of the returned list, on the subject made of the
  prefix and \<open>delete\<close>, and each event carries the directory as stored.\<close>

theorem nats_delete_publishes_each:
  assumes "\<And>evt. enc evt = Inr (json evt)"
    and "\<And>s p os b. js_Publish nn s p os b = (b @ [(s, p)], None)"
    and "DeleteDirectory T inp i w = (w', Ok ps)"
  shows "DeleteDirectory (server_store T (nats_methods enc (\<lambda>b. t) nn) (attempts k)) inp i w
    = (w'\<lparr>bus := bus w' @ map (\<lambda>a. (subjectPrefix nn @ ''.delete'',
         json (event_for EventTypeDelete (heap w' a) t))) ps\<rparr>, Ok ps)"
proof -
  let ?N = "nats_methods enc (\<lambda>b. t) nn"
  let ?nws = "\<lparr>DirectoryAdmin = T, nws_notifier = ?N, notifyWrapper = Some (attempts k)\<rparr>"
  let ?msg = "\<lambda>w a. (subjectPrefix nn @ ''.delete'', json (event_for EventTypeDelete (heap w a) t))"
  have one: "attempts k (notify_handler (NotifyDelete ?N) (Some d)) b
      = (b @ [(subjectPrefix nn @ ''.delete'', json (event_for EventTypeDelete d t))], Ok ())" for d b
    by (rule attempts_Ok)
      (simp add: notify_handler_def notify_event_Some publish_def assms(1,2) event_for_def)
  have "notify_deleted ?nws qs ds w = (w\<lparr>bus := bus w @ map (?msg w) ds\<rparr>, Ok qs)" for qs ds w
  proof (induction ds arbitrary: w)
    case (Cons d ds)
    then show ?case using call_wrapper_Some [where wrap = "attempts k" and w = w, OF one] by simp
  qed simp
  then show ?thesis
    unfolding server_store_def StorageWithNotifier_retrier notifying_delete [OF assms(3)] .
qed

definition recorder :: "((string \<times> string) list, unit, string) nats_notifier" where
  "recorder = nats_NewNotifier (\<lambda>s p os b. (b @ [(s, p)], None)) ''infratographer.events.directories'' []"

theorem nats_delete_publishes_each_witness:
  "\<exists>w' ps msg. DeleteDirectory (server_store memory_driver
      (nats_methods (\<lambda>evt. Inr (Name (event_Directory evt))) (\<lambda>b. zero_time) recorder) (attempts 3))
      (example_inputs 0) (member_id 1) (family chain3 []) = (w', Ok ps)
    \<and> bus w' = map msg ps \<and> (\<forall>a. fst (msg a) = ''infratographer.events.directories.delete'')"
proof -
  have live: "live_child (mem_view (family chain3 [])) (member_id 1)"
    by (simp add: live_child_def mem_view_family)
  let ?w = "family chain3 ([] :: (string \<times> string) list)"
  have empty: "bus ?w = []" by (simp add: family_def)
  obtain w' ps where "mem_DeleteDirectory (example_inputs 0) (member_id 1) ?w = (w', Ok ps)" "bus w' = bus ?w"
    using mem_DeleteDirectory_bus [OF mem_inv_examples(1) live] by blast
  then have del: "DeleteDirectory memory_driver (example_inputs 0) (member_id 1) ?w = (w', Ok ps)" "bus w' = []"
    unfolding memory_driver_simps empty .
  show ?thesis
    using nats_delete_publishes_each [where json = "\<lambda>evt. Name (event_Directory evt)" and nn = recorder
        and t = zero_time and k = 3, OF refl _ del(1)] del(2)
    by (fastforce simp: recorder_def nats_NewNotifier_def)
qed

text \<open>A driver made by \<open>StorageWithNotifier\<close> without the retrier has a nil wrapper: a
  directory is created in the store and then the call panics.\<close>

theorem no_wrapper_panics:
  assumes "CreateDirectory T inp a w = (w', Ok p)"
  shows "CreateDirectory (StorageWithNotifier T N []) inp a w = (w', Panic)"
  using assms
  by (simp add: StorageWithNotifier_def nws_methods_def nws_CreateDirectory_def call_wrapper_def)

theorem no_wrapper_panics_witness:
  "\<exists>w' d. CreateDirectory (StorageWithNotifier memory_driver noop_NewNotifier []) (example_inputs 0)
      (fst (alloc (new_directory \<lparr>create_Metadata = None, create_Name = ''x'', create_Version = ''v1''\<rparr>
        (Some (member_id 2))) (family chain3 ())))
      (snd (alloc (new_directory \<lparr>create_Metadata = None, create_Name = ''x'', create_Version = ''v1''\<rparr>
        (Some (member_id 2))) (family chain3 ()))) = (w', Panic)
    \<and> mem_view w' (DirectoryID 99) = Some d"
proof -
  let ?d = "new_directory \<lparr>create_Metadata = None, create_Name = ''x'', create_Version = ''v1''\<rparr> (Some (member_id 2))"
  have "member_id 2 \<in> dom (mem_view (family chain3 ()))" by (simp add: mem_view_family domIff)
  then obtain w' p t where c: "CreateDirectory memory_driver (example_inputs 0) (fst (alloc ?d (family chain3 ())))
      (snd (alloc ?d (family chain3 ()))) = (w', Ok p)"
    "mem_view w' = (mem_view (family chain3 ()))(DirectoryID 99 \<mapsto> stored_new (example_inputs 0) t ?d)"
    using mem.create_directory [OF mem_inv_examples(1) TrueI, where inp = "example_inputs 0" and d = ?d and q = "member_id 2"]
    by (fastforce simp: example_inputs_def)
  from no_wrapper_panics [OF c(1), of noop_NewNotifier] c(2) show ?thesis by auto
qed

text \<open>Wrappers nest in the order of the options: the notification is handed to the wrapper of
  the first option, which calls that of the second, and so on to the notifier.\<close>

theorem wrappers_nest:
  assumes "wraps \<noteq> []"
  shows "notifyWrapper (fold (\<lambda>opt nws. opt nws) (map addWrapper wraps)
      \<lparr>DirectoryAdmin = T, nws_notifier = N, notifyWrapper = None\<rparr>)
    = Some (\<lambda>h. foldr (\<lambda>wrap h. wrap h) wraps h)"
proof -
  have some: "notifyWrapper (fold (\<lambda>opt nws. opt nws) (map addWrapper ws) n)
      = Some (\<lambda>h. wrap (foldr (\<lambda>wrap h. wrap h) ws h))" if "notifyWrapper n = Some wrap" for ws n wrap
    using that
  proof (induction ws arbitrary: n wrap)
    case (Cons v ws)
    have "notifyWrapper (addWrapper v n) = Some (\<lambda>h. wrap (v h))"
      using Cons.prems by (simp add: addWrapper_def)
    from Cons.IH [OF this] show ?case by simp
  qed simp
  obtain v ws where "wraps = v # ws" using assms by (cases wraps) auto
  then show ?thesis by (simp add: some addWrapper_def)
qed

theorem wrappers_nest_witness:
  "notifyWrapper (fold (\<lambda>opt nws. opt nws) (map addWrapper [attempts 1, attempts 2])
      \<lparr>DirectoryAdmin = memory_driver, nws_notifier = noop_NewNotifier, notifyWrapper = None\<rparr>)
    = Some (\<lambda>h. attempts 1 (attempts 2 h))"
  using wrappers_nest [of "[attempts 1, attempts 2]" memory_driver noop_NewNotifier] by simp

section \<open>The HTTP server over the in-memory store\<close>

text \<open>
  \<open>mem_server\<close> is the store the tree manager serves when its driver is the in-memory one and its
  notifier the default. \<open>no_query\<close> is a request without a query string.
\<close>

definition mem_server :: "nat \<Rightarrow> (dir_map, 'bus) directory_admin" where
  "mem_server n = server_store memory_driver noop_NewNotifier (attempts n)"

lemma mem_server_notifying: "mem_server n = notifying memory_driver noop_NewNotifier (attempts n)"
  by (simp add: mem_server_def server_store_def StorageWithNotifier_retrier)

definition no_query :: "http_request \<Rightarrow> bool" where
  "no_query req \<longleftrightarrow> req_query req = (\<lambda>_. None)"

lemma options_no_query: "no_query req \<Longrightarrow> storageOptionsFromGetQuery (req_query (req\<lparr>req_id := i\<rparr>)) = Inr []"
  by (simp add: no_query_def storageOptionsFromGetQuery_def positive_query_def)

text \<open>A directory posted under a live parent is answered with 201 and the directory as stored:
  the requested name and metadata, the parent of the path, a fresh identifier; a GET of that
  identifier then answers 200 with the same directory.\<close>

theorem server_create_then_get:
  assumes "mem_inv w" "auth req = None" "auth req' = None"
    and "uuid_Parse s = Some u" "uuid_Parse s' = Some (uuid_of (in_uuid (inps 1)))"
    and "req_create req = Inr r" "no_query req'"
    and "mem_view w (DirectoryID u) = Some q" "DeletedAt q = None"
    and "mem_view w (in_uuid (inps 1)) = None"
  shows "\<exists>w' d w''. serve (mem_server n) uuid_Parse auth inps (R_create s) req w = (w', Ok (fetch_response 201 d))
    \<and> DirId d = in_uuid (inps 1) \<and> Name d = create_Name r \<and> Parent d = Some (DirectoryID u)
    \<and> Metadata d = Some (case create_Metadata r of Some m \<Rightarrow> m | None \<Rightarrow> fmempty)
    \<and> mem_view w' = (mem_view w)(in_uuid (inps 1) \<mapsto> d) \<and> mem_inv w'
    \<and> serve (mem_server n) uuid_Parse auth inps' (R_get s') req' w' = (w'', Ok (fetch_response 200 d))"
proof -
  let ?req = "req\<lparr>req_id := s\<rparr>" and ?req' = "req'\<lparr>req_id := s'\<rparr>"
  obtain w' d t where c: "createDirectory (mem_server n) uuid_Parse inps ?req w = (w', Ok (fetch_response 201 d))"
    "d = stored_new (inps 1) t (new_directory r (Some (DirectoryID u)))"
    "mem_view w' = (mem_view w)(in_uuid (inps 1) \<mapsto> d)" "mem_inv w'"
    using memory_noop.notified.server_create [where inps = inps and req = ?req and uuid_Parse = uuid_Parse
        and n = n, OF assms(1) TrueI _ _ assms(8-10)] assms(4,6)
    unfolding mem_server_notifying by fastforce
  have "mem_view w' (DirectoryID (uuid_of (in_uuid (inps 1)))) = Some d" using c(3) by simp
  moreover have "visible (WithDeleted (BuildOptions [])) d"
    by (simp add: c(2) stored_new_def visible_def)
  ultimately obtain w'' where g: "getDirectory (mem_server n) uuid_Parse inps' ?req' w' = (w'', Ok (fetch_response 200 d))"
    using memory_noop.notified.server_get_found [where inps = inps' and req = ?req' and uuid_Parse = uuid_Parse
        and n = n, OF c(4) TrueI options_no_query [OF assms(7)]] assms(5)
    unfolding mem_server_notifying by fastforce
  show ?thesis
    by (intro exI [of _ w'] exI [of _ d] exI [of _ w''])
      (simp add: assms(2,3) c(1,3,4) g, simp add: c(2) stored_new_def new_directory_def default_metadata_def
        split: option.splits)
qed

definition example_request :: http_request where
  "example_request = \<lparr>req_id = '''', req_until = '''', req_query = (\<lambda>_. None),
     req_create = Inr \<lparr>create_Metadata = None, create_Name = ''docs'', create_Version = ''v1''\<rparr>,
     req_update = Inr \<lparr>update_Metadata = None, update_Name = Some ''papers'', update_Version = ''v1''\<rparr>,
     req_path = ''/api/v1/roots'', req_scheme = '''', req_tls = False, req_host = ''localhost'',
     req_header = (\<lambda>_. ''''), req_client_ip = ''10.0.0.1'', req_remote_ip = ''10.0.0.1''\<rparr>"

text \<open>The identifier \<open>n\<close> is written as \<open>n\<close> letters, a fresh one as \<open>new\<close>.\<close>

definition example_Parse :: "string \<Rightarrow> uuid option" where
  "example_Parse s = Some (if s = ''new'' then 100 else word_of_nat (length s))"

lemma example_simps [simp]:
  "no_query example_request" "example_Parse ''x'' = Some (uuid_of (member_id 0))"
  "example_Parse ''xx'' = Some (uuid_of (member_id 1))" "example_Parse ''new'' = Some 100"
  "req_create example_request = Inr \<lparr>create_Metadata = None, create_Name = ''docs'', create_Version = ''v1''\<rparr>"
  "req_update example_request = Inr \<lparr>update_Metadata = None, update_Name = Some ''papers'', update_Version = ''v1''\<rparr>"
  "in_uuid (example_inputs k) = DirectoryID (99 + word_of_nat k)"
  by (simp_all add: no_query_def example_request_def example_Parse_def member_id_def example_inputs_def)

lemma chain3_fresh [simp]: "mem_view (family chain3 b) (DirectoryID 100) = None"
  by (rule mem_view_family_None [OF family_ok_examples(1)])
    (auto simp: member_id_def less_Suc_eq numeral_3_eq_3)

lemma chain3_views [simp]:
  "mem_view (family chain3 b) (member_id 0) = Some (member chain3 0)"
  "mem_view (family chain3 b) (member_id 1) = Some (member chain3 1)"
  "mem_view (family chain3 b) (member_id (Suc 0)) = Some (member chain3 1)"
  "mem_view (family chain3 b) (member_id 2) = Some (member chain3 2)"
  by (simp_all add: mem_view_family)

theorem server_create_then_get_witness:
  "\<exists>w' d w''. serve (mem_server 2) example_Parse (\<lambda>_. None) example_inputs (R_create ''xx'') example_request
      (family chain3 ()) = (w', Ok (fetch_response 201 d))
    \<and> Name d = ''docs'' \<and> Parent d = Some (member_id 1)
    \<and> serve (mem_server 2) example_Parse (\<lambda>_. None) example_inputs (R_get ''new'') example_request w'
        = (w'', Ok (fetch_response 200 d))"
  using server_create_then_get [of "family chain3 ()" "\<lambda>_. None" example_request example_request example_Parse
      "''xx''" "uuid_of (member_id 1)" "''new''" example_inputs
      "\<lparr>create_Metadata = None, create_Name = ''docs'', create_Version = ''v1''\<rparr>" "member chain3 1" 2 example_inputs]
  by fastforce

text \<open>Posting below a parent that is unknown or deleted is answered with 400, and leaves the
  forest as it was.\<close>

theorem server_create_no_parent_effect:
  assumes "mem_inv w" "auth req = None" "uuid_Parse s = Some u" "req_create req = Inr r"
    and "\<And>q. mem_view w (DirectoryID u) = Some q \<Longrightarrow> DeletedAt q \<noteq> None"
  shows "\<exists>w'. serve (mem_server n) uuid_Parse auth inps (R_create s) req w
      = (w', Ok (bad_request ''parent directory not found'')) \<and> mem_view w' = mem_view w"
  using memory_noop.notified.server_create_no_parent [where inps = inps and req = "req\<lparr>req_id := s\<rparr>"
      and uuid_Parse = uuid_Parse and n = n, OF assms(1) TrueI _ _ assms(5)] assms(2-4)
  unfolding mem_server_notifying by fastforce

theorem server_create_no_parent_effect_witness:
  "\<exists>w'. serve (mem_server 2) example_Parse (\<lambda>_. None) example_inputs (R_create ''new'') example_request
      (family chain3 ()) = (w', Ok (bad_request ''parent directory not found''))"
  using server_create_no_parent_effect [of "family chain3 ()" "\<lambda>_. None" example_request example_Parse "''new''" 100
      "\<lparr>create_Metadata = None, create_Name = ''docs'', create_Version = ''v1''\<rparr>" 2 example_inputs]
  by fastforce

text \<open>C24: A PATCH of a live directory is answered with 200 and the directory as now stored: the name
  if a non-empty one was sent, the metadata if any was sent, a new \<open>UpdatedAt\<close>; identifier, parent,
  \<open>CreatedAt\<close> and the rest of the forest are unchanged. A PATCH of a directory that is
  not found is answered with 404 and changes nothing.\<close>

theorem server_update_effect:
  assumes "mem_inv w" "auth req = None" "uuid_Parse s = Some u" "req_update req = Inr r"
  shows "(mem_view w (DirectoryID u) = Some d \<and> DeletedAt d = None \<longrightarrow>
      (\<exists>w' d'. serve (mem_server n) uuid_Parse auth inps (R_update s) req w = (w', Ok (fetch_response 200 d'))
        \<and> mem_view w' = (mem_view w)(DirectoryID u \<mapsto> d') \<and> mem_inv w'
        \<and> Name d' = (case update_Name r of Some n \<Rightarrow> if n \<noteq> '''' then n else Name d | None \<Rightarrow> Name d)
        \<and> Metadata d' = (case update_Metadata r of Some m \<Rightarrow> Some m
             | None \<Rightarrow> case Metadata d of Some m \<Rightarrow> Some m | None \<Rightarrow> Some fmempty)
        \<and> UpdatedAt d' = in_time1 (inps 1) \<and> DirId d' = DirId d \<and> Parent d' = Parent d
        \<and> CreatedAt d' = CreatedAt d \<and> DeletedAt d' = None))
    \<and> ((\<forall>d. mem_view w (DirectoryID u) = Some d \<longrightarrow> DeletedAt d \<noteq> None) \<longrightarrow>
      (\<exists>w'. serve (mem_server n) uuid_Parse auth inps (R_update s) req w
        = (w', Ok (not_found ''directory not found'')) \<and> mem_view w' = mem_view w))"
proof (intro conjI impI, elim conjE)
  assume d: "mem_view w (DirectoryID u) = Some d" "DeletedAt d = None"
  obtain w' where w': "updateDirectory (mem_server n) uuid_Parse inps (req\<lparr>req_id := s\<rparr>) w
      = (w', Ok (fetch_response 200 (stored_update (inps 1) (patched r d))))"
    "mem_view w' = (mem_view w)(DirectoryID u \<mapsto> stored_update (inps 1) (patched r d))" "mem_inv w'"
    using memory_noop.notified.server_update [where inps = inps and req = "req\<lparr>req_id := s\<rparr>"
        and uuid_Parse = uuid_Parse and n = n, OF assms(1) TrueI _ _ d] assms(3,4)
    unfolding mem_server_notifying by fastforce
  show "\<exists>w' d'. serve (mem_server n) uuid_Parse auth inps (R_update s) req w = (w', Ok (fetch_response 200 d'))
        \<and> mem_view w' = (mem_view w)(DirectoryID u \<mapsto> d') \<and> mem_inv w'
        \<and> Name d' = (case update_Name r of Some n \<Rightarrow> if n \<noteq> '''' then n else Name d | None \<Rightarrow> Name d)
        \<and> Metadata d' = (case update_Metadata r of Some m \<Rightarrow> Some m
             | None \<Rightarrow> case Metadata d of Some m \<Rightarrow> Some m | None \<Rightarrow> Some fmempty)
        \<and> UpdatedAt d' = in_time1 (inps 1) \<and> DirId d' = DirId d \<and> Parent d' = Parent d
        \<and> CreatedAt d' = CreatedAt d \<and> DeletedAt d' = None"
    by (rule exI [of _ w'], rule exI [of _ "stored_update (inps 1) (patched r d)"])
      (use w' assms(2) d(2) in \<open>auto simp: stored_update_def patched_def default_metadata_def
         split: option.splits\<close>)
next
  assume "\<forall>d. mem_view w (DirectoryID u) = Some d \<longrightarrow> DeletedAt d \<noteq> None"
  then have "DeletedAt d \<noteq> None" if "mem_view w (DirectoryID u) = Some d" for d using that by blast
  from memory_noop.notified.server_update_missing [where inps = inps and req = "req\<lparr>req_id := s\<rparr>"
      and uuid_Parse = uuid_Parse and n = n, OF assms(1) TrueI _ _ this] assms(2-4)
  show "\<exists>w'. serve (mem_server n) uuid_Parse auth inps (R_update s) req w
      = (w', Ok (not_found ''directory not found'')) \<and> mem_view w' = mem_view w"
    unfolding mem_server_notifying by fastforce
qed

theorem server_update_effect_witness:
  "\<exists>w' d'. serve (mem_server 2) example_Parse (\<lambda>_. None) example_inputs (R_update ''xx'') example_request
      (family chain3 ()) = (w', Ok (fetch_response 200 d')) \<and> Name d' = ''papers''
      \<and> Parent d' = Some (member_id 0)"
proof -
  have "mem_view (family chain3 ()) (DirectoryID (uuid_of (member_id 1))) = Some (member chain3 1)
      \<and> DeletedAt (member chain3 1) = None" by simp
  from server_update_effect [where w = "family chain3 ()" and auth = "\<lambda>_. None" and req = example_request
      and uuid_Parse = example_Parse and s = "''xx''" and n = 2 and inps = example_inputs,
      THEN conjunct1, THEN mp, OF _ _ _ _ this]
  show ?thesis by fastforce
qed

text \<open>A DELETE of a live directory that is not a root and has at most ten live descendants is
  answered with 200 and the identifiers of the directory and of all of them; a GET of any of
  them is then answered with 404.\<close>

theorem server_delete_then_get:
  assumes "mem_inv w" "auth req = None" "auth req' = None"
    and "uuid_Parse s = Some u" "uuid_Parse s' = Some u'" "no_query req'"
    and "live_child (mem_view w) (DirectoryID u)"
    and "card (descendants (mem_view w) False (DirectoryID u)) \<le> 10"
    and "DirectoryID u' \<in> subtree (mem_view w) (DirectoryID u)"
  shows "\<exists>w' l w''. serve (mem_server n) uuid_Parse auth inps (R_delete s) req w = (w', Ok (Response 200 (ListBody l)))
    \<and> distinct (list_Directories l) \<and> set (list_Directories l) = subtree (mem_view w) (DirectoryID u)
    \<and> mem_inv w'
    \<and> serve (mem_server n) uuid_Parse auth inps' (R_get s') req' w' = (w'', Ok (not_found ''directory not found''))"
proof -
  obtain w' ids where d: "deleteDirectory (mem_server n) uuid_Parse inps (req\<lparr>req_id := s\<rparr>) w
      = (w', Ok (Response 200 (ListBody \<lparr>list_Links = \<lparr>Next = None\<rparr>, list_Directories = ids,
          list_Page = 0, list_PageSize = 0, list_Version = APIVersion\<rparr>)))"
    "distinct ids" "set ids = subtree (mem_view w) (DirectoryID u)"
    "mem_view w' = mark_deleted (set ids) (in_time1 (inps 0)) (mem_view w)" "mem_inv w'"
    using memory_noop.notified.server_delete [where inps = inps and req = "req\<lparr>req_id := s\<rparr>"
        and uuid_Parse = uuid_Parse and n = n, OF assms(1) TrueI _ assms(7)] assms(4,8)
    unfolding mem_server_notifying by fastforce
  have hidden: "\<not> visible (WithDeleted (BuildOptions [])) e" if "mem_view w' (DirectoryID u') = Some e" for e
    using that assms(9) by (auto simp: d(3,4) mark_deleted_def visible_def)
  obtain w'' where "getDirectory (mem_server n) uuid_Parse inps' (req'\<lparr>req_id := s'\<rparr>) w'
      = (w'', Ok (not_found ''directory not found''))"
    using memory_noop.notified.server_get_missing [where inps = inps' and req = "req'\<lparr>req_id := s'\<rparr>"
        and uuid_Parse = uuid_Parse and n = n, OF d(5) TrueI options_no_query [OF assms(6)] _ hidden] assms(5)
    unfolding mem_server_notifying by fastforce
  with d assms(2,3) show ?thesis
    by (intro exI [of _ w'] exI [of _ "\<lparr>list_Links = \<lparr>Next = None\<rparr>, list_Directories = ids,
          list_Page = 0, list_PageSize = 0, list_Version = APIVersion\<rparr>"] exI [of _ w'']) simp
qed

theorem server_delete_then_get_witness:
  "\<exists>w' l w''. serve (mem_server 2) example_Parse (\<lambda>_. None) example_inputs (R_delete ''xx'') example_request
      (family chain3 ()) = (w', Ok (Response 200 (ListBody l)))
    \<and> member_id 1 \<in> set (list_Directories l)
    \<and> serve (mem_server 2) example_Parse (\<lambda>_. None) example_inputs (R_get ''xx'') example_request w'
        = (w'', Ok (not_found ''directory not found''))"
proof -
  have live: "live_child (mem_view (family chain3 ())) (DirectoryID (uuid_of (member_id 1)))"
    by (simp add: live_child_def)
  have "card (descendants (mem_view (family chain3 ())) False (DirectoryID (uuid_of (member_id 1)))) \<le> length chain3"
    by (rule card_descendants_family) simp
  then have "card (descendants (mem_view (family chain3 ())) False (DirectoryID (uuid_of (member_id 1)))) \<le> 10" by simp
  from server_delete_then_get [where w = "family chain3 ()" and auth = "\<lambda>_. None" and req = example_request
      and req' = example_request and uuid_Parse = example_Parse and s = "''xx''" and s' = "''xx''"
      and u' = "uuid_of (member_id 1)" and n = 2 and inps = example_inputs and inps' = example_inputs,
      OF _ _ _ _ _ _ live this]
  show ?thesis by (fastforce simp: subtree_def)
qed

text \<open>A DELETE of a root, of a deleted or of an unknown directory is answered with 404 and
  changes nothing.\<close>

theorem server_delete_missing_effect:
  assumes "mem_inv w" "auth req = None" "uuid_Parse s = Some u"
    and "\<not> live_child (mem_view w) (DirectoryID u)"
  shows "\<exists>w'. serve (mem_server n) uuid_Parse auth inps (R_delete s) req w
      = (w', Ok (not_found ''directory not found'')) \<and> mem_view w' = mem_view w"
  using memory_noop.notified.server_delete_missing [where inps = inps and req = "req\<lparr>req_id := s\<rparr>"
      and uuid_Parse = uuid_Parse and n = n, OF assms(1) TrueI _ assms(4)] assms(2,3)
  unfolding mem_server_notifying by fastforce

theorem server_delete_missing_effect_witness:
  "\<exists>w'. serve (mem_server 2) example_Parse (\<lambda>_. None) example_inputs (R_delete ''x'') example_request
      (family chain3 ()) = (w', Ok (not_found ''directory not found''))"
  using server_delete_missing_effect [of "family chain3 ()" "\<lambda>_. None" example_request example_Parse "''x''"
      "uuid_of (member_id 0)" 2 example_inputs]
  by (fastforce simp: live_child_def)

text \<open>A GET of a directory's children is answered with 200 and one page, in the requested size,
  of a list that holds every visible descendant exactly once; the answer links to a next
  page exactly when the page is full.\<close>

theorem server_children_page:
  assumes "mem_inv w" "auth req = None" "uuid_Parse s = Some u"
    and "storageOptionsFromGetQuery (req_query req) = Inr options"
    and "page_in_range (BuildOptions options)"
    and "mem_view w (DirectoryID u) = Some d" "visible (WithDeleted (BuildOptions options)) d"
  shows "\<exists>w' cs l. serve (mem_server n) uuid_Parse auth inps (R_children s) req w = (w', Ok (Response 200 (ListBody l)))
    \<and> list_Directories l = page_of (BuildOptions options) cs
    \<and> distinct cs \<and> set cs = descendants (mem_view w) (WithDeleted (BuildOptions options)) (DirectoryID u)
    \<and> (Next (list_Links l) \<noteq> None \<longleftrightarrow>
        int (length (list_Directories l)) = sint (GetPageSize (BuildOptions options)))
    \<and> mem_view w' = mem_view w"
proof -
  obtain w' cs where c: "listChildren (mem_server n) uuid_Parse inps (req\<lparr>req_id := s\<rparr>) w
      = (w', Ok (list_response (req\<lparr>req_id := s\<rparr>) options (page_of (BuildOptions options) cs)))"
    "distinct cs" "set cs = descendants (mem_view w) (WithDeleted (BuildOptions options)) (DirectoryID u)"
    "mem_view w' = mem_view w"
    using memory_noop.notified.server_children [where inps = inps and req = "req\<lparr>req_id := s\<rparr>"
        and uuid_Parse = uuid_Parse and n = n, OF assms(1) TrueI _ _ assms(6,7,5)] assms(3,4)
    unfolding mem_server_notifying by fastforce
  then show ?thesis
    using assms(2) Next_iff_full [of "req\<lparr>req_id := s\<rparr>" "length (page_of (BuildOptions options) cs)" options]
    by (fastforce simp: list_response_def Let_def)
qed

theorem server_children_page_witness:
  "\<exists>w' cs l. serve (mem_server 2) example_Parse (\<lambda>_. None) example_inputs (R_children ''x'') example_request
      (family star11 ()) = (w', Ok (Response 200 (ListBody l))) \<and> list_Directories l = take 10 cs
    \<and> set cs = descendants (mem_view (family star11 ())) False (member_id 0)"
proof -
  have "mem_view (family star11 ()) (DirectoryID (uuid_of (member_id 0))) = Some (member star11 0)"
    by (simp add: mem_view_family)
  moreover have "storageOptionsFromGetQuery (req_query example_request) = Inr []"
    using options_no_query [of example_request] by simp
  ultimately obtain w' cs l where "serve (mem_server 2) example_Parse (\<lambda>_. None) example_inputs
      (R_children [CHR 0x78]) example_request (family star11 ()) = (w', Ok (Response 200 (ListBody l)))"
    "list_Directories l = page_of (BuildOptions []) cs"
    "set cs = descendants (mem_view (family star11 ())) (WithDeleted (BuildOptions [])) (DirectoryID (uuid_of (member_id 0)))"
    using server_children_page [where w = "family star11 ()" and auth = "\<lambda>_. None" and req = example_request
      and uuid_Parse = example_Parse and s = "[CHR 0x78]" and options = "[]" and n = 2 and inps = example_inputs
      and d = "member star11 0" and u = "uuid_of (member_id 0)", OF mem_inv_examples(2)]
    by (simp add: visible_def del: serve.simps) blast
  then show ?thesis
    by (intro exI [of _ w'] exI [of _ cs] exI [of _ l]) (simp del: serve.simps)
qed

text \<open>C25: The values the server puts into the link to the next page are read back by it as the
  options of that page: one page further, the same size, deleted directories included as before.\<close>

theorem next_link_leads_to_next_page:
  assumes "sint (GetPage opts) < 2 ^ 63 - 1"
  shows "\<exists>options. storageOptionsFromGetQuery (map_of (storageOptionsToURLValues opts (GetPage opts + 1))) = Inr options
    \<and> WithDeleted (BuildOptions options) = WithDeleted opts
    \<and> sint (GetPage (BuildOptions options)) = sint (GetPage opts) + 1
    \<and> GetPageSize (BuildOptions options) = GetPageSize opts"
proof -
  have "sint (GetPage opts + 1) = sint (GetPage opts) + 1"
    using assms GetPage_pos [of opts] by (subst go_int_add_exact) simp_all
  then have pos: "0 < sint (GetPage opts + 1)" and page: "sint (GetPage opts + 1) = sint (GetPage opts) + 1"
    using GetPage_pos [of opts] by simp_all
  from options_of_next_link [OF pos, of opts] page GetPage_pos [of opts] GetPageSize_pos [of opts]
  show ?thesis by (fastforce simp: GetPage_def GetPageSize_def)
qed

theorem next_link_leads_to_next_page_witness:
  "\<exists>options. storageOptionsFromGetQuery (map_of (storageOptionsToURLValues new_options (GetPage new_options + 1))) = Inr options
    \<and> sint (GetPage (BuildOptions options)) = 2"
  using next_link_leads_to_next_page [of new_options] by fastforce

text \<open>Whatever requests reach the server, on whatever routes and in whatever order, starting
  from the empty store: as long as identifiers are fresh, the store keeps its invariant, so that
  every stored directory is filed under its own identifier, its parent is stored, and no
  directory is its own descendant.\<close>

theorem server_keeps_invariant:
  assumes "server_reachable (mem_server n) mem_view (\<lambda>inp. True) uuid_Parse auth (empty_mem_world b) w"
  shows "mem_inv w
    \<and> (\<forall>i d. mem_view w i = Some d \<longrightarrow>
         DirId d = i \<and> (\<forall>p. Parent d = Some p \<longrightarrow> p \<in> dom (mem_view w)))
    \<and> (\<forall>i dels. \<not> descends (mem_view w) dels i i)"
proof -
  have inv: "mem_inv w"
    using memory_noop.notified.reachable_inv [OF assms [unfolded mem_server_notifying] mem_inv_empty] .
  note ok = mem_invD(2) [OF inv]
  from inv show ?thesis
    by (blast intro: tree_ok_id [OF ok] dest: tree_ok_parent [OF ok] descends_irrefl [OF ok, THEN notE])
qed

theorem server_keeps_invariant_witness:
  "\<exists>w r. newHandler (mem_server 2) example_Parse (\<lambda>_. None) example_inputs ''POST'' [''api'', ''v1'', ''roots'']
      example_request (empty_mem_world ()) = Some (w, r) \<and> mem_inv w"
proof -
  obtain w r where step: "newHandler (mem_server 2) example_Parse (\<lambda>_. None) example_inputs ''POST''
      [''api'', ''v1'', ''roots''] example_request (empty_mem_world ()) = Some (w, r)"
    by (cases "serve (mem_server 2) example_Parse (\<lambda>_. None) example_inputs R_createRoot example_request (empty_mem_world ())")
      (auto simp: newHandler_def find_route_def)
  have "mem_view (empty_mem_world ()) i = None" for i
    by (simp add: mem_view_def mem_ptr_def empty_mem_world_def mem_NewDirectoryDriver_def)
  then have "server_reachable (mem_server 2) mem_view (\<lambda>inp. True) example_Parse (\<lambda>_. None) (empty_mem_world ()) w"
    by (intro server_reachable.request [OF server_reachable.start _ step]) simp
  from server_keeps_invariant [OF this] step show ?thesis by blast
qed

text \<open>A request the authentication refuses is answered with its refusal, and changes nothing,
  on every route but the two that tell the API version.\<close>

theorem server_refuses_unauthenticated:
  assumes "auth req = Some resp" "rt \<noteq> R_version"
  shows "serve T uuid_Parse auth inps rt req w = (w, Ok resp)"
  using assms by (cases rt) simp_all

theorem server_refuses_unauthenticated_witness:
  "serve (mem_server 2) example_Parse (\<lambda>_. Some (Response 401 (ErrorBody ''''))) example_inputs R_createRoot
    example_request (family chain3 ()) = (family chain3 (), Ok (Response 401 (ErrorBody '''')))"
  by (rule server_refuses_unauthenticated) simp_all

text \<open>When the lookup fails with an error other than \<open>ErrDirectoryNotFound\<close>, a PATCH that
  sends a name makes the handler panic: the error is not handled and the nil directory is
  written through.\<close>

theorem server_update_dereferences_nil:
  assumes "auth req = None" "uuid_Parse s = Some u" "req_update req = Inr r"
    and "update_Name r = Some n" "n \<noteq> ''''"
    and "GetDirectory T (inps 0) (DirectoryID u) [] w = (w', Err e)"
    and "\<not> errors_is e ErrDirectoryNotFound"
  shows "serve T uuid_Parse auth inps (R_update s) req w = (w', Panic)"
  using assms
  by (simp add: updateDirectory_def ParseDirectoryID_def apply_update_def assign_def)

theorem server_update_dereferences_nil_witness:
  "\<exists>w'. serve memory_driver example_Parse (\<lambda>_. None) example_inputs (R_update ''xx'') example_request
      ((family chain3 ())\<lparr>db := WithDirectoryMap [(member_id 1, Foreign)] []\<rparr>) = (w', Panic)"
proof -
  let ?w = "(family chain3 ())\<lparr>db := WithDirectoryMap [(member_id 1, Foreign)] []\<rparr>"
  have "GetDirectory memory_driver (example_inputs 0) (DirectoryID (uuid_of (member_id 1))) [] ?w
      = (?w, Err not_a_directory)"
    by (simp add: mem_GetDirectory_def WithDirectoryMap_def)
  from server_update_dereferences_nil [where auth = "\<lambda>_. None" and req = example_request
      and uuid_Parse = example_Parse and s = "''xx''" and T = memory_driver and inps = example_inputs,
      OF _ _ _ _ _ this]
  show ?thesis by (fastforce simp: not_a_directory_def)
qed

definition unreachable :: "(unit, unit, string) nats_notifier" where
  "unreachable = nats_NewNotifier (\<lambda>subj msg os b. (b, Some (ErrExternal ''nats: timeout''))) ''events'' []"

text \<open>When the notification of a creation fails however often it is retried, the server
  answers 500 although the directory has been stored.\<close>

theorem server_create_notify_failed_stores:
  assumes "mem_inv w" "auth req = None" "uuid_Parse s = Some u" "req_create req = Inr r"
    and "mem_view w (DirectoryID u) = Some q" "DeletedAt q = None"
    and "mem_view w (in_uuid (inps 1)) = None"
    and "\<And>subj msg os b. \<exists>b' e. js_Publish nn subj msg os b = (b', Some e)"
  shows "\<exists>w' d. serve (server_store memory_driver (nats_methods enc now nn) (attempts k)) uuid_Parse auth inps
      (R_create s) req w = (w', Ok (server_error ''internal server error''))
    \<and> mem_view w' = (mem_view w)(in_uuid (inps 1) \<mapsto> d) \<and> Name d = create_Name r"
proof -
  have pub: "\<exists>b' e. publish enc nn evt b = (b', Err e)" for evt b
  proof (cases "enc evt")
    case (Inr buff)
    let ?subject = "subjectPrefix nn @ [CHR 0x2E] @ event_type_text (event_Type evt)"
    obtain b' e where "js_Publish nn ?subject buff (publishOptions nn) b = (b', Some e)"
      using assms(8) by blast
    with Inr show ?thesis by (simp add: publish_def)
  qed (simp add: publish_def)
  have fails: "\<exists>b' e. attempts j (notify_handler (NotifyCreate (nats_methods enc now nn)) (Some d)) b = (b', Err e)" for j d b
  proof (induction j arbitrary: b)
    case 0
    show ?case using pub [of "event_for EventTypeCreate d (now b)" b]
      by (auto simp: notify_handler_def notify_event_Some)
  next
    case (Suc j)
    obtain b' e where "publish enc nn (event_for EventTypeCreate d (now b)) b = (b', Err e)" using pub by blast
    with Suc.IH [of b'] show ?case by (simp add: notify_handler_def notify_event_Some)
  qed
  have id: "uuid_Parse (req_id (req\<lparr>req_id := s\<rparr>)) = Some u"
    and bind: "req_create (req\<lparr>req_id := s\<rparr>) = Inr r" using assms(3,4) by simp_all
  obtain w' d where "createDirectory (notifying memory_driver (nats_methods enc now nn) (attempts k)) uuid_Parse
      inps (req\<lparr>req_id := s\<rparr>) w = (w', Ok (server_error ''internal server error''))"
    "mem_view w' = (mem_view w)(in_uuid (inps 1) \<mapsto> d)" "Name d = create_Name r"
    using memory_nats.server_create_notify_failed [where inps = inps and req = "req\<lparr>req_id := s\<rparr>"
        and uuid_Parse = uuid_Parse, OF assms(1) TrueI id bind assms(5-7) fails] by blast
  then show ?thesis
    using assms(2) unfolding server_store_def StorageWithNotifier_retrier by auto
qed

theorem server_create_notify_failed_stores_witness:
  "\<exists>w' d. serve (server_store memory_driver (nats_methods (\<lambda>_. Inr []) (\<lambda>b. zero_time) unreachable) (attempts 3))
      example_Parse (\<lambda>_. None) example_inputs (R_create ''xx'') example_request (family chain3 ())
      = (w', Ok (server_error ''internal server error'')) \<and> mem_view w' (DirectoryID 100) = Some d"
proof -
  obtain w' d where "serve (server_store memory_driver (nats_methods (\<lambda>_. Inr []) (\<lambda>b. zero_time) unreachable) (attempts 3))
      example_Parse (\<lambda>_. None) example_inputs (R_create ''xx'') example_request (family chain3 ())
      = (w', Ok (server_error ''internal server error''))"
    "mem_view w' = (mem_view (family chain3 ()))(in_uuid (example_inputs 1) \<mapsto> d)"
    using server_create_notify_failed_stores [where w = "family chain3 ()" and auth = "\<lambda>_. None"
        and req = example_request and uuid_Parse = example_Parse and s = "''xx''"
        and inps = example_inputs and nn = unreachable and enc = "\<lambda>_. Inr []" and now = "\<lambda>b. zero_time" and k = 3
        and u = "uuid_of (member_id 1)" and q = "member chain3 1"]
    by (simp add: unreachable_def nats_NewNotifier_def del: serve.simps) blast
  then show ?thesis
    by (intro exI [of _ w'] exI [of _ d]) (simp del: serve.simps)
qed

end
