(* ===== verification/App_Properties.thy ===== *)
theory App_Properties
  imports Server_Properties
begin

text \<open>
  The properties of the application controller over the SQL store of tracked directories.
  \<open>no_fault\<close> is a database that executes every statement; where it does not appear, statements
  may fail at any point.
\<close>

section \<open>An example\<close>

definition app_client :: "'w read_only_client" where
  "app_client = \<lparr>
     client_GetDirectory = (\<lambda>i w. (w, Ok \<lparr>fetch_Directory = zero_directory\<lparr>DirId := i\<rparr>, fetch_Version = APIVersion\<rparr>)),
     client_GetChildren = (\<lambda>i w. (w, Ok \<lparr>list_Links = \<lparr>Next = None\<rparr>, list_Directories = [member_id 1, member_id 2],
       list_Page = 1, list_PageSize = 10, list_Version = APIVersion\<rparr>))\<rparr>"

text \<open>The reconciler of the example records the events it is given.\<close>

definition record_event :: "directory_event list sql_world reconciler" where
  "record_event ev w = (w\<lparr>env := env w @ [ev]\<rparr>, Ok ())"

definition app_example :: "directory_event list sql_world controller" where
  "app_example = \<lparr>ctl_client = Some app_client, baseDir = member_id 0,
     ctl_store = sql_storage no_fault (\<lambda>_. GoTime 500 0), ctl_reconciler = Some record_event,
     frMinimumInterval = 5, frMaximumInterval = 10, frDuration = minute\<rparr>"

definition app_world :: "directory_event list sql_world" where
  "app_world = \<lparr>tracked = [member_id 0 \<mapsto> None], env = []\<rparr>"

definition app_event :: "event_type \<Rightarrow> directory \<Rightarrow> directory_event" where
  "app_event t d = \<lparr>event_Version = APIVersion, event_Type = t, event_Time = zero_time, event_Directory = d\<rparr>"

lemma app_example_simps [simp]:
  "ctl_client app_example = Some app_client" "baseDir app_example = member_id 0"
  "ctl_store app_example = sql_storage no_fault (\<lambda>_. GoTime 500 0)"
  "ctl_reconciler app_example = Some record_event"
  "frMinimumInterval app_example = 5" "frMaximumInterval app_example = 10" "frDuration app_example = minute"
  "tracked app_world = [member_id 0 \<mapsto> None]"
  "event_Type (app_event t d) = t" "event_Directory (app_event t d) = d"
  by (simp_all add: app_example_def app_world_def app_event_def)

section \<open>Events\<close>

text \<open>An event about a directory that is not tracked is ignored, without any effect, unless it
  is the creation of a directory whose parent is tracked.\<close>

theorem untracked_event_ignored:
  assumes "ctl_store c = sql_storage no_fault now'"
    and "tracked w (DirId (event_Directory ev)) = None"
    and "event_Type ev = EventTypeCreate \<Longrightarrow> Parent (event_Directory ev) = Some p \<Longrightarrow> tracked w p = None"
    and "Parent (event_Directory ev) \<noteq> None \<Longrightarrow> Parent (event_Directory ev) = Some p"
  shows "processIncomingEvent now c (Some ev) w = (w, Ok ())"
proof -
  have "\<not> relevant (tracked w) ev" using assms(2-4) by (auto simp: relevant_def)
  then show ?thesis by (simp add: processIncomingEvent_eq [OF assms(1)])
qed

theorem untracked_event_ignored_witness:
  "processIncomingEvent (\<lambda>_. zero_time) app_example (Some (app_event EventTypeUpdate (member chain3 1))) app_world
    = (app_world, Ok ())"
  by (rule untracked_event_ignored [where p = "member_id 0"]) (simp_all add: member_id_inj)

text \<open>The creation of a live directory below a tracked one is stored as tracked and handed to
  the reconciler, once, as a create event with the directory; the outcome is the reconciler's,
  an error wrapped.\<close>

theorem creation_below_tracked_is_persisted:
  assumes "ctl_store c = sql_storage no_fault now'" "ctl_reconciler c = Some r"
    and "event_Type ev = EventTypeCreate" "\<not> IsDeleted (event_Directory ev)"
    and "tracked w (DirId (event_Directory ev)) = None"
    and "Parent (event_Directory ev) = Some p" "tracked w p \<noteq> None"
  defines "w1 \<equiv> w\<lparr>tracked := (tracked w)(DirId (event_Directory ev) \<mapsto> None)\<rparr>"
  shows "processIncomingEvent now c (Some ev) w =
    handle (r \<lparr>event_Version = APIVersion, event_Type = EventTypeCreate, event_Time = time_UTC (now w1),
              event_Directory = event_Directory ev\<rparr> w1)
      (\<lambda>w e. (w, Err (ErrWrap ''error persisting directory'' e))) (\<lambda>w _. (w, Ok ()))"
  using assms(2-7)
  by (simp add: processIncomingEvent_eq [OF assms(1)] persistDirectory_eq [OF assms(1)] relevant_def
      call_reconciler_def create_event_def w1_def Let_def)

theorem creation_below_tracked_is_persisted_witness:
  "\<exists>ev w'. processIncomingEvent (\<lambda>_. zero_time) app_example (Some (app_event EventTypeCreate (member chain3 1))) app_world
      = (w', Ok ()) \<and> tracked w' = [member_id 0 \<mapsto> None, member_id 1 \<mapsto> None] \<and> env w' = [ev]"
proof -
  have "member_id 1 \<noteq> member_id 0" by (simp add: member_id_inj)
  then show ?thesis
    using creation_below_tracked_is_persisted [where c = app_example and r = record_event
        and ev = "app_event EventTypeCreate (member chain3 1)" and w = app_world and p = "member_id 0"
        and now = "\<lambda>_. zero_time" and now' = "\<lambda>_. GoTime 500 0"]
    by (simp add: record_event_def IsDeleted_def app_world_def)
qed

text \<open>An event that says a tracked live directory is deleted, of whatever type, marks it deleted
  in the table with the database's time and is handed to the reconciler as a delete event.\<close>

theorem deletion_of_tracked_is_persisted:
  assumes "ctl_store c = sql_storage no_fault now'" "ctl_reconciler c = Some r"
    and "IsDeleted (event_Directory ev)" "tracked w (DirId (event_Directory ev)) = Some None"
  defines "w1 \<equiv> w\<lparr>tracked := (tracked w)(DirId (event_Directory ev) \<mapsto> Some (now' (env w)))\<rparr>"
  shows "processIncomingEvent now c (Some ev) w =
    handle (r \<lparr>event_Version = APIVersion, event_Type = EventTypeDelete, event_Time = time_UTC (now w1),
              event_Directory = event_Directory ev\<rparr> w1)
      (\<lambda>w e. (w, Err (ErrWrap ''error persisting directory'' e))) (\<lambda>w _. (w, Ok ()))"
  using assms(2-4)
  by (simp add: processIncomingEvent_eq [OF assms(1)] persistDirectory_eq [OF assms(1)] relevant_def
      call_reconciler_def delete_event_def w1_def Let_def)

theorem deletion_of_tracked_is_persisted_witness:
  "\<exists>ev w'. processIncomingEvent (\<lambda>_. zero_time) app_example
      (Some (app_event EventTypeDelete ((member chain3 0)\<lparr>DeletedAt := Some (GoTime 9 0)\<rparr>))) app_world = (w', Ok ())
    \<and> tracked w' = [member_id 0 \<mapsto> Some (GoTime 500 0)] \<and> env w' = [ev]"
  using deletion_of_tracked_is_persisted [where c = app_example and r = record_event
      and ev = "app_event EventTypeDelete ((member chain3 0)\<lparr>DeletedAt := Some (GoTime 9 0)\<rparr>)" and w = app_world
      and now = "\<lambda>_. zero_time" and now' = "\<lambda>_. GoTime 500 0"]
  by (simp add: record_event_def IsDeleted_def time_IsZero_def app_world_def)

text \<open>C38: An event about a live tracked directory that does not delete it (an update, a repeated
  creation) and an event about a directory already marked deleted that says it is deleted end
  \<open>Run\<close> with an error: the store expects to change one row and changes none.\<close>

theorem event_without_change_ends_run:
  assumes "ctl_store c = sql_storage no_fault now'"
    and "tracked w (DirId (event_Directory ev)) = Some marked"
    and "marked = None \<longleftrightarrow> \<not> IsDeleted (event_Directory ev)"
  shows "run_select now c (FromEvCh (Some ev)) w
    = (w, Returned (Some (ErrWrap ''error persisting directory'' (ErrText ''expected 1 row affected, got 0''))))"
proof -
  have msg: "rows_affected_error 0 = ErrText ''expected 1 row affected, got 0''"
    by (simp add: rows_affected_error_def nat_digits.simps) code_simp
  show ?thesis
    using assms(2,3)
    by (cases marked) (simp_all add: processIncomingEvent_eq [OF assms(1)] persistDirectory_eq [OF assms(1)]
        relevant_def msg)
qed

theorem event_without_change_ends_run_witness:
  "run_select (\<lambda>_. zero_time) app_example (FromEvCh (Some (app_event EventTypeUpdate (member chain3 0)))) app_world
    = (app_world, Returned (Some (ErrWrap ''error persisting directory'' (ErrText ''expected 1 row affected, got 0''))))"
  by (rule event_without_change_ends_run) (simp_all add: IsDeleted_def)

text \<open>\<open>Run\<close> crashes when it receives from the event channel after the watcher has closed it:
  the received event is nil.\<close>

theorem closed_event_channel_crashes:
  assumes "controller_steps now c w0 ss w Running"
  shows "controller_steps now c w0 (ss @ [FromEvCh None]) w Crashed"
  by (rule controller_steps.one_select [OF assms])
    (simp_all add: can_select_def processIncomingEvent_def)

theorem closed_event_channel_crashes_witness:
  "\<exists>w. controller_steps (\<lambda>_. zero_time) (app_example\<lparr>ctl_client := None\<rparr>) app_world [FromEvCh None] w Crashed"
proof -
  have "run_start (\<lambda>_. zero_time) (app_example\<lparr>ctl_client := None\<rparr>) 0 app_world = (app_world, Running)"
    by (simp add: run_start_def InitializeDirectories_def getRandomTickerDuration_def rand_Intn_def
        set_ticker_def minute_def)
  from closed_event_channel_crashes [OF controller_steps.begin_run [OF this]] show ?thesis by auto
qed

section \<open>The table\<close>



text \<open>A store operation that returns an error has not changed the table, whichever statement
  failed.\<close>

theorem sql_errors_change_nothing:
  assumes "sql_CreateDirectory fail d w = (w', Err e)
    \<or> sql_DeleteDirectory fail now i w = (w', Err e)
    \<or> sql_DeleteDirectory fail now i w = (w', ErrWith ds e)
    \<or> sql_IsDirectoryInfoUpdated fail d w = (w', r)"
  shows "tracked w' = tracked w"
  using assms
  by (auto simp: sql_CreateDirectory_def sql_DeleteDirectory_def sql_IsDirectoryInfoUpdated_def
      sql_IsDirectoryTracked_def sql_statement_def Let_def
      split: prod.splits option.splits if_splits)

theorem sql_errors_change_nothing_witness:
  "\<exists>w' e. sql_CreateDirectory (\<lambda>e. (e, Some (ErrExternal ''connection refused''))) (member chain3 1) app_world
      = (w', Err e) \<and> tracked w' = tracked app_world"
proof -
  let ?fail = "\<lambda>e. (e, Some (ErrExternal ''connection refused''))"
  have "sql_CreateDirectory ?fail (member chain3 1) app_world
      = (app_world\<lparr>env := env app_world\<rparr>, Err (ErrWrap ''error inserting directory'' (ErrExternal ''connection refused'')))"
    by (simp add: sql_CreateDirectory_def sql_statement_def)
  with sql_errors_change_nothing [OF disjI1 [OF this]] show ?thesis by blast
qed

text \<open>A full reconciliation by the seeder, with a client in front of live directories, tracks the
  base directory and every directory the client lists, and nothing else; a second one changes
  nothing.\<close>

theorem seeder_tracks_listed:
  assumes "newSeeder base (Some cl) (sql_storage no_fault now') = Inr c"
    and "live_client cl base kids"
    and "\<And>i. i \<in> set (base # kids) \<Longrightarrow> tracked w i = None \<or> tracked w i = Some None"
  shows "\<exists>w'. InitializeDirectories now c w = (w', Ok ())
    \<and> tracked w' = (\<lambda>i. if i \<in> set (base # kids) then Some None else tracked w i) \<and> env w' = env w
    \<and> InitializeDirectories now c w' = (w', Ok ())"
proof -
  have c: "c = \<lparr>ctl_client = Some cl, baseDir = base, ctl_store = sql_storage no_fault now',
      ctl_reconciler = Some NoopReconciler, frMinimumInterval = 5, frMaximumInterval = 10, frDuration = minute\<rparr>"
    using assms(1) by (simp add: newSeeder_eq)
  let ?w' = "track_all (base # kids) w"
  have one: "InitializeDirectories now c v = (track_all (base # kids) v, Ok ())"
    if "\<And>i. i \<in> set (base # kids) \<Longrightarrow> tracked v i = None \<or> tracked v i = Some None" for v
    using InitializeDirectories_live [of c cl now' kids v now] assms(2) that by (simp add: c)
  have "track_all (base # kids) ?w' = ?w'" by (subst track_all_simps(2)) (rule track_all_set, simp)
  then have "InitializeDirectories now c ?w' = (?w', Ok ())" using one [of ?w'] by simp
  moreover have "InitializeDirectories now c w = (?w', Ok ())" using one [OF assms(3)] by simp
  ultimately show ?thesis by (intro exI [of _ ?w']) (simp add: track_all_def)
qed

theorem seeder_tracks_listed_witness:
  "\<exists>c w'. newSeeder (member_id 0) (Some app_client) (sql_storage no_fault (\<lambda>_. zero_time)) = Inr c
    \<and> InitializeDirectories (\<lambda>_. zero_time) c app_world = (w', Ok ()) \<and> tracked w' (member_id 2) = Some None"
proof -
  have live: "live_client app_client (member_id 0) [member_id 1, member_id 2]"
    by (simp add: live_client_def app_client_def zero_directory_def)
  show ?thesis
    using seeder_tracks_listed [OF newSeeder_eq live, of app_world "\<lambda>_. zero_time" "\<lambda>_. zero_time"]
    by (force simp: newSeeder_eq app_world_def member_id_inj)
qed

section \<open>The interval\<close>

text \<open>The interval until the next full reconciliation is \<open>frDuration\<close> times a number from the
  minimum to below the sum of minimum and maximum (the comment promises a value between
  minimum and maximum); with a maximum that is not positive the call panics.\<close>

theorem ticker_interval:
  assumes "0 \<le> sint (frMinimumInterval c)" "0 \<le> sint (frDuration c)"
    and "sint (frMinimumInterval c) + sint (frMaximumInterval c) < 2 ^ 63"
    and "(sint (frMinimumInterval c) + sint (frMaximumInterval c)) * sint (frDuration c) < 2 ^ 63"
  shows "(1 \<le> sint (frMaximumInterval c) \<longrightarrow>
      (\<exists>d k. getRandomTickerDuration rnd c = Ok d \<and> sint d = k * sint (frDuration c)
        \<and> sint (frMinimumInterval c) \<le> k \<and> k < sint (frMinimumInterval c) + sint (frMaximumInterval c)))
    \<and> (sint (frMaximumInterval c) \<le> 0 \<longrightarrow> getRandomTickerDuration rnd c = Panic)"
proof (intro conjI impI)
  assume "1 \<le> sint (frMaximumInterval c)"
  from getRandomTickerDuration_range [OF this assms(1,3,2,4), of rnd]
  show "\<exists>d k. getRandomTickerDuration rnd c = Ok d \<and> sint d = k * sint (frDuration c)
      \<and> sint (frMinimumInterval c) \<le> k \<and> k < sint (frMinimumInterval c) + sint (frMaximumInterval c)"
    by (elim exE conjE) (intro exI conjI, assumption+, simp_all)
next
  assume "sint (frMaximumInterval c) \<le> 0"
  then show "getRandomTickerDuration rnd c = Panic"
    by (simp add: getRandomTickerDuration_def rand_Intn_def)
qed

theorem ticker_interval_witness:
  "\<exists>d k. getRandomTickerDuration 9 app_example = Ok d \<and> sint d = k * sint minute \<and> 5 \<le> k \<and> k < 15"
  using ticker_interval [of app_example 9] by (simp add: minute_def)

section \<open>Callbacks\<close>

text \<open>With callbacks, a deletion calls the application first and leaves the store alone when the
  application refuses; a creation calls the application only after the store has accepted it,
  and reports the application's error although the directory is tracked.\<close>

theorem callbacks_order:
  shows "(cb_DeleteDirectory cfg i w = (w1, Err e) \<longrightarrow>
      app_DeleteDirectory (with_callbacks impl cfg) i w = (w1, Err e))
    \<and> (cb_DeleteDirectory cfg i w = (w1, Ok ()) \<longrightarrow>
      app_DeleteDirectory (with_callbacks impl cfg) i w = app_DeleteDirectory impl i w1)
    \<and> (app_CreateDirectory impl d w = (w1, Err e) \<longrightarrow>
      app_CreateDirectory (with_callbacks impl cfg) d w = (w1, Err e))
    \<and> (app_CreateDirectory impl d w = (w1, Ok d') \<and> cb_CreateDirectory cfg d' w1 = (w2, Err e) \<longrightarrow>
      app_CreateDirectory (with_callbacks impl cfg) d w = (w2, Err e))
    \<and> (app_CreateDirectory impl d w = (w1, Ok d') \<and> cb_CreateDirectory cfg d' w1 = (w2, Ok ()) \<longrightarrow>
      app_CreateDirectory (with_callbacks impl cfg) d w = (w2, Ok d'))"
  by (simp_all add: with_callbacks_def callback_DeleteDirectory_def callback_CreateDirectory_def)

theorem callbacks_order_witness:
  "app_DeleteDirectory (with_callbacks (sql_storage no_fault (\<lambda>_. zero_time))
      \<lparr>cb_CreateDirectory = (\<lambda>d w. (w, Ok ())), cb_UpdateDirectory = (\<lambda>d w. (w, Ok ())),
       cb_DeleteDirectory = (\<lambda>i w. (w, Err ErrReadOnly))\<rparr>) (member_id 0) app_world = (app_world, Err ErrReadOnly)"
  by (rule callbacks_order [THEN conjunct1, rule_format]) simp

end
