(* ===== verification/Crdb_Properties.thy ===== *)
theory Crdb_Properties
  imports Crdb_Service Crdb_History App_Properties
begin

text \<open>
  The properties of the CockroachDB driver: its contract and its agreement with the in-memory
  driver, the termination of its queries, and what it does where the two drivers differ or the
  database does not behave as the driver expects.
\<close>

section \<open>Concrete tables\<close>

text \<open>\<open>crdb_family ps b\<close> holds the directories of \<open>family ps b\<close> as rows.\<close>

definition crdb_family :: "nat option list \<Rightarrow> 'bus \<Rightarrow> 'bus crdb_world" where
  "crdb_family ps b = \<lparr>heap = (\<lambda>_. zero_directory), brk = 0,
     db = \<lparr>rows = map (member ps) [0..<length ps], past = []\<rparr>, bus = b\<rparr>"

definition by_id :: "directory \<Rightarrow> directory_id" where
  "by_id d = DirId d"

definition crdb_example :: crdb_driver where
  "crdb_example = crdb_on by_id"

lemma plain_example [simp]: "plain crdb_example"
  by (simp add: crdb_example_def)

lemma family_keys: "family_ok ps \<Longrightarrow> distinct (map DirId (rows (db (crdb_family ps b))))"
  using family_keys_distinct [of "length ps"] by (simp add: crdb_family_def family_ok_def o_def)

lemma crdb_view_family: "family_ok ps \<Longrightarrow> crdb_view (crdb_family ps b) = mem_view (family ps c)"
proof
  fix i assume ok: "family_ok ps"
  show "crdb_view (crdb_family ps b) i = mem_view (family ps c) i"
  proof (cases "\<exists>a < length ps. i = member_id a")
    case True
    then obtain a where a: "a < length ps" "i = member_id a" by blast
    then have "crdb_view (crdb_family ps b) i = Some (member ps a)"
      using family_keys [OF ok, of b] by (simp add: crdb_view_def table_forest_Some) (auto simp: crdb_family_def)
    with a mem_view_family [OF ok a(1), of c] show ?thesis by simp
  next
    case False
    then have "i \<notin> DirId ` set (rows (db (crdb_family ps b)))" by (auto simp: crdb_family_def)
    then have "crdb_view (crdb_family ps b) i = None"
      unfolding crdb_view_def table_forest_dom [symmetric] by (simp add: domIff)
    with False mem_view_family_None [OF ok, of i c] show ?thesis by simp
  qed
qed

lemma crdb_inv_family: "family_ok ps \<Longrightarrow> crdb_inv (crdb_family ps b)"
  using family_keys [of ps b] mem_invD(2) [OF mem_inv_family [of ps "()"]] crdb_view_family [of ps b "()"]
  by (simp add: crdb_inv_def table_ok_def crdb_view_def) (simp add: crdb_family_def)

lemmas crdb_examples [simp] =
  crdb_inv_family [OF family_ok_examples(1)] crdb_inv_family [OF family_ok_examples(2)]

lemma sql_avail_example [simp]: "sql_avail (example_inputs k)"
  by (simp add: sql_avail_def rows_ok_def example_inputs_def)

section \<open>The contract\<close>





section \<open>Termination\<close>

lemma set_parents_step:
  "set (parents_step table dels anc ws) = {cte_row d | d w. d \<in> set table \<and> w \<in> set ws
     \<and> Some (DirId d) = fst (snd w) \<and> Some (fst w) \<noteq> anc \<and> visible dels d}"
  unfolding parents_step_def order_by_created_def set_sort set_concat set_map set_filter image_image
    case_prod_unfold
  by blast

lemma recursive_query_table:
  assumes "\<And>ws. set (step ws) = {pr d | d w. d \<in> set table \<and> w \<in> set ws \<and> P w d}"
  shows "\<exists>rs. recursive_query step base = Some rs"
proof -
  let ?succ = "\<lambda>w. {pr d | d. d \<in> set table \<and> P w d}"
  have step: "set (step ws) = (\<Union>w \<in> set ws. ?succ w)" for ws unfolding assms by blast
  have "finite (pr ` set table)" "?succ w \<subseteq> pr ` set table" for w by auto
  from recursive_query_returns [of step ?succ "pr ` set table" base, OF step this]
  show ?thesis by blast
qed

lemma queries_return:
  "\<exists>q. query_children t table dels i = Some q" "\<exists>q. query_parents t table dels i anc = Some q"
  "\<exists>rs. recursive_query (delete_step table) base = Some rs"
proof -
  obtain rs where "recursive_query (children_step (scan_rows (conn t) table) dels)
      (cte_start (scan_rows (conn t) table) dels i) = Some rs"
    using recursive_query_table [OF set_children_step] by blast
  then show "\<exists>q. query_children t table dels i = Some q" by (simp add: query_children_def)
  obtain rs where "recursive_query (parents_step (scan_rows (conn t) table) dels anc)
      (cte_start (scan_rows (conn t) table) dels i) = Some rs"
    using recursive_query_table [OF set_parents_step] by blast
  then show "\<exists>q. query_parents t table dels i anc = Some q" by (simp add: query_parents_def)
  show "\<exists>rs. recursive_query (delete_step table) base = Some rs"
    by (rule recursive_query_table [OF set_delete_step])
qed

lemma crdb_listing_returns: "q \<noteq> None \<Longrightarrow> crdb_listing inp opts q \<noteq> Diverge"
  by (auto simp: crdb_listing_def page_after_first_def slice_expr_def Let_def split: option.splits sum.splits)

lemma affected_loop_returns: "snd (affected_loop st k rs aff w) \<noteq> Diverge"
  by (induction rs arbitrary: k aff w) (auto simp: alloc_def split: row_step.splits)

text \<open>C12: Every recursive query of the CockroachDB driver ends, whatever the table holds, cycles of
  parents included, with any driver options, engine and inputs: no listing and no deletion
  runs forever. (The loops of the in-memory driver end only on well-formed stores.)\<close>

theorem crdb_operations_return:
  "crdb_GetChildren t inp i options w \<noteq> Diverge
    \<and> crdb_GetParents t inp i options w \<noteq> Diverge
    \<and> crdb_GetParentsUntilAncestor t inp i anc options w \<noteq> Diverge
    \<and> snd (crdb_DeleteDirectory t inp i w) \<noteq> Diverge"
proof (intro conjI)
  obtain gcs where gcs: "recursive_query (delete_step (scan_rows (conn t) (rows (db w))))
      (delete_start (scan_rows (conn t) (rows (db w))) i) = Some gcs"
    using queries_return(3) by blast
  show "snd (crdb_DeleteDirectory t inp i w) \<noteq> Diverge"
    by (simp add: crdb_DeleteDirectory_def gcs Let_def affected_loop_returns split: option.splits)
qed (simp_all add: crdb_GetChildren_def crdb_GetParents_def crdb_GetParentsUntilAncestor_def
    crdb_listing_returns queries_return Let_def not_None_eq)


section \<open>Parents\<close>



section \<open>Options of the driver\<close>

text \<open>C37: A read-only driver refuses to create and to update, and changes nothing then, but it still
  deletes: \<open>DeleteDirectory\<close> does not look at the option, and marks the directory with all its
  live descendants.\<close>

theorem crdb_read_only_still_deletes:
  assumes "engine_ok (conn t)" "readOnly t" "crdb_inv w" "sql_avail inp" "live_child (crdb_view w) i"
  shows "crdb_CreateRoot t inp a w = (w, Err ErrReadOnly)
    \<and> crdb_CreateDirectory t inp a w = (w, Err ErrReadOnly)
    \<and> crdb_UpdateDirectory t inp ptr w = (w, Err ErrReadOnly)
    \<and> (\<exists>w' ps. crdb_DeleteDirectory t inp i w = (w', Ok ps)
         \<and> crdb_view w' = mark_deleted (subtree (crdb_view w) i) (in_time1 inp) (crdb_view w))"
proof (intro conjI)
  have "plain (t\<lparr>readOnly := False, fastReads := False\<rparr>)" using assms(1) by (simp add: plain_def)
  moreover have "crdb_DeleteDirectory (t\<lparr>readOnly := False, fastReads := False\<rparr>) inp i w
      = crdb_DeleteDirectory t inp i w"
    by (simp add: crdb_DeleteDirectory_def)
  ultimately show "\<exists>w' ps. crdb_DeleteDirectory t inp i w = (w', Ok ps)
      \<and> crdb_view w' = mark_deleted (subtree (crdb_view w) i) (in_time1 inp) (crdb_view w)"
    using crdb_delete_law [OF _ assms(3-5), of "t\<lparr>readOnly := False, fastReads := False\<rparr>"] by metis
qed (simp_all add: assms(2) crdb_CreateRoot_def crdb_CreateDirectory_def crdb_UpdateDirectory_def)

theorem crdb_read_only_still_deletes_witness:
  "\<exists>w' ps. crdb_DeleteDirectory (crdb_NewDirectoryDriver (index_scan by_id)
      (WithStorageOptions (\<lambda>flag. flag = ''storage.read_only''))) (example_inputs 0) (member_id 1)
      (crdb_family star11 ()) = (w', Ok ps)
    \<and> (\<exists>d. crdb_view w' (member_id 1) = Some d \<and> DeletedAt d \<noteq> None)"
proof -
  let ?t = "crdb_NewDirectoryDriver (index_scan by_id) (WithStorageOptions (\<lambda>flag. flag = ''storage.read_only''))"
  have t: "engine_ok (conn ?t)" "readOnly ?t"
    by (simp_all add: crdb_NewDirectoryDriver_def WithStorageOptions_def WithReadOnly_def)
  have live: "live_child (crdb_view (crdb_family star11 ())) (member_id 1)"
    using star11_live [of "()"] by (simp add: crdb_view_family [where c = "()"])
  from crdb_read_only_still_deletes [OF t crdb_examples(2) sql_avail_example live, of 0] live
  show ?thesis by (fastforce simp: mark_deleted_def subtree_def live_child_def)
qed




section \<open>Broken cursors and row order\<close>

text \<open>A deletion whose answer is lost before its first row (the cursor stops, and \<open>rows.Err\<close> is
  never asked) is reported as \<open>ErrDirectoryNotFound\<close>, although the directory and all its live
  descendants are deleted.\<close>

theorem crdb_lost_delete_answer:
  assumes "plain t" "crdb_inv w" "in_fault inp = None" "in_row inp 0 = RowStop e"
    and "live_child (crdb_view w) i"
  shows "\<exists>w'. crdb_DeleteDirectory t inp i w = (w', Err ErrDirectoryNotFound)
    \<and> crdb_view w' = mark_deleted (subtree (crdb_view w) i) (in_time1 inp) (crdb_view w)"
proof -
  obtain gcs where "recursive_query (delete_step (scan_rows (conn t) (rows (db w))))
      (delete_start (scan_rows (conn t) (rows (db w))) i) = Some gcs"
    using queries_return(3) by blast
  then have "\<exists>aff table. \<forall>st. crdb_DeleteDirectory t (inp\<lparr>in_row := st\<rparr>) i w
      = affected_loop st 0 aff [] (commit table w)"
    using assms(3) by (simp add: crdb_DeleteDirectory_def Let_def) blast
  then obtain aff table where run: "\<And>st. crdb_DeleteDirectory t (inp\<lparr>in_row := st\<rparr>) i w
      = affected_loop st 0 aff [] (commit table w)" by blast
  have "sql_avail (inp\<lparr>in_row := \<lambda>_. RowOk\<rparr>)" using assms(3) by (simp add: sql_avail_def rows_ok_def)
  from crdb_delete_law [OF assms(1,2) this assms(5)] obtain w' ps where
    w': "affected_loop (\<lambda>_. RowOk) 0 aff [] (commit table w) = (w', Ok ps)"
    "crdb_view w' = mark_deleted (subtree (crdb_view w) i) (in_time1 inp) (crdb_view w)"
    unfolding run by auto
  from affected_loop_ok [OF w'(1)] have "db w' = db (commit table w)" "aff \<noteq> []" by auto
  then have "crdb_view (commit table w) = crdb_view w'" by (simp add: crdb_view_def)
  moreover have "crdb_DeleteDirectory t inp i w = (commit table w, Err ErrDirectoryNotFound)"
    using run [of "in_row inp"] assms(4) \<open>aff \<noteq> []\<close> by (cases aff) simp_all
  ultimately show ?thesis using w'(2) by simp
qed

theorem crdb_lost_delete_answer_witness:
  "\<exists>w' d. crdb_DeleteDirectory crdb_example
      ((example_inputs 0)\<lparr>in_row := \<lambda>_. RowStop (ErrExternal ''conn closed'')\<rparr>) (member_id 1) (crdb_family star11 ())
      = (w', Err ErrDirectoryNotFound) \<and> crdb_view w' (member_id 1) = Some d \<and> DeletedAt d \<noteq> None"
proof -
  have live: "live_child (crdb_view (crdb_family star11 ())) (member_id 1)"
    using star11_live [of "()"] by (simp add: crdb_view_family [where c = "()"])
  from crdb_lost_delete_answer [OF plain_example crdb_examples(2) _ _ live,
      of "(example_inputs 0)\<lparr>in_row := \<lambda>_. RowStop (ErrExternal ''conn closed'')\<rparr>"] live
  show ?thesis by (fastforce simp: mark_deleted_def subtree_def live_child_def example_inputs_def)
qed

text \<open>A listing whose cursor stops after some rows is answered with those rows as if they were all:
  a page of a proper part of the descendants, and no error.\<close>

theorem crdb_broken_cursor_shortens:
  assumes "plain t" "crdb_inv w" "page_in_range (BuildOptions options)"
    and "crdb_view w i = Some d" "visible (WithDeleted (BuildOptions options)) d"
    and "in_fault inp = None" "\<And>k. k < Suc n \<Longrightarrow> in_row inp k = RowOk" "in_row inp (Suc n) = RowStop e"
    and "n < card (descendants (crdb_view w) (WithDeleted (BuildOptions options)) i)"
  shows "\<exists>cs. distinct cs \<and> set cs = descendants (crdb_view w) (WithDeleted (BuildOptions options)) i
    \<and> n < length cs \<and> crdb_GetChildren t inp i options w = Ok (page_of (BuildOptions options) (take n cs))"
proof -
  let ?dels = "WithDeleted (BuildOptions options)"
  obtain cs where cs: "query_children t (rows (db w)) ?dels i = Some (i # cs)" "distinct cs"
    "set cs = descendants (crdb_view w) ?dels i"
    using query_children_visible [OF plain_engine [OF assms(1)] crdb_invD(1) [OF assms(2)]] assms(4,5)
    unfolding crdb_view_def by blast
  have "n < length cs" using assms(9) cs distinct_card [OF cs(2)] by simp
  moreover from this have "rows_loop (in_row inp) 0 (i # cs) [] = Inr (i # take n cs)"
    using rows_loop_stop [of "Suc n" "in_row inp" 0 e "i # cs" "[]"] assms(7,8) by simp
  ultimately show ?thesis
    using cs assms(6) page_after_first_in_range [OF assms(3)]
    by (intro exI [of _ cs]) (simp add: crdb_GetChildren_def formatQuery_plain [OF assms(1)] crdb_listing_def)
qed

theorem crdb_broken_cursor_shortens_witness:
  "crdb_GetChildren crdb_example ((example_inputs 0)\<lparr>in_row := (\<lambda>_. RowOk)(1 := RowStop (ErrExternal ''conn closed''))\<rparr>)
      (member_id 1) [] (crdb_family star11 ()) = Ok []"
proof -
  let ?inp = "(example_inputs 0)\<lparr>in_row := (\<lambda>_. RowOk)(1 := RowStop (ErrExternal ''conn closed''))\<rparr>"
  have "crdb_view (crdb_family star11 ()) (member_id 1) = Some (member star11 1)"
    by (simp add: crdb_view_family [where c = "()"] mem_view_family)
  from crdb_broken_cursor_shortens [OF plain_example crdb_examples(2) _ this, of "[]" ?inp 0]
    card_star11 [of "()" False]
  show ?thesis by (auto simp: crdb_view_family [where c = "()"] visible_def example_inputs_def)
qed

text \<open>The listings depend on the order of rows that SQL does not promise: with an engine that delivers
  the rows of the query in the opposite order, \<open>GetChildren\<close> lists the directory among its own
  descendants and leaves one of them out.\<close>

theorem crdb_listing_needs_row_order:
  assumes "\<And>table. mset (scan_rows (conn t) table) = mset table" "emit_ids (conn t) = rev" "\<not> fastReads t"
    and "crdb_inv w" "sql_avail inp"
    and "crdb_view w i = Some d" "visible (WithDeleted (BuildOptions options)) d"
    and "descendants (crdb_view w) (WithDeleted (BuildOptions options)) i \<noteq> {}"
    and "page_in_range (BuildOptions options)" "sint (GetPage (BuildOptions options)) = 1"
    and "int (card (descendants (crdb_view w) (WithDeleted (BuildOptions options)) i))
      \<le> sint (GetPageSize (BuildOptions options))"
  shows "\<exists>xs j. crdb_GetChildren t inp i options w = Ok xs \<and> i \<in> set xs
    \<and> j \<in> descendants (crdb_view w) (WithDeleted (BuildOptions options)) i \<and> j \<notin> set xs"
proof -
  let ?dels = "WithDeleted (BuildOptions options)" and ?t = "t\<lparr>conn := (conn t)\<lparr>emit_ids := \<lambda>ids. ids\<rparr>\<rparr>"
  have "engine_ok (conn ?t)" using assms(1) by (simp add: engine_ok_def)
  from query_children_visible [OF this crdb_invD(1) [OF assms(4)]] assms(6,7) obtain cs where
    cs: "query_children ?t (rows (db w)) ?dels i = Some (i # cs)" "distinct cs"
    "set cs = descendants (crdb_view w) ?dels i"
    unfolding crdb_view_def by blast
  obtain ds j where ds: "cs = ds @ [j]" using assms(8) cs(3) by (cases cs rule: rev_exhaust) auto
  have "query_children t (rows (db w)) ?dels i = Some (j # rev ds @ [i])"
    using cs(1) ds assms(2) by (auto simp: query_children_def Let_def)
  then have run: "crdb_GetChildren t inp i options w = Ok (page_of (BuildOptions options) (rev ds @ [i]))"
    using assms(3,5,9) by (simp add: crdb_GetChildren_def formatQuery_def crdb_listing_page)
  have "length (rev ds @ [i]) = card (descendants (crdb_view w) ?dels i)"
    using ds cs(2,3) distinct_card [OF cs(2)] by simp
  then have "page_of (BuildOptions options) (rev ds @ [i]) = rev ds @ [i]"
    using assms(10,11) by (intro page_of_whole) simp_all
  moreover have "j \<noteq> i" using cs(3) ds descends_irrefl [OF crdb_invD(2) [OF assms(4)]]
    by (auto simp: descendants_def)
  moreover have "j \<notin> set ds" "j \<in> descendants (crdb_view w) ?dels i" using ds cs(2,3) by auto
  ultimately show ?thesis using run by auto
qed

theorem crdb_listing_needs_row_order_witness:
  "\<exists>xs. crdb_GetChildren (crdb_NewDirectoryDriver \<lparr>scan_rows = (\<lambda>table. table), emit_ids = rev\<rparr> [])
      (example_inputs 0) (member_id 0) [] (crdb_family chain3 ()) = Ok xs \<and> member_id 0 \<in> set xs"
proof -
  let ?F = "mem_view (family chain3 ())"
  have "?F (member_id 0) = Some (member chain3 0)" by (simp add: mem_view_family)
  moreover have "member_id 1 \<in> descendants ?F False (member_id 0)"
    using mem_view_family [OF family_ok_examples(1), of 1 "()"]
    by (auto simp: descendants_def visible_def intro!: descends.child)
  moreover have "card (descendants ?F False (member_id 0)) \<le> 10"
    using card_descendants_family [OF family_ok_examples(1), of "()" False "member_id 0"] by simp
  ultimately show ?thesis
    using crdb_listing_needs_row_order [of "crdb_NewDirectoryDriver \<lparr>scan_rows = (\<lambda>table. table), emit_ids = rev\<rparr> []"
        "crdb_family chain3 ()" "example_inputs 0" "member_id 0" "member chain3 0" "[]"]
    by (auto simp: crdb_NewDirectoryDriver_def crdb_view_family [where c = "()"] visible_def)
qed

end
