(* ===== verification/Http_Properties.thy ===== *)
theory Http_Properties
  imports App_Over_Http Crdb_Properties
begin

text \<open>
  The properties of the HTTP client: the requests it sends, and what its methods return when the
  tree manager with the in-memory driver answers them. \<open>json_wire\<close> is the contract of the JSON and
  uuid libraries at both ends; \<open>connect u S peer T p inps\<close> is a client configured with the manager
  URL \<open>u\<close>, whose transport hands every request to \<open>newHandler\<close> over the store \<open>T\<close>.
\<close>

section \<open>Options\<close>

text \<open>C18: The options of a call reach the server: the query that the client adds to a path is read
  back by the server as options with the same deleted flag, the same effective page and the same
  effective page size, whatever integers the caller passed.\<close>

theorem client_options_reach_server:
  assumes "segs \<noteq> []" "\<forall>s \<in> set segs. segment s"
  shows "\<exists>q opts. addStorageOptionsToURL L (segs_path segs) options = Inr (reference (segs_path segs) q)
    \<and> storageOptionsFromGetQuery (map_of (ParseQuery q)) = Inr opts
    \<and> WithDeleted (BuildOptions opts) = WithDeleted (BuildOptions options)
    \<and> GetPage (BuildOptions opts) = GetPage (BuildOptions options)
    \<and> GetPageSize (BuildOptions opts) = GetPageSize (BuildOptions options)"
proof -
  obtain opts where "storageOptionsFromGetQuery (map_of (options_values options)) = Inr opts"
    "BuildOptions opts = effective (BuildOptions options)" by (rule options_read)
  then show ?thesis
    using addStorageOptionsToURL_api [OF assms, of L options]
    by (intro exI [of _ "values_Encode (options_values options)"] exI [of _ opts])
      (simp add: ParseQuery_Encode map_of_sort_key_fst)
qed

theorem client_options_reach_server_witness:
  "\<exists>q opts. addStorageOptionsToURL value_client (segs_path (api_path [''roots'']))
      [WithDeletedDirectories, Pagination 3 25] = Inr (reference (segs_path (api_path [''roots''])) q)
    \<and> storageOptionsFromGetQuery (map_of (ParseQuery q)) = Inr opts
    \<and> WithDeleted (BuildOptions opts) \<and> GetPage (BuildOptions opts) = 3 \<and> GetPageSize (BuildOptions opts) = 25"
proof -
  have "GetPage (BuildOptions [WithDeletedDirectories, Pagination 3 25]) = 3"
    "GetPageSize (BuildOptions [WithDeletedDirectories, Pagination 3 25]) = 25"
    "WithDeleted (BuildOptions [WithDeletedDirectories, Pagination 3 25])"
    by (simp_all add: BuildOptions_def WithDeletedDirectories_def Pagination_def GetPage_def GetPageSize_def)
  then show ?thesis
    using client_options_reach_server [of "api_path [''roots'']" value_client "[WithDeletedDirectories, Pagination 3 25]"]
    by fastforce
qed

section \<open>The client over the server\<close>

definition example_url :: go_url where
  "example_url = new_url\<lparr>url_Scheme := ''http'', url_Host := ''localhost:8080''\<rparr>"

lemma example_wire [simp]: "origin_ok example_url" "direct example_request"
  by (simp_all add: origin_ok_def example_url_def new_url_def direct_def example_request_def)

abbreviation example_client :: "(json_doc, (dir_map, unit) world) http_client" where
  "example_client \<equiv> connect example_url value_server example_request (mem_server 2) parse_decimal example_inputs"

lemma mem_over_wire: "json_wire L S p \<Longrightarrow> served_store L S p (mem_server n) mem_inv mem_view (\<lambda>_. True)"
  unfolding mem_server_def by (rule memory_over_wire)

text \<open>C10: A directory that the client creates below a live parent is stored with the requested name and
  metadata, the parent and a fresh identifier, and the client reads it back: both calls return it
  as stored, provided that the request and the stamps have an exact JSON text.\<close>

theorem client_create_then_get:
  assumes "json_wire L S p" "origin_ok u" "mem_inv w" "mem_view w i = Some q" "DeletedAt q = None"
    and "json_create r" "mem_view w (in_uuid (inps 1)) = None"
    and "json_time (in_time1 (inps 1))" "json_time (in_time2 (inps 1))"
  shows "\<exists>w' d. http_CreateDirectory L (connect u S peer (mem_server n) p inps) r i w
        = (w', Ok \<lparr>fetch_Directory = d, fetch_Version = APIVersion\<rparr>)
    \<and> DirId d = in_uuid (inps 1) \<and> Name d = create_Name r \<and> Parent d = Some i
    \<and> Metadata d = Some (case create_Metadata r of Some m \<Rightarrow> m | None \<Rightarrow> fmempty)
    \<and> mem_view w' = (mem_view w)(in_uuid (inps 1) \<mapsto> d) \<and> mem_inv w'
    \<and> snd (http_GetDirectory L (connect u S peer (mem_server n) p inps') (DirId d) [] w')
        = Ok \<lparr>fetch_Directory = d, fetch_Version = APIVersion\<rparr>"
  by (rule served_store.created_is_read_back [where inps = inps and inps' = inps',
        OF mem_over_wire [OF assms(1)] assms(2,3) TrueI TrueI assms(4-9)])

theorem client_create_then_get_witness:
  "\<exists>w' d. http_CreateDirectory value_client example_client
      \<lparr>create_Metadata = None, create_Name = ''docs'', create_Version = ''v1''\<rparr> (member_id 1) (family chain3 ())
      = (w', Ok \<lparr>fetch_Directory = d, fetch_Version = APIVersion\<rparr>)
    \<and> Name d = ''docs'' \<and> Parent d = Some (member_id 1)
    \<and> snd (http_GetDirectory value_client example_client (DirectoryID 100) [] w')
        = Ok \<lparr>fetch_Directory = d, fetch_Version = APIVersion\<rparr>"
proof -
  let ?r = "\<lparr>create_Metadata = None, create_Name = ''docs'', create_Version = ''v1''\<rparr>"
  have r: "json_create ?r" by (simp add: json_create_def json_metadata_def)
  have side: "DeletedAt (member chain3 1) = None" "mem_view (family chain3 ()) (in_uuid (example_inputs 1)) = None"
    "json_time (in_time1 (example_inputs 1))" "json_time (in_time2 (example_inputs 1))"
    by (simp_all add: example_inputs_def json_time_def)
  from client_create_then_get [where inps = example_inputs and inps' = example_inputs and n = 2
      and peer = example_request, OF value_wire example_wire(1) mem_inv_examples(1) chain3_views(2) side(1) r side(2-4)]
  show ?thesis by auto
qed

text \<open>C20: The children that the client lists are a page of the visible descendants, each once, and it
  is told of a next page exactly when this one is full.\<close>

theorem client_lists_children:
  assumes "json_wire L S p" "origin_ok u" "direct peer" "mem_inv w" "mem_view w i = Some d"
    and "visible (WithDeleted (BuildOptions options)) d" "page_in_range (BuildOptions options)"
  shows "\<exists>w' l cs. http_GetChildren L (connect u S peer (mem_server n) p inps) i options w = (w', Ok l)
    \<and> list_Directories l = page_of (BuildOptions options) cs
    \<and> distinct cs \<and> set cs = descendants (mem_view w) (WithDeleted (BuildOptions options)) i
    \<and> (Next (list_Links l) \<noteq> None \<longleftrightarrow> int (length (list_Directories l)) = sint (GetPageSize (BuildOptions options)))
    \<and> mem_view w' = mem_view w \<and> mem_inv w'"
  by (rule served_store.client_children [where inps = inps,
        OF mem_over_wire [OF assms(1)] assms(2-4) TrueI assms(5-7)])

theorem client_lists_children_witness:
  "\<exists>w' l. http_GetChildren value_client example_client (member_id 0) [Pagination 1 2] (family chain3 ()) = (w', Ok l)
    \<and> distinct (list_Directories l) \<and> set (list_Directories l) \<subseteq> descendants (mem_view (family chain3 ())) False (member_id 0)"
proof -
  have opts: "WithDeleted (BuildOptions [Pagination 1 2]) = False" "page_in_range (BuildOptions [Pagination 1 2])"
    by (simp_all add: BuildOptions_def Pagination_def new_options_def page_in_range_def GetPage_def GetPageSize_def)
  have "visible (WithDeleted (BuildOptions [Pagination 1 2])) (member chain3 0)" by (simp add: visible_def)
  from client_lists_children [where inps = example_inputs and n = 2,
      OF value_wire example_wire(1,2) mem_inv_examples(1) chain3_views(1) this opts(2)]
  show ?thesis using set_page_of distinct_page_of unfolding opts(1) by fastforce
qed



text \<open>A directory that the store does not show reaches the caller as an error made of the status
  line: \<open>errors.Is\<close> does not recognise \<open>ErrDirectoryNotFound\<close> in it, nor any other error of the
  store.\<close>

theorem client_not_found_is_opaque:
  assumes "json_wire L S p" "origin_ok u" "mem_inv w"
    and "\<And>d. mem_view w i = Some d \<Longrightarrow> \<not> visible (WithDeleted (BuildOptions options)) d"
  shows "\<exists>w' e. http_GetDirectory L (connect u S peer (mem_server n) p inps) i options w = (w', Err e)
    \<and> e = ErrText (''error getting directory: '' @ status_line S 404)
    \<and> \<not> errors_is e ErrDirectoryNotFound \<and> mem_view w' = mem_view w"
  using served_store.client_get_missing [where inps = inps and peer = peer and options = options and i = i,
      OF mem_over_wire [OF assms(1)] assms(2,3) TrueI assms(4)] by fastforce

theorem client_not_found_is_opaque_witness:
  "\<exists>w' e. http_GetDirectory value_client example_client (DirectoryID 100) [] (family chain3 ()) = (w', Err e)
    \<and> error_text e = ''error getting directory: 404'' \<and> \<not> errors_is e ErrDirectoryNotFound"
proof -
  have "status_line value_server 404 = ''404''"
    by code_simp
  then show ?thesis
    using client_not_found_is_opaque [where i = "DirectoryID 100" and options = "[]" and inps = example_inputs
        and n = 2 and peer = example_request, OF value_wire example_wire(1) mem_inv_examples(1) [of "()"]] by auto
qed

section \<open>The application over the client\<close>

text \<open>C16: A seeder whose client is the HTTP client, in front of a tree manager with the in-memory driver:
  a full reconciliation tracks the base directory and at most ten of its descendants, those of the
  first page; every other descendant stays untracked, however often it is repeated.\<close>

theorem seeder_over_http:
  assumes "json_wire L S p" "origin_ok u" "direct peer" "mem_inv (env w)"
    and "newSeeder base (Some (remote_client L (connect u S peer (mem_server n) p inps)))
      (sql_storage no_fault now') = Inr c"
    and "mem_view (env w) base = Some d" "DeletedAt d = None"
    and "\<And>i d. i \<in> subtree (mem_view (env w)) base \<Longrightarrow> mem_view (env w) i = Some d \<Longrightarrow> json_directory d"
    and "\<And>i. i \<in> subtree (mem_view (env w)) base \<Longrightarrow> tracked w i = None \<or> tracked w i = Some None"
  shows "\<exists>w' kids. InitializeDirectories now c w = (w', Ok ())
    \<and> tracked w' = (\<lambda>i. if i \<in> set (base # kids) then Some None else tracked w i)
    \<and> distinct kids \<and> set kids \<subseteq> descendants (mem_view (env w)) False base
    \<and> length kids = min 10 (card (descendants (mem_view (env w)) False base))
    \<and> mem_view (env w') = mem_view (env w) \<and> mem_inv (env w')"
  by (rule served_store.seeding [where inps = inps, OF mem_over_wire [OF assms(1)] assms(5,2,3) TrueI assms(4) refl assms(6-9)])

theorem seeder_over_http_witness:
  "\<exists>c w' i. newSeeder (member_id 1) (Some (remote_client value_client example_client))
      (sql_storage no_fault (\<lambda>_. zero_time)) = Inr c
    \<and> InitializeDirectories (\<lambda>_. zero_time) c \<lparr>tracked = Map.empty, env = family star11 ()\<rparr> = (w', Ok ())
    \<and> tracked w' (member_id 1) = Some None
    \<and> i \<in> descendants (mem_view (family star11 ())) False (member_id 1) \<and> tracked w' i = None"
proof -
  let ?w = "\<lparr>tracked = Map.empty, env = family star11 ()\<rparr>" and ?F = "mem_view (family star11 ())"
  let ?D = "descendants ?F False (member_id 1)"
  have json: "json_directory d" if "?F i = Some d" for i d
    using that by (rule mem_view_family_cases [OF family_ok_examples(2)])
      (auto simp: json_directory_def json_time_def json_metadata_def member_def zero_directory_def zero_time_def)
  have one: "?F (member_id 1) = Some (member star11 1)" "DeletedAt (member star11 1) = None"
    using mem_view_family [OF family_ok_examples(2), of 1 "()"] by simp_all
  obtain c w' kids where run: "newSeeder (member_id 1) (Some (remote_client value_client example_client))
      (sql_storage no_fault (\<lambda>_. zero_time)) = Inr c"
    "InitializeDirectories (\<lambda>_. zero_time) c ?w = (w', Ok ())"
    "tracked w' = (\<lambda>i. if i \<in> set (member_id 1 # kids) then Some None else None)"
    "distinct kids" "set kids \<subseteq> ?D" "length kids = min 10 (card ?D)"
    using seeder_over_http [where inps = example_inputs and n = 2 and w = ?w and now = "\<lambda>_. zero_time"
        and base = "member_id 1" and d = "member star11 1", OF value_wire example_wire] json one
    by (fastforce simp: newSeeder_eq)
  have "card (set kids) < card ?D" using run(4,6) card_star11 [of "()" False] by (simp add: distinct_card)
  then obtain i where i: "i \<in> ?D" "i \<notin> set kids" using run(5) by (metis psubset_card_mono subset_antisym subsetI less_irrefl)
  moreover have "i \<noteq> member_id 1"
    using i(1) descends_irrefl [OF mem_invD(2) [OF mem_inv_examples(2) [of "()"]]] by (auto simp: descendants_def)
  ultimately show ?thesis using run(1-3) by auto
qed

end
