(* ===== verification/Http_Server.thy ===== *)
theory Http_Server
  imports Treemanager
begin

text \<open>
  The HTTP server around the handlers: its configuration (internal/httpsrv/treemanager/config.go,
  defaults.go, and \<open>NewServer\<close> of treemanager.go) and the common server
  (internal/httpsrv/common/common.go): health endpoints, readiness checks, listening.

  \<^item> \<open>tm_config\<close> is \<open>treeManagerConfig\<close>, an option is a function on it. A nil interface or pointer
    is \<open>None\<close>; a nil storage driver panics when it is called (\<open>nil_driver\<close>). \<open>'l\<close>, \<open>'m\<close> and \<open>'a\<close> stand
    for \<open>net.Listener\<close>, the audit middleware and the configuration of ginjwt.
  \<^item> \<open>Server\<close> keeps of its \<open>sql.DB\<close> the method \<open>PingContext\<close>; \<open>ping\<close>, like every check, may change
    the world. The order in which Go ranges over the map of checks is the argument \<open>order\<close>.
  \<^item> Listening is net's and net/http's: \<open>net_ops\<close>. \<open>Serve\<close> returns only with an error.
  Logging and the Prometheus middleware are left out.
\<close>

section \<open>Configuration\<close>

type_synonym ('db, 'bus) check = "('db, 'bus) world \<Rightarrow> ('db, 'bus) world \<times> go_error option"

record ('db, 'bus, 'l, 'm, 'a) tm_config =
  cfg_listen :: string
  cfg_unix :: string
  cfg_listener :: "'l option"
  cfg_debug :: bool
  cfg_shutdownTimeout :: go_int
  cfg_notif :: "'bus notifier"
  cfg_storageDriver :: "('db, 'bus) directory_admin option"
  cfg_auditMdw :: "'m option"
  cfg_authConfig :: "'a option"
  cfg_trustedProxies :: "string list"

type_synonym ('db, 'bus, 'l, 'm, 'a) tm_option =
  "('db, 'bus, 'l, 'm, 'a) tm_config \<Rightarrow> ('db, 'bus, 'l, 'm, 'a) tm_config"

definition seconds :: "go_int \<Rightarrow> go_int" where
  "seconds n = n * (1000 * 1000 * 1000)"

definition DefaultTreeManagerListen :: string where
  "DefaultTreeManagerListen = '':8080''"

definition DefaultTreeManagerUnix :: string where
  "DefaultTreeManagerUnix = ''''"

definition DefaultTreeManagerDebug :: bool where
  "DefaultTreeManagerDebug = False"

definition DefaultTreeManagerShutdownTimeout :: go_int where
  "DefaultTreeManagerShutdownTimeout = seconds 5"

definition DefaultTreeManagerNotifier :: "'bus notifier" where
  "DefaultTreeManagerNotifier = noop_NewNotifier"

definition WithListen :: "string \<Rightarrow> ('db, 'bus, 'l, 'm, 'a) tm_option" where
  "WithListen listen c = c\<lparr>cfg_listen := listen\<rparr>"

definition WithListener :: "'l option \<Rightarrow> ('db, 'bus, 'l, 'm, 'a) tm_option" where
  "WithListener l c = c\<lparr>cfg_listener := l\<rparr>"

definition WithUnix :: "string \<Rightarrow> ('db, 'bus, 'l, 'm, 'a) tm_option" where
  "WithUnix path c = c\<lparr>cfg_unix := path\<rparr>"

definition WithDebug :: "bool \<Rightarrow> ('db, 'bus, 'l, 'm, 'a) tm_option" where
  "WithDebug b c = c\<lparr>cfg_debug := b\<rparr>"

definition WithShutdownTimeout :: "go_int \<Rightarrow> ('db, 'bus, 'l, 'm, 'a) tm_option" where
  "WithShutdownTimeout t c = c\<lparr>cfg_shutdownTimeout := t\<rparr>"

definition WithNotifier :: "'bus notifier option \<Rightarrow> ('db, 'bus, 'l, 'm, 'a) tm_option" where
  "WithNotifier n c =
     (let n = (case n of None \<Rightarrow> noop_NewNotifier | Some n \<Rightarrow> n) in c\<lparr>cfg_notif := n\<rparr>)"

definition WithStorageDriver :: "('db, 'bus) directory_admin option \<Rightarrow> ('db, 'bus, 'l, 'm, 'a) tm_option" where
  "WithStorageDriver d c = c\<lparr>cfg_storageDriver := d\<rparr>"

definition WithAuditMiddleware :: "'m option \<Rightarrow> ('db, 'bus, 'l, 'm, 'a) tm_option" where
  "WithAuditMiddleware mdw c = c\<lparr>cfg_auditMdw := mdw\<rparr>"

definition WithAuthConfig :: "'a option \<Rightarrow> ('db, 'bus, 'l, 'm, 'a) tm_option" where
  "WithAuthConfig a c = c\<lparr>cfg_authConfig := a\<rparr>"

definition WithTrustedProxies :: "string list \<Rightarrow> ('db, 'bus, 'l, 'm, 'a) tm_option" where
  "WithTrustedProxies proxies c = c\<lparr>cfg_trustedProxies := proxies\<rparr>"

definition apply_options :: "('db, 'bus, 'l, 'm, 'a) tm_option list \<Rightarrow> ('db, 'bus, 'l, 'm, 'a) tm_option" where
  "apply_options opts c = fold (\<lambda>opt c. opt c) opts c"

definition default_config :: "('db, 'bus, 'l, 'm, 'a) tm_config" where
  "default_config = \<lparr>cfg_listen = DefaultTreeManagerListen, cfg_unix = DefaultTreeManagerUnix,
     cfg_listener = None, cfg_debug = DefaultTreeManagerDebug,
     cfg_shutdownTimeout = DefaultTreeManagerShutdownTimeout, cfg_notif = DefaultTreeManagerNotifier,
     cfg_storageDriver = None, cfg_auditMdw = None, cfg_authConfig = None, cfg_trustedProxies = []\<rparr>"

section \<open>The common server\<close>

record ('db, 'bus, 'l) common_server =
  DB :: "('db, 'bus) check option"
  server_T :: "('db, 'bus) directory_admin"
  server_debug :: bool
  srv_Addr :: string
  srv_ReadHeaderTimeout :: go_int
  listen :: string
  listenUnix :: string
  listener :: "'l option"
  shutdownTime :: go_int
  build_version :: "string option"
  readinessChecks :: "string \<rightharpoonup> ('db, 'bus) check"
  trustedProxies :: "string list"

definition DefaultServerReadHeaderTimeout :: go_int where
  "DefaultServerReadHeaderTimeout = seconds 5"

definition dbCheck :: "('db, 'bus) check option \<Rightarrow> ('db, 'bus) check" where
  "dbCheck d w = (case d of None \<Rightarrow> (w, None) | Some ping \<Rightarrow> ping w)"

definition AddReadinessCheck :: "string \<Rightarrow> ('db, 'bus) check \<Rightarrow> ('db, 'bus, 'l) common_server
    \<Rightarrow> ('db, 'bus, 'l) common_server" where
  "AddReadinessCheck name f s = s\<lparr>readinessChecks := (readinessChecks s)(name \<mapsto> f)\<rparr>"

definition common_NewServer :: "string \<Rightarrow> ('db, 'bus) check option \<Rightarrow> ('db, 'bus) directory_admin \<Rightarrow> bool
    \<Rightarrow> go_int \<Rightarrow> string \<Rightarrow> 'l option \<Rightarrow> string list \<Rightarrow> ('db, 'bus, 'l) common_server" where
  "common_NewServer addr d t dbg stime unix l proxies =
     AddReadinessCheck ''database'' (dbCheck d)
       \<lparr>DB = d, server_T = t, server_debug = dbg, srv_Addr = addr,
        srv_ReadHeaderTimeout = DefaultServerReadHeaderTimeout, listen = addr, listenUnix = unix,
        listener = l, shutdownTime = stime, build_version = None, readinessChecks = Map.empty,
        trustedProxies = proxies\<rparr>"

section \<open>Health\<close>

definition livenessCheckHandler :: http_response where
  "livenessCheckHandler = Response 200 (StatusBody ''UP'')"

fun run_checks :: "(string \<times> ('db, 'bus) check) list \<Rightarrow> bool \<Rightarrow> (string \<rightharpoonup> string)
    \<Rightarrow> ('db, 'bus) world \<Rightarrow> ('db, 'bus) world \<times> bool \<times> (string \<rightharpoonup> string)" where
  "run_checks [] failed st w = (w, failed, st)"
| "run_checks ((name, check) # checks) failed st w =
     (case check w of
        (w, Some err) \<Rightarrow> run_checks checks True (st(name \<mapsto> error_text err)) w
      | (w, None) \<Rightarrow> run_checks checks failed (st(name \<mapsto> ''OK'')) w)"

definition readinessCheckHandler :: "(string \<times> ('db, 'bus) check) list \<Rightarrow> ('db, 'bus) world
    \<Rightarrow> ('db, 'bus) http_run" where
  "readinessCheckHandler order w =
     (case run_checks order False Map.empty w of
        (w, failed, st) \<Rightarrow> (w, Ok (Response (if failed then 503 else 200) (ChecksBody st))))"

text \<open>The map \<open>m\<close> of checks, ranged over in the order \<open>order\<close>.\<close>

definition ranges :: "(string \<times> 'c) list \<Rightarrow> (string \<rightharpoonup> 'c) \<Rightarrow> bool" where
  "ranges order m \<longleftrightarrow> distinct (map fst order) \<and> map_of order = m"

section \<open>The engine\<close>

definition versionHandler :: "string \<Rightarrow> http_response" where
  "versionHandler v = Response 200 (VersionBody v)"

text \<open>
  The routes of \<open>DefaultEngine\<close>, then those of \<open>newHandler\<close>, then \<open>NoRoute\<close>. \<open>set_proxies\<close> is gin's
  check of the trusted proxies; its error ends the process (\<open>logger.Fatal\<close>), hence \<open>None\<close>.
\<close>

definition engine :: "('db, 'bus, 'l) common_server \<Rightarrow> (string list \<Rightarrow> go_error option)
    \<Rightarrow> (string \<Rightarrow> uuid option) \<Rightarrow> (http_request \<Rightarrow> http_response option)
    \<Rightarrow> ((string \<times> ('db, 'bus) check) list \<Rightarrow> (nat \<Rightarrow> inputs) \<Rightarrow> string \<Rightarrow> string list \<Rightarrow> http_request
      \<Rightarrow> ('db, 'bus) world \<Rightarrow> ('db, 'bus) http_run) option" where
  "engine s set_proxies uuid_Parse auth =
     (if set_proxies (trustedProxies s) \<noteq> None then None
      else Some (\<lambda>order inps meth segs req w.
        if meth = ''GET'' \<and> segs = [''version''] \<and> build_version s \<noteq> None
        then (w, Ok (versionHandler (the (build_version s))))
        else if meth = ''GET'' \<and> segs = [''livez''] then (w, Ok livenessCheckHandler)
        else if meth = ''GET'' \<and> segs = [''readyz''] then readinessCheckHandler order w
        else case newHandler (server_T s) uuid_Parse auth inps meth segs req w of
               Some r \<Rightarrow> r
             | None \<Rightarrow> (w, Ok (Response 404 (MessageBody ''invalid request - route not found'')))))"

section \<open>NewServer\<close>

definition nil_driver :: "('db, 'bus) directory_admin" where
  "nil_driver = \<lparr>
     GetDirectory = (\<lambda>inp i options w. (w, Panic)), GetParents = (\<lambda>inp i options w. (w, Panic)),
     GetParentsUntilAncestor = (\<lambda>inp i a options w. (w, Panic)),
     GetChildren = (\<lambda>inp i options w. (w, Panic)), ListRoots = (\<lambda>inp options w. (w, Panic)),
     CreateDirectory = (\<lambda>inp a w. (w, Panic)), UpdateDirectory = (\<lambda>inp a w. (w, Panic)),
     DeleteDirectory = (\<lambda>inp i w. (w, Panic)), CreateRoot = (\<lambda>inp a w. (w, Panic))\<rparr>"

definition NewServer :: "'bus wrapper \<Rightarrow> ('db, 'bus) check option \<Rightarrow> ('db, 'bus, 'l, 'm, 'a) tm_option list
    \<Rightarrow> ('db, 'bus, 'l) common_server" where
  "NewServer retry pinger opts =
     (let cfg = apply_options opts default_config;
          driver = (case cfg_storageDriver cfg of None \<Rightarrow> nil_driver | Some d \<Rightarrow> d);
          store = server_store driver (cfg_notif cfg) retry
      in common_NewServer (cfg_listen cfg) pinger store (cfg_debug cfg) (cfg_shutdownTimeout cfg)
           (cfg_unix cfg) (cfg_listener cfg) (cfg_trustedProxies cfg))"

section \<open>Listening\<close>

record ('l, 'w) net_ops =
  net_Listen :: "string \<Rightarrow> 'w \<Rightarrow> 'w \<times> (go_error + 'l)"
  close_listener :: "'l \<Rightarrow> 'w \<Rightarrow> 'w"
  os_Remove :: "string \<Rightarrow> 'w \<Rightarrow> 'w"
  Serve :: "'l \<Rightarrow> 'w \<Rightarrow> 'w \<times> go_error"
  ListenAndServe :: "string \<Rightarrow> 'w \<Rightarrow> 'w \<times> go_error"

text \<open>The deferred calls run in reverse order: the socket is removed, then the listener closed.\<close>

definition server_Run :: "('l, 'w) net_ops \<Rightarrow> ('db, 'bus, 'l) common_server \<Rightarrow> 'w \<Rightarrow> 'w \<times> go_error" where
  "server_Run ops s w =
     (if listenUnix s \<noteq> ''''
      then (case net_Listen ops (listenUnix s) w of
              (w, Inl e) \<Rightarrow> (w, ErrWrap (''failed to listen on '' @ listenUnix s) e)
            | (w, Inr l) \<Rightarrow>
                (let (w, e) = Serve ops l w
                 in (close_listener ops l (os_Remove ops (listenUnix s) w), e)))
      else case listener s of
             Some l \<Rightarrow> Serve ops l w
           | None \<Rightarrow> ListenAndServe ops (srv_Addr s) w)"

text \<open>\<open>http.Server.Shutdown\<close> is given a context that ends after the configured time.\<close>

definition server_Shutdown :: "(go_int \<Rightarrow> 'w \<Rightarrow> 'r) \<Rightarrow> ('db, 'bus, 'l) common_server \<Rightarrow> 'w \<Rightarrow> 'r" where
  "server_Shutdown srv_Shutdown s w = srv_Shutdown (shutdownTime s) w"

end
