(* ===== verification/Http_Server_Properties.thy ===== *)
theory Http_Server_Properties
  imports Http_Server Server_Properties
begin

text \<open>
  The properties of the server around the handlers: what its responses look like, whatever the
  store does, and what the health endpoints report.
\<close>

section \<open>Responses\<close>

definition refusal :: "http_response \<Rightarrow> bool" where
  "refusal r \<longleftrightarrow> (\<exists>s. body r = ErrorBody s) \<and> status r \<in> {400, 404, 500}"

definition fetches :: "nat \<Rightarrow> http_response \<Rightarrow> bool" where
  "fetches code r \<longleftrightarrow> refusal r \<or> (\<exists>f. r = Response code (FetchBody f) \<and> fetch_Version f = APIVersion)"

definition lists_ids :: "http_response \<Rightarrow> bool" where
  "lists_ids r \<longleftrightarrow> refusal r \<or> (\<exists>l. r = Response 200 (ListBody l) \<and> list_Version l = APIVersion)"

fun well_typed :: "route \<Rightarrow> http_response \<Rightarrow> bool" where
  "well_typed R_version r = (r = Response 200 (VersionBody APIVersion))"
| "well_typed (R_get i) r = fetches 200 r"
| "well_typed (R_update i) r = fetches 200 r"
| "well_typed (R_create i) r = fetches 201 r"
| "well_typed R_createRoot r = fetches 201 r"
| "well_typed rt r = lists_ids r"

lemma well_typed_eta [simp]: "well_typed (R_get i) = fetches 200" "well_typed (R_update i) = fetches 200"
  "well_typed (R_create i) = fetches 201" "well_typed R_createRoot = fetches 201"
  "well_typed R_listRoots = lists_ids" "well_typed (R_children i) = lists_ids"
  "well_typed (R_parents i) = lists_ids" "well_typed (R_until i j) = lists_ids"
  "well_typed (R_delete i) = lists_ids"
  by (simp_all add: fun_eq_iff)

text \<open>\<open>yields P run\<close>: a response of \<open>run\<close> satisfies \<open>P\<close>.\<close>

definition yields :: "(http_response \<Rightarrow> bool) \<Rightarrow> 'w \<times> http_response outcome \<Rightarrow> bool" where
  "yields P run \<longleftrightarrow> (\<forall>r. snd run = Ok r \<longrightarrow> P r)"

named_theorems yields_intros

lemma yields_handle [yields_intros]:
  "(\<And>w e. yields P (f w e)) \<Longrightarrow> (\<And>w x. yields P (g w x)) \<Longrightarrow> yields P (handle r f g)"
  by (cases "(r, f, g)" rule: handle.cases) (simp_all add: yields_def)

lemma yields_sum [yields_intros]:
  "(\<And>e. yields P (f e)) \<Longrightarrow> (\<And>x. yields P (g x)) \<Longrightarrow> yields P (case s of Inl e \<Rightarrow> f e | Inr x \<Rightarrow> g x)"
  by (cases s) simp_all

lemma yields_option [yields_intros]:
  "yields P r \<Longrightarrow> (\<And>x. yields P (g x)) \<Longrightarrow> yields P (case s of None \<Rightarrow> r | Some x \<Rightarrow> g x)"
  by (cases s) simp_all

lemma yields_if [yields_intros]: "yields P r \<Longrightarrow> yields P r' \<Longrightarrow> yields P (if b then r else r')"
  by simp

lemma yields_prod [yields_intros]: "(\<And>x y. yields P (f x y)) \<Longrightarrow> yields P (case s of (x, y) \<Rightarrow> f x y)"
  by (cases s) simp

lemma yields_let [yields_intros]: "(\<And>x. yields P (f x)) \<Longrightarrow> yields P (let x = s in f x)"
  by simp

lemma yields_panic [yields_intros]: "yields P (w, Panic)"
  by (simp add: yields_def)

lemma yields_Ok: "P r \<Longrightarrow> yields P (w, Ok r)"
  by (simp add: yields_def)

lemma refusals [simp]: "refusal (bad_request s)" "refusal (not_found s)" "refusal (server_error s)"
  "refusal (outputGetDirectoryError e)"
  by (simp_all add: refusal_def bad_request_def not_found_def server_error_def outputGetDirectoryError_def)

lemma typed_answers [simp]: "fetches code (fetch_response code d)" "lists_ids (list_response req options ids)"
  "refusal r \<Longrightarrow> fetches code r" "refusal r \<Longrightarrow> lists_ids r"
  by (simp_all add: fetches_def lists_ids_def fetch_response_def list_response_def Let_def)

lemmas handler_defs = listRoots_def createRootDirectory_def getDirectory_def createDirectory_def
  updateDirectory_def apply_update_def deleteDirectory_def listChildren_def listParents_def listParentsUntil_def

lemma yields_fetches:
  "yields (fetches 200) (getDirectory T p inps req w)"
  "yields (fetches 200) (updateDirectory T p inps req w)"
  "yields (fetches 201) (createDirectory T p inps req w)"
  "yields (fetches 201) (createRootDirectory T inps req w)"
  unfolding handler_defs by (intro yields_intros; rule yields_Ok, simp)+

lemma yields_lists:
  "yields lists_ids (listRoots T inps req w)"
  "yields lists_ids (listChildren T p inps req w)"
  "yields lists_ids (listParents T p inps req w)"
  "yields lists_ids (listParentsUntil T p inps req w)"
  unfolding handler_defs by (intro yields_intros; rule yields_Ok, simp)+

lemma yields_deletion: "yields lists_ids (deleteDirectory T p inps req w)"
  unfolding handler_defs Let_def by (intro yields_intros; rule yields_Ok, simp) (simp add: lists_ids_def)

text \<open>C19: Whatever the store does, every response of the router has the shape of its route: the version
  endpoint answers \<open>v1\<close>, creations answer 201 and lookups and updates 200 with one directory,
  listings and deletions 200 with a list, all of them in version \<open>v1\<close>; anything else is an error
  text with status 400, 404 or 500.\<close>

theorem responses_well_typed:
  assumes "auth req = None" "serve T uuid_Parse auth inps rt req w = (w', Ok r)"
  shows "well_typed rt r"
proof -
  have "yields (well_typed rt) (serve T uuid_Parse auth inps rt req w)"
    using assms(1) by (cases rt)
      (simp_all add: yields_fetches yields_lists yields_deletion, simp add: yields_def apiVersionHandler_def APIVersion_def)
  with assms(2) show ?thesis by (simp add: yields_def)
qed

theorem responses_well_typed_witness:
  "\<exists>w' r. serve (mem_server 2) example_Parse (\<lambda>_. None) example_inputs (R_create ''xx'') example_request
      (family chain3 ()) = (w', Ok r) \<and> well_typed (R_create ''xx'') r"
proof -
  obtain w' r where "serve (mem_server 2) example_Parse (\<lambda>_. None) example_inputs (R_create ''xx'') example_request
      (family chain3 ()) = (w', Ok r)"
    using memory_noop.notified.server_create [where inps = example_inputs and uuid_Parse = example_Parse and n = 2
        and w = "family chain3 ()" and req = "example_request\<lparr>req_id := ''xx''\<rparr>" and u = "uuid_of (member_id 1)"
        and q = "member chain3 1"]
    unfolding mem_server_notifying by fastforce
  with responses_well_typed [where auth = "\<lambda>_. None", OF refl this] show ?thesis by blast
qed

section \<open>Health\<close>

lemma run_checks_verdicts:
  assumes "\<And>name check w. (name, check) \<in> set order \<Longrightarrow> snd (check w) = verdict name" "distinct (map fst order)"
  shows "\<exists>w'. run_checks order failed st w = (w', failed \<or> (\<exists>name \<in> fst ` set order. verdict name \<noteq> None),
    (\<lambda>name. if name \<in> fst ` set order then Some (case verdict name of None \<Rightarrow> ''OK'' | Some e \<Rightarrow> error_text e)
            else st name))"
  using assms
proof (induction order arbitrary: failed st w)
  case (Cons nc order)
  obtain name check where nc: "nc = (name, check)" by (cases nc)
  obtain w1 where w1: "check w = (w1, verdict name)"
    using Cons.prems(1) [of name check w] nc by (cases "check w") simp
  let ?text = "case verdict name of None \<Rightarrow> ''OK'' | Some e \<Rightarrow> error_text e"
  have new: "name \<notin> fst ` set order" using Cons.prems(2) nc by simp
  have "run_checks (nc # order) failed st w = run_checks order (failed \<or> verdict name \<noteq> None) (st(name \<mapsto> ?text)) w1"
    using nc w1 by (cases "verdict name") simp_all
  moreover have "\<And>name check w. (name, check) \<in> set order \<Longrightarrow> snd (check w) = verdict name"
    "distinct (map fst order)" using Cons.prems by (simp, simp)
  then obtain w' where "run_checks order (failed \<or> verdict name \<noteq> None) (st(name \<mapsto> ?text)) w1
      = (w', (failed \<or> verdict name \<noteq> None) \<or> (\<exists>name \<in> fst ` set order. verdict name \<noteq> None),
         (\<lambda>x. if x \<in> fst ` set order then Some (case verdict x of None \<Rightarrow> ''OK'' | Some e \<Rightarrow> error_text e)
              else (st(name \<mapsto> ?text)) x))"
    using Cons.IH [of "failed \<or> verdict name \<noteq> None" "st(name \<mapsto> ?text)" w1] by blast
  ultimately show ?case
    using nc new by (intro exI [of _ w']) (auto simp: fun_eq_iff)
qed simp

text \<open>The readiness endpoint answers 503 exactly when a check fails, and reports every check under its
  name, \<open>OK\<close> or the text of its error, in whatever order Go ranges over the map of checks.\<close>

theorem readiness_reports:
  assumes "ranges order (readinessChecks s)"
    and "\<And>name check w. readinessChecks s name = Some check \<Longrightarrow> snd (check w) = verdict name"
  shows "\<exists>w'. readinessCheckHandler order w =
    (w', Ok (Response (if \<exists>name \<in> dom (readinessChecks s). verdict name \<noteq> None then 503 else 200)
      (ChecksBody (\<lambda>name. if name \<in> dom (readinessChecks s)
         then Some (case verdict name of None \<Rightarrow> ''OK'' | Some e \<Rightarrow> error_text e) else None))))"
proof -
  have order: "distinct (map fst order)" "map_of order = readinessChecks s"
    using assms(1) by (auto simp: ranges_def)
  then have dom: "fst ` set order = dom (readinessChecks s)" by (metis dom_map_of_conv_image_fst)
  have "snd (check w) = verdict name" if "(name, check) \<in> set order" for name check w
    using that order assms(2) by (metis map_of_distinct_mem)
  with run_checks_verdicts [of order verdict False Map.empty w] order(1)
  obtain w' where "run_checks order False Map.empty w
      = (w', False \<or> (\<exists>name \<in> fst ` set order. verdict name \<noteq> None),
         (\<lambda>name. if name \<in> fst ` set order
            then Some (case verdict name of None \<Rightarrow> ''OK'' | Some e \<Rightarrow> error_text e) else None))" by blast
  then show ?thesis unfolding dom readinessCheckHandler_def by simp
qed

definition example_options :: "(dir_map, unit, unit, unit, unit) tm_option list" where
  "example_options = [WithStorageDriver (Some memory_driver), WithListen '':0'', WithNotifier None]"

definition example_server :: "(dir_map, unit, unit) common_server" where
  "example_server = NewServer (attempts 2) (Some (\<lambda>w. (w, Some (ErrExternal ''connection refused'')))) example_options"

lemma example_checks: "readinessChecks example_server = [''database'' \<mapsto> (\<lambda>w. (w, Some (ErrExternal ''connection refused'')))]"
  by (simp add: example_server_def NewServer_def common_NewServer_def AddReadinessCheck_def dbCheck_def Let_def fun_eq_iff)

theorem readiness_reports_witness:
  "\<exists>w' st. readinessCheckHandler [(''database'', \<lambda>w. (w, Some (ErrExternal ''connection refused'')))] (family chain3 ())
      = (w', Ok (Response 503 (ChecksBody st))) \<and> st ''database'' = Some ''connection refused''"
proof -
  let ?down = "\<lambda>w. (w, Some (ErrExternal ''connection refused''))"
  have "ranges [(''database'', ?down)] (readinessChecks example_server)"
    by (simp add: ranges_def example_checks)
  moreover have "snd (check w) = Some (ErrExternal ''connection refused'')"
    if "readinessChecks example_server name = Some check" for name check and w :: "(dir_map, unit) world"
    using that by (auto simp: example_checks split: if_splits)
  ultimately obtain w' where "readinessCheckHandler [(''database'', ?down)] (family chain3 ())
    = (w', Ok (Response (if \<exists>name \<in> dom (readinessChecks example_server).
           Some (ErrExternal ''connection refused'') \<noteq> None then 503 else 200)
        (ChecksBody (\<lambda>name. if name \<in> dom (readinessChecks example_server)
           then Some (case Some (ErrExternal ''connection refused'') of None \<Rightarrow> ''OK'' | Some e \<Rightarrow> error_text e) else None))))"
    using readiness_reports [where s = example_server and order = "[(''database'', ?down)]"
      and verdict = "\<lambda>name. Some (ErrExternal ''connection refused'')" and w = "family chain3 ()"] by blast
  then show ?thesis by (auto simp: example_checks)
qed

text \<open>A server made by \<open>NewServer\<close> is live whatever its database does, serves the store that its
  options name behind the notifier, and has no version endpoint: nothing sets the version.\<close>

theorem new_server_routes:
  assumes "engine (NewServer retry pinger opts) set_proxies uuid_Parse auth = Some h"
    and "cfg_storageDriver (apply_options opts default_config) = Some T"
  shows "h order inps ''GET'' [''livez''] req w = (w, Ok (Response 200 (StatusBody ''UP'')))
    \<and> h order inps ''GET'' [''version''] req w
        = (w, Ok (Response 404 (MessageBody ''invalid request - route not found'')))
    \<and> (find_route meth segs = Some rt \<longrightarrow> h order inps meth segs req w
        = serve (server_store T (cfg_notif (apply_options opts default_config)) retry) uuid_Parse auth inps rt req w)"
proof -
  let ?s = "NewServer retry pinger opts"
  have s: "build_version ?s = None"
    "server_T ?s = server_store T (cfg_notif (apply_options opts default_config)) retry"
    using assms(2) by (simp_all add: NewServer_def common_NewServer_def AddReadinessCheck_def Let_def)
  have h: "h = the (engine ?s set_proxies uuid_Parse auth)" "set_proxies (trustedProxies ?s) = None"
    using assms(1) by (simp, simp add: engine_def split: if_splits)
  have "find_route ''GET'' [''version''] = None" "\<And>meth. find_route meth [''livez''] = None"
    "\<And>meth. find_route meth [''readyz''] = None"
    by (simp_all add: find_route_def)
  then show ?thesis
    by (auto simp: h engine_def s newHandler_def livenessCheckHandler_def)
qed

theorem new_server_routes_witness:
  "\<exists>h. engine example_server (\<lambda>_. None) example_Parse (\<lambda>_. None) = Some h
    \<and> h [] example_inputs ''GET'' [''version''] example_request (family chain3 ())
        = (family chain3 (), Ok (Response 404 (MessageBody ''invalid request - route not found'')))"
proof -
  obtain h where h: "engine example_server (\<lambda>_. None) example_Parse (\<lambda>_. None) = Some h"
    by (simp add: engine_def)
  have "cfg_storageDriver (apply_options example_options default_config) = Some memory_driver"
    by (simp add: example_options_def apply_options_def WithStorageDriver_def WithListen_def WithNotifier_def Let_def)
  from new_server_routes [OF h [unfolded example_server_def] this] h show ?thesis by blast
qed

end
