(* ===== verification/Change_Log.thy ===== *)
theory Change_Log
  imports Nats_Notifier Crdb_Contract Store_Runs
begin

text \<open>
  The events that a store publishes through NATS as a log of its changes.

  \<^item> \<open>announcing_store\<close>: a directory store that leaves the message bus alone and returns the deleted
    directories as it keeps them; both drivers are interpreted. \<open>event_stream\<close>: a JetStream that
    appends every message to a stream, and an encoder with a decoder that reads its texts back.
  \<^item> \<open>change inp op F evs F'\<close>: the operation \<open>op\<close> turns the forest \<open>F\<close> into \<open>F'\<close> and publishes \<open>evs\<close>.
    \<open>perform_logged\<close> shows that every operation on a store behind the notifier is one.
  \<^item> \<open>apply_event\<close> replays an event; \<open>change_replay\<close> shows that replaying the log gives the store.
\<close>

section \<open>Changes\<close>

definition apply_event :: "directory_event \<Rightarrow> forest \<Rightarrow> forest" where
  "apply_event ev F = F(DirId (event_Directory ev) \<mapsto> event_Directory ev)"

abbreviation event_id :: "directory_event \<Rightarrow> directory_id" where
  "event_id ev \<equiv> DirId (event_Directory ev)"

inductive change :: "inputs \<Rightarrow> store_op \<Rightarrow> forest \<Rightarrow> directory_event list \<Rightarrow> forest \<Rightarrow> bool"
  for inp op F where
  unchanged: "change inp op F [] F"
| created: "op = OpCreate d \<or> op = OpRoot d \<Longrightarrow> Parent (event_Directory ev) = Parent d
    \<Longrightarrow> F (event_id ev) = None \<Longrightarrow> event_Type ev = EventTypeCreate \<Longrightarrow> DeletedAt (event_Directory ev) = None
    \<Longrightarrow> (\<And>q. Parent d = Some q \<Longrightarrow> q \<in> dom F)
    \<Longrightarrow> change inp op F [ev] (F(event_id ev \<mapsto> event_Directory ev))"
| updated: "op = OpUpdate (event_id ev) n m \<Longrightarrow> event_Type ev = EventTypeUpdate
    \<Longrightarrow> F (event_id ev) = Some d \<Longrightarrow> DeletedAt d = None
    \<Longrightarrow> DeletedAt (event_Directory ev) = None \<Longrightarrow> Parent (event_Directory ev) = Parent d
    \<Longrightarrow> change inp op F [ev] (F(event_id ev \<mapsto> event_Directory ev))"
| deleted: "op = OpDelete i \<Longrightarrow> live_child F i \<Longrightarrow> distinct (map event_id evs) \<Longrightarrow> i \<in> event_id ` set evs
    \<Longrightarrow> event_id ` set evs \<subseteq> subtree F i
    \<Longrightarrow> (card (descendants F False i) \<le> 10 \<longrightarrow> event_id ` set evs = subtree F i)
    \<Longrightarrow> (\<And>ev. ev \<in> set evs \<Longrightarrow> event_Type ev = EventTypeDelete
          \<and> mark_deleted (event_id ` set evs) (in_time1 inp) F (event_id ev) = Some (event_Directory ev))
    \<Longrightarrow> change inp op F evs (mark_deleted (event_id ` set evs) (in_time1 inp) F)"

lemma fold_apply_event:
  "distinct (map event_id evs) \<Longrightarrow>
    fold apply_event evs F = (\<lambda>i. if i \<in> event_id ` set evs then map_of (map (\<lambda>ev. (event_id ev, event_Directory ev)) evs) i else F i)"
proof (induction evs arbitrary: F)
  case (Cons ev evs)
  then show ?case by (auto simp: apply_event_def fun_eq_iff map_of_eq_None_iff image_image)
qed simp

lemma change_replay: "change inp op F evs F' \<Longrightarrow> fold apply_event evs F = F'"
proof (induction rule: change.induct)
  case (deleted i evs)
  let ?I = "event_id ` set evs"
  have "map_of (map (\<lambda>ev. (event_id ev, event_Directory ev)) evs) j = mark_deleted ?I (in_time1 inp) F j" if j: "j \<in> ?I" for j
  proof -
    from j obtain ev where ev: "ev \<in> set evs" "j = event_id ev" by blast
    then have "map_of (map (\<lambda>ev. (event_id ev, event_Directory ev)) evs) j = Some (event_Directory ev)"
      using deleted.hyps(3) by (intro map_of_is_SomeI) (simp_all add: o_def)
    with ev deleted.hyps(7) show ?thesis by simp
  qed
  moreover have "mark_deleted ?I (in_time1 inp) F j = F j" if "j \<notin> ?I" for j using that by (simp add: mark_deleted_def)
  ultimately show ?case using fold_apply_event [OF deleted.hyps(3), of F] by (auto simp: fun_eq_iff)
qed (simp_all add: apply_event_def)

text \<open>Operations whose new identifiers are fresh and whose parents exist.\<close>

fun op_valid :: "forest \<Rightarrow> inputs \<Rightarrow> store_op \<Rightarrow> bool" where
  "op_valid F inp (OpDelete i) = True"
| "op_valid F inp op = op_ok F inp op"

section \<open>The contracts\<close>

locale announcing_store = directory_store +
  assumes silent_get: "bus (fst (GetDirectory T inp i options w)) = bus w"
    and silent_create: "bus (fst (CreateDirectory T inp a w)) = bus w"
    and silent_root: "bus (fst (CreateRoot T inp a w)) = bus w"
    and silent_update: "bus (fst (UpdateDirectory T inp ptr w)) = bus w"
    and silent_delete: "bus (fst (DeleteDirectory T inp i w)) = bus w"
    and deleted_stored: "inv w \<Longrightarrow> avail inp \<Longrightarrow> DeleteDirectory T inp i w = (w', Ok ps) \<Longrightarrow>
      a \<in> set ps \<Longrightarrow> view w' (DirId (heap w' a)) = Some (heap w' a)"

locale event_stream =
  fixes enc :: "directory_event \<Rightarrow> go_error + 'p"
    and decode :: "'p \<Rightarrow> directory_event option"
    and nn :: "((string \<times> 'p) list, 'opt, 'p) nats_notifier"
    and now :: "(string \<times> 'p) list \<Rightarrow> go_time"
    and k :: nat
  assumes encodes: "\<exists>p. enc evt = Inr p \<and> decode p = Some evt"
    and appends: "js_Publish nn s p os b = (b @ [(s, p)], None)"
begin

abbreviation notif :: "(string \<times> 'p) list notifier" where
  "notif \<equiv> nats_methods enc now nn"

lemma notified:
  "\<exists>p. attempts k (notify_handler (notify_event enc now nn t) (Some d)) b
      = (b @ [(subjectPrefix nn @ ''.'' @ event_type_text t, p)], Ok ())
    \<and> decode p = Some (event_for t d (now b))"
proof -
  obtain p where p: "enc (event_for t d (now b)) = Inr p" "decode p = Some (event_for t d (now b))"
    using encodes by blast
  then have "attempts k (notify_handler (notify_event enc now nn t) (Some d)) b
      = (b @ [(subjectPrefix nn @ ''.'' @ event_type_text t, p)], Ok ())"
    by (intro attempts_Ok)
      (simp add: notify_handler_def notify_event_Some publish_def appends event_for_def)
  with p(2) show ?thesis by blast
qed

end

sublocale event_stream \<subseteq> reliable_notifier notif "attempts k"
  using notified by unfold_locales (auto, metis+)

text \<open>The events of a stream.\<close>

definition log_of :: "('p \<Rightarrow> directory_event option) \<Rightarrow> (string \<times> 'p) list \<Rightarrow> directory_event list" where
  "log_of decode b = List.map_filter (\<lambda>(s, p). decode p) b"

lemma log_of_append [simp]: "log_of decode (b @ b') = log_of decode b @ log_of decode b'"
  by (simp add: log_of_def List.map_filter_def)

lemma log_of_one [simp]: "log_of decode [(s, p)] = (case decode p of None \<Rightarrow> [] | Some ev \<Rightarrow> [ev])"
  by (simp add: log_of_def List.map_filter_def split: option.split)

lemma log_of_Nil [simp]: "log_of decode [] = []"
  by (simp add: log_of_def List.map_filter_def)

locale logged_store =
  announcing_store T inv view avail + event_stream enc decode nn now k
  for T :: "('db, (string \<times> 'p) list) directory_admin" and inv view avail
    and enc :: "directory_event \<Rightarrow> go_error + 'p" and decode and nn :: "((string \<times> 'p) list, 'opt, 'p) nats_notifier"
    and now k

sublocale logged_store \<subseteq> reliable_store T inv view avail notif "attempts k" ..

context logged_store
begin

abbreviation S :: "('db, (string \<times> 'p) list) directory_admin" where
  "S \<equiv> notifying T notif (attempts k)"

abbreviation logged :: "('db, (string \<times> 'p) list) world \<Rightarrow> directory_event list" where
  "logged w \<equiv> log_of decode (bus w)"

lemma event_for_simps [simp]: "event_Type (event_for t d n) = t" "event_Directory (event_for t d n) = d"
  by (simp_all add: event_for_def)

lemma notify_deleted_log:
  "\<exists>b evs. notify_deleted \<lparr>DirectoryAdmin = T, nws_notifier = notif, notifyWrapper = Some (attempts k)\<rparr> ps ds w
      = (w\<lparr>bus := b\<rparr>, Ok ps)
    \<and> log_of decode b = logged w @ evs \<and> map event_Directory evs = map (heap w) ds
    \<and> (\<forall>ev \<in> set evs. event_Type ev = EventTypeDelete)"
proof (induction ds arbitrary: w)
  case Nil
  show ?case by (intro exI [of _ "bus w"] exI [of _ "[]"]) simp
next
  case (Cons d ds)
  obtain p where p: "attempts k (notify_handler (NotifyDelete notif) (Some (heap w d))) (bus w)
      = (bus w @ [(subjectPrefix nn @ ''.'' @ event_type_text EventTypeDelete, p)], Ok ())"
    "decode p = Some (event_for EventTypeDelete (heap w d) (now (bus w)))"
    using notified [of EventTypeDelete "heap w d" "bus w"] by auto
  let ?w = "w\<lparr>bus := bus w @ [(subjectPrefix nn @ ''.'' @ event_type_text EventTypeDelete, p)]\<rparr>"
  obtain b evs where "notify_deleted \<lparr>DirectoryAdmin = T, nws_notifier = notif, notifyWrapper = Some (attempts k)\<rparr>
      ps ds ?w = (?w\<lparr>bus := b\<rparr>, Ok ps)"
    "log_of decode b = logged ?w @ evs" "map event_Directory evs = map (heap w) ds"
    "\<forall>ev \<in> set evs. event_Type ev = EventTypeDelete"
    using Cons.IH [of ?w] by auto
  with p show ?case
    by (intro exI [of _ b] exI [of _ "event_for EventTypeDelete (heap w d) (now (bus w)) # evs"])
      (simp add: call_wrapper_Some)
qed

definition logs :: "inputs \<Rightarrow> store_op \<Rightarrow> ('db, (string \<times> 'p) list) world
    \<Rightarrow> ('db, (string \<times> 'p) list) world \<Rightarrow> bool" where
  "logs inp op w w' \<longleftrightarrow> inv w' \<and> (\<exists>evs. logged w' = logged w @ evs \<and> change inp op (view w) evs (view w'))"

lemma logs_same: "inv w' \<Longrightarrow> view w' = view w \<Longrightarrow> bus w' = bus w \<Longrightarrow> logs inp op w w'"
  using change.unchanged [of inp op "view w"] by (simp add: logs_def)

lemma get_logs:
  assumes "inv w" "avail inp"
  shows "logs inp (OpGet i options) w (fst (perform S inp (OpGet i options) w))"
proof (cases "\<exists>d. view w i = Some d \<and> visible (WithDeleted (BuildOptions options)) d")
  case True
  then obtain w' a where "GetDirectory T inp i options w = (w', Ok a)" "view w' = view w" "inv w'"
    using get_found [OF assms] by blast
  with silent_get [of inp i options w] show ?thesis by (simp add: answer_of_def logs_same)
next
  case False
  then obtain w' where "GetDirectory T inp i options w = (w', Err ErrDirectoryNotFound)" "view w' = view w" "inv w'"
    using get_missing [OF assms] by blast
  with silent_get [of inp i options w] show ?thesis by (simp add: answer_of_def logs_same)
qed

lemma written_logs:
  assumes "op = OpCreate d \<or> op = OpRoot d" "heap w' p = stored_new inp t d" "view w' = (view w)(in_uuid inp \<mapsto> stored_new inp t d)" "inv w'"
    and "view w (in_uuid inp) = None" "DeletedAt d = None" "\<And>q. Parent d = Some q \<Longrightarrow> q \<in> dom (view w)"
    and "bus w' = bus w" "decode x = Some (event_for EventTypeCreate (heap w' p) n)"
  shows "logs inp op w (w'\<lparr>bus := bus w' @ [(s, x)]\<rparr>)"
proof -
  let ?ev = "event_for EventTypeCreate (stored_new inp t d) n"
  have id: "event_id ?ev = in_uuid inp" by (simp add: stored_new_def)
  have "change inp op (view w) [?ev] ((view w)(event_id ?ev \<mapsto> event_Directory ?ev))"
    by (rule change.created [OF assms(1)]) (use assms(5-7) id in \<open>auto simp: stored_new_def\<close>)
  then show ?thesis using assms id by (simp add: logs_def inv_bus view_bus)
qed

lemma create_logs:
  assumes "inv w" "avail inp" "op_ok (view w) inp (OpCreate d)"
  shows "logs inp (OpCreate d) w (fst (perform S inp (OpCreate d) w))"
proof -
  obtain q where q: "Parent d = Some q" "q \<in> dom (view w)" "view w (in_uuid inp) = None" "DeletedAt d = None"
    using assms(3) by (auto split: option.splits)
  obtain w' p t where c: "CreateDirectory T inp (fst (alloc d w)) (snd (alloc d w)) = (w', Ok p)"
    "heap w' p = stored_new inp t d" "inv w'" "view w' = (view w)(in_uuid inp \<mapsto> stored_new inp t d)"
    using create_directory [OF assms(1,2) q(3,1,2,4)] by blast
  obtain x where x: "attempts k (notify_handler (NotifyCreate notif) (Some (heap w' p))) (bus w')
      = (bus w' @ [(subjectPrefix nn @ ''.'' @ event_type_text EventTypeCreate, x)], Ok ())"
    "decode x = Some (event_for EventTypeCreate (heap w' p) (now (bus w')))"
    using notified [of EventTypeCreate "heap w' p" "bus w'"] by auto
  have "bus w' = bus w"
    using silent_create [of inp "fst (alloc d w)" "snd (alloc d w)"] c(1) by (simp add: world_simps)
  then have "logs inp (OpCreate d) w (w'\<lparr>bus := bus w' @ [(subjectPrefix nn @ ''.'' @ event_type_text EventTypeCreate, x)]\<rparr>)"
    using q by (intro written_logs [OF _ c(2,4,3) q(3,4) _ _ x(2)]) auto
  with notifying_create [where N = notif and wrap = "attempts k", OF c(1) x(1)] show ?thesis
    by (simp add: answer_of_def case_prod_unfold Let_def)
qed

lemma root_logs:
  assumes "inv w" "avail inp" "op_ok (view w) inp (OpRoot d)"
  shows "logs inp (OpRoot d) w (fst (perform S inp (OpRoot d) w))"
proof -
  have q: "Parent d = None" "view w (in_uuid inp) = None" "DeletedAt d = None" using assms(3) by simp_all
  obtain w' p t where c: "CreateRoot T inp (fst (alloc d w)) (snd (alloc d w)) = (w', Ok p)"
    "heap w' p = stored_new inp t d" "inv w'" "view w' = (view w)(in_uuid inp \<mapsto> stored_new inp t d)"
    using create_root [OF assms(1,2) q(2,1,3)] by blast
  obtain x where x: "attempts k (notify_handler (NotifyCreate notif) (Some (heap w' p))) (bus w')
      = (bus w' @ [(subjectPrefix nn @ ''.'' @ event_type_text EventTypeCreate, x)], Ok ())"
    "decode x = Some (event_for EventTypeCreate (heap w' p) (now (bus w')))"
    using notified [of EventTypeCreate "heap w' p" "bus w'"] by auto
  have "bus w' = bus w"
    using silent_root [of inp "fst (alloc d w)" "snd (alloc d w)"] c(1) by (simp add: world_simps)
  then have "logs inp (OpRoot d) w (w'\<lparr>bus := bus w' @ [(subjectPrefix nn @ ''.'' @ event_type_text EventTypeCreate, x)]\<rparr>)"
    using q by (intro written_logs [OF _ c(2,4,3) q(2,3) _ _ x(2)]) auto
  with notifying_create_root [where N = notif and wrap = "attempts k", OF c(1) x(1)] show ?thesis
    by (simp add: answer_of_def case_prod_unfold Let_def)
qed

lemma update_logs:
  assumes "inv w" "avail inp"
  shows "logs inp (OpUpdate i n m) w (fst (perform S inp (OpUpdate i n m) w))"
proof (cases "\<exists>d. view w i = Some d \<and> DeletedAt d = None")
  case True
  then obtain d0 where d0: "view w i = Some d0" "DeletedAt d0 = None" by blast
  then have "visible (WithDeleted (BuildOptions [])) d0" by (simp add: visible_def)
  then obtain w1 a where g: "GetDirectory T inp i [] w = (w1, Ok a)" "heap w1 a = d0" "view w1 = view w" "inv w1"
    using get_found [OF assms d0(1)] by blast
  let ?d = "d0\<lparr>Name := n, Metadata := m\<rparr>"
  let ?w1 = "write_ptr a ?d w1"
  obtain w2 where u: "UpdateDirectory T inp (Some a) ?w1 = (w2, Ok ())"
    "heap w2 a = stored_update inp ?d" "inv w2" "view w2 = (view w)(i \<mapsto> stored_update inp ?d)"
    using update_directory [OF assms(1,2,2) g(1), of ?d m n] g(2) by auto
  obtain x where x: "attempts k (notify_handler (NotifyUpdate notif) (Some (heap w2 a))) (bus w2)
      = (bus w2 @ [(subjectPrefix nn @ ''.'' @ event_type_text EventTypeUpdate, x)], Ok ())"
    "decode x = Some (event_for EventTypeUpdate (heap w2 a) (now (bus w2)))"
    using notified [of EventTypeUpdate "heap w2 a" "bus w2"] by auto
  have bus: "bus w2 = bus w"
    using silent_update [of inp "Some a" ?w1] silent_get [of inp i "[]" w] u(1) g(1) by (simp add: world_simps)
  let ?ev = "event_for EventTypeUpdate (heap w2 a) (now (bus w2))"
  have id: "event_id ?ev = i" using tree_ok_id [OF inv_tree [OF assms(1)] d0(1)] u(2) by (simp add: stored_update_def)
  have "change inp (OpUpdate i n m) (view w) [?ev] ((view w)(event_id ?ev \<mapsto> event_Directory ?ev))"
    by (rule change.updated [of _ _ n m]) (use id d0 u(2) in \<open>simp_all add: stored_update_def\<close>)
  then have "logs inp (OpUpdate i n m) w (w2\<lparr>bus := bus w2 @ [(subjectPrefix nn @ ''.'' @ event_type_text EventTypeUpdate, x)]\<rparr>)"
    using id u(2,3,4) x(2) bus by (simp add: logs_def inv_bus view_bus)
  with notifying_update [where N = notif and wrap = "attempts k", OF u(1) x(1)] g show ?thesis by simp
next
  case False
  then have "\<not> visible (WithDeleted (BuildOptions [])) d" if "view w i = Some d" for d
    using that by (auto simp: visible_def)
  then obtain w' where "GetDirectory T inp i [] w = (w', Err ErrDirectoryNotFound)" "view w' = view w" "inv w'"
    using get_missing [OF assms] by blast
  with silent_get [of inp i "[]" w] show ?thesis by (simp add: logs_same)
qed

lemma delete_logs:
  assumes "inv w" "avail inp"
  shows "logs inp (OpDelete i) w (fst (perform S inp (OpDelete i) w))"
proof (cases "live_child (view w) i")
  case True
  obtain w' ps I where del: "DeleteDirectory T inp i w = (w', Ok ps)" "inv w'"
    "distinct (map (\<lambda>a. DirId (heap w' a)) ps)" "set (map (\<lambda>a. DirId (heap w' a)) ps) = I"
    "i \<in> I" "I \<subseteq> subtree (view w) i" "card (descendants (view w) False i) \<le> 10 \<longrightarrow> I = subtree (view w) i"
    "view w' = mark_deleted I (in_time1 inp) (view w)"
    using delete_directory [OF assms True] by (elim exE conjE)
  obtain b evs where n: "notify_deleted \<lparr>DirectoryAdmin = T, nws_notifier = notif, notifyWrapper = Some (attempts k)\<rparr>
      ps ps w' = (w'\<lparr>bus := b\<rparr>, Ok ps)"
    "log_of decode b = logged w' @ evs" "map event_Directory evs = map (heap w') ps"
    "\<forall>ev \<in> set evs. event_Type ev = EventTypeDelete"
    using notify_deleted_log by metis
  have bus: "bus w' = bus w" using silent_delete [of inp i w] del(1) by simp
  have ids: "map event_id evs = map (\<lambda>a. DirId (heap w' a)) ps"
  proof -
    have "map event_id evs = map DirId (map event_Directory evs)" by simp
    then show ?thesis unfolding n(3) by simp
  qed
  then have I: "event_id ` set evs = I" using del(4) by (metis set_map)
  have "view w' (event_id ev) = Some (event_Directory ev)" if "ev \<in> set evs" for ev
  proof -
    have "event_Directory ev \<in> set (map (heap w') ps)" using that n(3) by (metis image_eqI set_map)
    then show ?thesis using deleted_stored [OF assms del(1)] by auto
  qed
  then have "change inp (OpDelete i) (view w) evs (mark_deleted (event_id ` set evs) (in_time1 inp) (view w))"
    using del n(4) by (intro change.deleted [OF refl True]) (simp_all add: ids I)
  then have "logs inp (OpDelete i) w (w'\<lparr>bus := b\<rparr>)" using del(2,8) n(2) bus I by (simp add: logs_def inv_bus view_bus)
  with notifying_delete [OF del(1), where N = notif and wrap = "attempts k"] n(1) show ?thesis by simp
next
  case False
  then obtain w' where d: "DeleteDirectory T inp i w = (w', Err ErrDirectoryNotFound)" "view w' = view w" "inv w'"
    using delete_missing [OF assms] by blast
  with silent_delete [of inp i w] notifying_errors(4) [OF d(1), where N = notif and wrap = "attempts k"]
  show ?thesis by (simp add: logs_same)
qed

lemma perform_logs: "inv w \<Longrightarrow> avail inp \<Longrightarrow> op_valid (view w) inp op \<Longrightarrow> logs inp op w (fst (perform S inp op w))"
  by (cases op) (auto intro: get_logs create_logs root_logs update_logs delete_logs simp del: perform.simps op_ok.simps)

end

section \<open>Sequences of operations\<close>

fun runs_valid :: "('db, 'bus) directory_admin \<Rightarrow> (('db, 'bus) world \<Rightarrow> forest)
    \<Rightarrow> (inputs \<times> store_op) list \<Rightarrow> ('db, 'bus) world \<Rightarrow> bool" where
  "runs_valid T view [] w \<longleftrightarrow> True"
| "runs_valid T view ((inp, op) # ops) w \<longleftrightarrow>
     op_valid (view w) inp op \<and> runs_valid T view ops (fst (perform T inp op w))"

inductive changes :: "(inputs \<times> store_op) list \<Rightarrow> forest \<Rightarrow> directory_event list \<Rightarrow> forest \<Rightarrow> bool" where
  no_changes: "changes [] F [] F"
| more_changes: "change inp op F evs G \<Longrightarrow> changes ops G evs' H \<Longrightarrow> changes ((inp, op) # ops) F (evs @ evs') H"

lemma changes_replay: "changes ops F evs G \<Longrightarrow> fold apply_event evs F = G"
  by (induction rule: changes.induct) (simp_all add: change_replay)

context logged_store
begin

lemma runs_logged:
  "inv w \<Longrightarrow> (\<And>inp op. (inp, op) \<in> set ops \<Longrightarrow> avail inp) \<Longrightarrow> runs_valid S view ops w \<Longrightarrow>
    inv (fst (runs S ops w)) \<and> (\<exists>evs. logged (fst (runs S ops w)) = logged w @ evs
      \<and> changes ops (view w) evs (view (fst (runs S ops w))))"
proof (induction ops arbitrary: w)
  case Nil
  then show ?case by (auto intro: changes.no_changes)
next
  case (Cons io ops)
  obtain inp op where io: "io = (inp, op)" by (rule prod.exhaust)
  let ?w1 = "fst (perform S inp op w)"
  have "logs inp op w ?w1" using Cons.prems io by (intro perform_logs) auto
  then obtain evs where one: "inv ?w1" "logged ?w1 = logged w @ evs" "change inp op (view w) evs (view ?w1)"
    by (auto simp: logs_def)
  have "runs_valid S view ops ?w1" using Cons.prems(3) io by simp
  then obtain evs' where "inv (fst (runs S ops ?w1))" "logged (fst (runs S ops ?w1)) = logged ?w1 @ evs'"
    "changes ops (view ?w1) evs' (view (fst (runs S ops ?w1)))"
    using Cons.IH [OF one(1)] Cons.prems(2) by auto
  with one io show ?case
    by (auto simp: case_prod_unfold Let_def intro: changes.more_changes)
qed

end

section \<open>Both drivers\<close>

lemma bus_alloc_case [simp]: "bus (snd (alloc d w)) = bus w" "bus (write_ptr a d w) = bus w" "bus (commit table v) = bus v"
  by (simp_all add: world_simps)

lemma delete_loop_bus: "bus (fst (delete_loop t is aff w)) = bus w"
proof (induction "is" arbitrary: aff w)
  case (Cons i "is")
  then show ?case by (cases "mem_GetDirectory i [] w") simp_all
qed simp

lemma mem_DeleteDirectory_silent: "bus (fst (mem_DeleteDirectory inp i w)) = bus w"
  by (cases "mem_GetDirectory i [] w"; cases "mem_GetChildren i [] w")
    (simp_all add: mem_DeleteDirectory_def delete_loop_bus Let_def)

lemma mem_store_new_bus: "bus (fst (mem_store_new inp a w)) = bus w"
  by (simp add: mem_store_new_def Let_def split: prod.split map_value.split)

lemma mem_deleted_stored:
  assumes "mem_inv w" "mem_DeleteDirectory inp i w = (w', Ok ps)" "a \<in> set ps"
  shows "mem_view w' (DirId (heap w' a)) = Some (heap w' a)"
proof -
  have "live_child (mem_view w) i"
    using assms(2) mem_DeleteDirectory_missing [OF mem_invD(1) [OF assms(1)], of i inp]
    by (fastforce simp: live_child_def)
  then obtain d where d: "mem_view w i = Some d" "DeletedAt d = None" "Parent d \<noteq> None"
    by (auto simp: live_child_def)
  let ?del = "i # take 10 (children_by_age w i)"
  obtain w2 where "mem_DeleteDirectory inp i w = (w2, Ok (map (ptr_of w) ?del))" "mem_inv w2"
    "ids_of w2 (map (ptr_of w) ?del) = ?del" "mem_ptr w2 = mem_ptr w"
    using mem_DeleteDirectory_spec [OF assms(1) d, of inp] by (elim exE conjE) (rule that)
  with assms(2) have w': "ps = map (ptr_of w) ?del" "ids_of w' ps = ?del" "mem_ptr w' = mem_ptr w" by simp_all
  from assms(3) w'(1) obtain j where j: "j \<in> set ?del" "a = ptr_of w j" by auto
  have "set ?del \<subseteq> dom (mem_view w)"
    using d(1) children_by_age_spec(1) [OF assms(1), of i] set_take_subset [of 10 "children_by_age w i"]
      descendants_subset_dom [of "mem_view w" False i] by auto
  then obtain e where "mem_view w j = Some e" using j(1) by blast
  then have ptr: "mem_ptr w' j = Some a" using j(2) w'(3) by (auto simp: mem_view_Some ptr_of_def)
  have "DirId (heap w' (ptr_of w x)) = x" if "x \<in> set ?del" for x
  proof -
    have "map (\<lambda>x. DirId (heap w' (ptr_of w x))) ?del = map (\<lambda>x. x) ?del"
      using w'(2) unfolding w'(1) map_map o_def by simp
    with that show ?thesis unfolding map_eq_conv by blast
  qed
  then have "DirId (heap w' a) = j" using j by simp
  with ptr show ?thesis by (simp add: mem_view_Some)
qed

interpretation mem_announcing: announcing_store memory_driver mem_inv mem_view "\<lambda>_. True"
proof (unfold_locales, goal_cases)
  case (4 inp ptr w)
  show ?case by (cases ptr) (simp_all add: mem_UpdateDirectory_def Let_def)
next
  case (6 w inp i w' ps a)
  then show ?case using mem_deleted_stored [of w inp i w' ps a] by simp
qed (simp_all add: mem_DeleteDirectory_silent mem_store_new_bus mem_CreateDirectory_def mem_CreateRoot_def)

lemma query_row_cases: "query_row inp rs = Inr r \<Longrightarrow> r \<in> set rs"
  by (auto simp: query_row_def split: option.splits list.splits row_step.splits)

lemma affected_loop_bus: "bus (fst (affected_loop st j rs aff w)) = bus w"
  by (induction rs arbitrary: j aff w) (auto simp: alloc_def split: row_step.split)

lemma insert_directory_bus: "bus (fst (insert_directory inp a w)) = bus w"
  by (simp add: insert_directory_def Let_def split: option.split sum.split)

lemma crdb_UpdateDirectory_bus: "bus (fst (crdb_UpdateDirectory t inp ptr w)) = bus w"
  by (simp add: crdb_UpdateDirectory_def Let_def split: option.split sum.split)

lemma crdb_DeleteDirectory_bus: "bus (fst (crdb_DeleteDirectory t inp i w)) = bus w"
  by (simp add: crdb_DeleteDirectory_def Let_def affected_loop_bus split: option.split)

lemma crdb_GetDirectory_bus: "bus (fst (crdb_GetDirectory t inp i options w)) = bus w"
  by (auto simp: crdb_GetDirectory_def Let_def alloc_def split: sum.split)

lemma crdb_deleted_stored:
  assumes "plain t" "crdb_inv w" "sql_avail inp" "crdb_DeleteDirectory t inp i w = (w', Ok ps)" "a \<in> set ps"
  shows "crdb_view w' (DirId (heap w' a)) = Some (heap w' a)"
proof -
  let ?scan = "scan_rows (conn t) (rows (db w))"
  have "in_fault inp = None" "in_row inp = (\<lambda>_. RowOk)" using assms(3) by (simp_all add: sql_avail_def rows_ok_def)
  moreover obtain gcs where "recursive_query (delete_step ?scan) (delete_start ?scan i) = Some gcs"
    using assms(4) calculation by (cases "recursive_query (delete_step ?scan) (delete_start ?scan i)")
      (simp_all add: crdb_DeleteDirectory_def Let_def)
  ultimately have "\<exists>hit. crdb_DeleteDirectory t inp i w =
      affected_loop (\<lambda>_. RowOk) 0 (map (\<lambda>d. d\<lparr>DeletedAt := Some (in_time1 inp)\<rparr>) (filter hit ?scan)) []
        (commit (map (\<lambda>d. if hit d then d\<lparr>DeletedAt := Some (in_time1 inp)\<rparr> else d) (rows (db w))) w)"
    by (intro exI [of _ "\<lambda>d. DeletedAt d = None \<and> DirId d \<in> fst ` set gcs"]) (simp add: crdb_DeleteDirectory_def Let_def)
  then obtain hit where run: "affected_loop (\<lambda>_. RowOk) 0
      (map (\<lambda>d. d\<lparr>DeletedAt := Some (in_time1 inp)\<rparr>) (filter hit ?scan)) []
      (commit (map (\<lambda>d. if hit d then d\<lparr>DeletedAt := Some (in_time1 inp)\<rparr> else d) (rows (db w))) w) = (w', Ok ps)"
    using assms(4) by auto
  let ?table = "map (\<lambda>d. if hit d then d\<lparr>DeletedAt := Some (in_time1 inp)\<rparr> else d) (rows (db w))"
  from affected_loop_ok [OF run] have w': "db w' = db (commit ?table w)"
    "map (heap w') ps = map (\<lambda>d. d\<lparr>DeletedAt := Some (in_time1 inp)\<rparr>) (filter hit ?scan)"
    by (auto split: if_splits)
  have "heap w' a \<in> set (map (heap w') ps)" using assms(5) by simp
  then have row: "heap w' a \<in> set ?table"
    unfolding w'(2) using set_scan [OF plain_engine [OF assms(1)]] by force
  have "map DirId ?table = map DirId (rows (db w))" by simp
  then have "distinct (map DirId ?table)" using table_ok_distinct [OF crdb_invD(1) [OF assms(2)]] by metis
  with row w'(1) show ?thesis by (simp add: crdb_view_def commit_def table_forest_Some)
qed

lemma crdb_announcing:
  assumes "plain t"
  shows "announcing_store (crdb_admin t) crdb_inv crdb_view sql_avail"
proof (intro announcing_store.intro announcing_store_axioms.intro)
  show "directory_store (crdb_admin t) crdb_inv crdb_view sql_avail"
    by (rule cascading_store.axioms(1) [OF crdb_cascading [OF assms]])
next
  fix w :: "'a crdb_world" and inp i w' ps a
  assume "crdb_inv w" "sql_avail inp" "DeleteDirectory (crdb_admin t) inp i w = (w', Ok ps)" "a \<in> set ps"
  then show "crdb_view w' (DirId (heap w' a)) = Some (heap w' a)"
    using crdb_deleted_stored [OF assms] by (simp add: crdb_admin_def)
qed (simp_all add: crdb_admin_def crdb_GetDirectory_bus crdb_UpdateDirectory_bus crdb_DeleteDirectory_bus
    crdb_CreateDirectory_def crdb_CreateRoot_def insert_directory_bus)

interpretation crdb_announcing: announcing_store "crdb_admin (crdb_on f)" crdb_inv crdb_view sql_avail
  for f :: "directory \<Rightarrow> 'k::linorder"
  by (rule crdb_announcing) simp

section \<open>A stream\<close>

text \<open>A JetStream that keeps the messages, and payloads that are the events themselves.\<close>

definition stream_notifier :: "string \<Rightarrow> ((string \<times> directory_event) list, unit, directory_event) nats_notifier" where
  "stream_notifier prefix = nats_NewNotifier (\<lambda>s p os b. (b @ [(s, p)], None)) prefix []"

lemma event_stream_example: "event_stream Inr Some (stream_notifier prefix)"
  by unfold_locales (simp_all add: stream_notifier_def nats_NewNotifier_def)

interpretation memory_logged: logged_store memory_driver mem_inv mem_view "\<lambda>_. True"
    Inr Some "stream_notifier prefix" now k for prefix now k
  by (intro logged_store.intro mem_announcing.announcing_store_axioms event_stream_example)

interpretation crdb_logged: logged_store "crdb_admin (crdb_on f)" crdb_inv crdb_view sql_avail
    Inr Some "stream_notifier prefix" now k for f :: "directory \<Rightarrow> 'k::linorder" and prefix now k
  by (intro logged_store.intro crdb_announcing.announcing_store_axioms event_stream_example)

end
