(* ===== verification/Nats_Watcher.thy ===== *)
theory Nats_Watcher
  imports App_Controller "HOL-Library.Sublist"
begin

text \<open>
  The NATS subscriber of the client (client/v1/nats/nats.go): the goroutine that \<open>Watch\<close> starts, the
  callback that the connection runs for each message, and the two unbuffered channels whose
  receiver is the caller of \<open>Watch\<close>.

  \<^item> \<open>watch_step\<close> has one rule per action of the goroutine (subscribe, report the failure, close the
    connection, close \<open>errs\<close>, close \<open>events\<close>: the deferred calls run in reverse order), of the callback
    (enter, wait in its \<open>select\<close>, hand over, give up), of the connection (a message arrives), of the
    receiver and of the caller (cancel).
  \<^item> A \<open>select\<close> with several ready cases takes any of them; a send on a closed channel is ready, and
    panics. A callback that waits in its \<open>select\<close> when the context is cancelled is woken by that case.
  \<^item> The connection runs the callback for one message at a time, in the order of arrival, and starts
    none after it is closed; one that has been started runs on.
\<close>

datatype goroutine = Subscribing | Reporting go_error | Watching | ClosingErrs | ClosingEvents | Ended

datatype callback = Idle | Entered directory_event | Waiting directory_event

record watcher =
  goroutine :: goroutine
  callback :: callback
  ctx_done :: bool
  conn_open :: bool
  errs_open :: bool
  events_open :: bool
  arrived :: "directory_event list"
  queue :: "directory_event list"
  received :: "directory_event list"
  reported :: "go_error list"
  panicked :: bool

definition NewSubscriber :: "(unit \<Rightarrow> go_error option) \<Rightarrow> go_error + watcher" where
  "NewSubscriber encoded_conn =
     (case encoded_conn () of
        Some e \<Rightarrow> Inl (ErrWrap ''failed to create encoded connection'' e)
      | None \<Rightarrow> Inr \<lparr>goroutine = Subscribing, callback = Idle, ctx_done = False, conn_open = True,
          errs_open = True, events_open = True, arrived = [], queue = [], received = [], reported = [],
          panicked = False\<rparr>)"

inductive watch_step :: "watcher \<Rightarrow> watcher \<Rightarrow> bool" where
  subscribed: "goroutine s = Subscribing \<Longrightarrow> watch_step s (s\<lparr>goroutine := Watching\<rparr>)"
| subscribe_failed: "goroutine s = Subscribing \<Longrightarrow>
    watch_step s (s\<lparr>goroutine := Reporting (ErrWrap ''failed to subscribe to subject'' e)\<rparr>)"
| report: "goroutine s = Reporting e \<Longrightarrow>
    watch_step s (s\<lparr>goroutine := ClosingErrs, reported := reported s @ [e]\<rparr>)"
| close_conn: "goroutine s = Watching \<Longrightarrow> ctx_done s \<Longrightarrow>
    watch_step s (s\<lparr>goroutine := ClosingErrs, conn_open := False\<rparr>)"
| close_errs: "goroutine s = ClosingErrs \<Longrightarrow>
    watch_step s (s\<lparr>goroutine := ClosingEvents, errs_open := False\<rparr>)"
| close_events: "goroutine s = ClosingEvents \<Longrightarrow>
    watch_step s (s\<lparr>goroutine := Ended, events_open := False\<rparr>)"
| message: "goroutine s = Watching \<Longrightarrow> conn_open s \<Longrightarrow>
    watch_step s (s\<lparr>arrived := arrived s @ [ev], queue := queue s @ [ev]\<rparr>)"
| enter: "callback s = Idle \<Longrightarrow> conn_open s \<Longrightarrow> queue s = ev # evs \<Longrightarrow>
    watch_step s (s\<lparr>callback := Entered ev, queue := evs\<rparr>)"
| wait: "callback s = Entered ev \<Longrightarrow> \<not> ctx_done s \<Longrightarrow> events_open s \<Longrightarrow>
    watch_step s (s\<lparr>callback := Waiting ev\<rparr>)"
| hand_over: "callback s = Entered ev \<or> callback s = Waiting ev \<Longrightarrow> events_open s \<Longrightarrow>
    watch_step s (s\<lparr>callback := Idle, received := received s @ [ev]\<rparr>)"
| give_up: "callback s = Entered ev \<Longrightarrow> ctx_done s \<Longrightarrow> watch_step s (s\<lparr>callback := Idle\<rparr>)"
| send_closed: "callback s = Entered ev \<Longrightarrow> \<not> events_open s \<Longrightarrow> watch_step s (s\<lparr>panicked := True\<rparr>)"
| cancel: "watch_step s (s\<lparr>ctx_done := True,
    callback := (case callback s of Waiting ev \<Rightarrow> Idle | cb \<Rightarrow> cb)\<rparr>)"

abbreviation watch_steps :: "watcher \<Rightarrow> watcher \<Rightarrow> bool" where
  "watch_steps \<equiv> watch_step\<^sup>*\<^sup>*"

text \<open>What the receiver gets from a closed channel is nil.\<close>

definition recv_closed_event :: "watcher \<Rightarrow> select_case option" where
  "recv_closed_event s = (if events_open s then None else Some (FromEvCh None))"

definition recv_closed_err :: "watcher \<Rightarrow> select_case option" where
  "recv_closed_err s = (if errs_open s then None else Some (FromErrCh None))"

inductive_cases watch_stepE: "watch_step s s'"

section \<open>The invariant\<close>

definition in_flight :: "watcher \<Rightarrow> directory_event list" where
  "in_flight s = (case callback s of Idle \<Rightarrow> [] | Entered ev \<Rightarrow> [ev] | Waiting ev \<Rightarrow> [ev])"

definition watch_inv :: "watcher \<Rightarrow> bool" where
  "watch_inv s \<longleftrightarrow> subseq (received s @ in_flight s @ queue s) (arrived s)
   \<and> (\<not> ctx_done s \<longrightarrow> received s @ in_flight s @ queue s = arrived s)
   \<and> (\<not> errs_open s \<longleftrightarrow> goroutine s \<in> {ClosingEvents, Ended})
   \<and> (\<not> events_open s \<longleftrightarrow> goroutine s = Ended)
   \<and> (goroutine s \<in> {ClosingErrs, ClosingEvents, Ended} \<longrightarrow> ctx_done s \<or> reported s \<noteq> [])
   \<and> (reported s \<noteq> [] \<longrightarrow> arrived s = [] \<and> goroutine s \<in> {ClosingErrs, ClosingEvents, Ended})
   \<and> (goroutine s \<in> {Subscribing} \<union> range Reporting \<longrightarrow> arrived s = [])
   \<and> (\<forall>ev. callback s = Waiting ev \<longrightarrow> \<not> ctx_done s)
   \<and> length (reported s) \<le> 1
   \<and> (panicked s \<longrightarrow> ctx_done s)"

lemma in_flight_simps [simp]: "in_flight (s\<lparr>callback := Idle\<rparr>) = []"
  "in_flight (s\<lparr>callback := Entered ev\<rparr>) = [ev]" "in_flight (s\<lparr>callback := Waiting ev\<rparr>) = [ev]"
  by (simp_all add: in_flight_def)

lemma in_flight_cong [simp]: "in_flight (s\<lparr>goroutine := g\<rparr>) = in_flight s"
  "in_flight (s\<lparr>ctx_done := b\<rparr>) = in_flight s" "in_flight (s\<lparr>conn_open := b\<rparr>) = in_flight s"
  "in_flight (s\<lparr>errs_open := b\<rparr>) = in_flight s" "in_flight (s\<lparr>events_open := b\<rparr>) = in_flight s"
  "in_flight (s\<lparr>arrived := a\<rparr>) = in_flight s" "in_flight (s\<lparr>queue := a\<rparr>) = in_flight s"
  "in_flight (s\<lparr>received := a\<rparr>) = in_flight s" "in_flight (s\<lparr>reported := r\<rparr>) = in_flight s"
  "in_flight (s\<lparr>panicked := b\<rparr>) = in_flight s"
  by (simp_all add: in_flight_def)

lemma subseq_drop_middle: "subseq (xs @ ys @ zs) as \<Longrightarrow> subseq (xs @ zs) as"
  by (rule subseq_order.order_trans [rotated], assumption)
    (intro list_emb_append_mono list_emb_append2 subseq_order.order_refl)

lemma watch_inv_step: "watch_step s s' \<Longrightarrow> watch_inv s \<Longrightarrow> watch_inv s'"
proof (induction rule: watch_step.induct)
  case (message s ev)
  then show ?case
    using list_emb_append_mono [of "(=)" "received s @ in_flight s @ queue s" "arrived s" "[ev]" "[ev]"]
    by (auto simp: watch_inv_def)
next
  case (enter s ev evs)
  then have "in_flight s = []" by (simp add: in_flight_def)
  moreover have "in_flight (s\<lparr>callback := Entered ev, queue := evs\<rparr>) = [ev]" by (simp add: in_flight_def)
  ultimately show ?case using enter unfolding watch_inv_def by simp
next
  case (hand_over s ev)
  then have "in_flight s = [ev]" by (auto simp: in_flight_def)
  moreover have "in_flight (s\<lparr>callback := Idle, received := received s @ [ev]\<rparr>) = []" by (simp add: in_flight_def)
  ultimately show ?case using hand_over unfolding watch_inv_def by (intro conjI) (simp_all, blast)
next
  case (wait s ev)
  then show ?case by (auto simp: watch_inv_def in_flight_def)
next
  case (give_up s ev)
  then show ?case
    using subseq_drop_middle [of "received s" "[ev]" "queue s" "arrived s"]
    by (auto simp: watch_inv_def in_flight_def)
next
  case (send_closed s ev)
  then show ?case by (auto simp: watch_inv_def in_flight_def)
next
  case (cancel s)
  then show ?case
    using subseq_drop_middle [of "received s" "in_flight s" "queue s" "arrived s"]
    by (cases "callback s") (auto simp: watch_inv_def in_flight_def)
qed (auto simp: watch_inv_def)

lemma watch_inv_steps: "watch_steps s s' \<Longrightarrow> watch_inv s \<Longrightarrow> watch_inv s'"
  by (induction rule: rtranclp_induct) (auto intro: watch_inv_step)

lemma watch_inv_start: "NewSubscriber enc = Inr s \<Longrightarrow> watch_inv s"
  by (auto simp: NewSubscriber_def watch_inv_def in_flight_def split: option.splits)

section \<open>Ending\<close>

text \<open>\<open>ending\<close>: the context is cancelled and the goroutine has subscribed; \<open>left\<close> is what it still has to do.\<close>

fun left :: "goroutine \<Rightarrow> nat" where
  "left Watching = 3"
| "left ClosingErrs = 2"
| "left ClosingEvents = 1"
| "left Ended = 0"
| "left _ = 4"

definition ending :: "watcher \<Rightarrow> bool" where
  "ending s \<longleftrightarrow> ctx_done s \<and> left (goroutine s) \<le> 3"

lemma ending_step: "watch_step s s' \<Longrightarrow> ending s \<Longrightarrow> ending s' \<and> left (goroutine s') \<le> left (goroutine s)
    \<and> (goroutine s' \<noteq> goroutine s \<longrightarrow> left (goroutine s') < left (goroutine s))"
  by (induction rule: watch_step.induct) (auto simp: ending_def)

text \<open>A run: every step is one of the watcher or leaves it as it is (the others move). The scheduler is
  fair to the goroutine: it does not wait for ever while it could move.\<close>

definition goroutine_can_move :: "watcher \<Rightarrow> bool" where
  "goroutine_can_move s \<longleftrightarrow> (\<exists>s'. watch_step s s' \<and> goroutine s' \<noteq> goroutine s)"

definition fair_run :: "(nat \<Rightarrow> watcher) \<Rightarrow> bool" where
  "fair_run f \<longleftrightarrow> (\<forall>n. watch_step (f n) (f (Suc n)) \<or> f (Suc n) = f n)
     \<and> (\<forall>n. \<exists>m \<ge> n. goroutine (f (Suc m)) \<noteq> goroutine (f m) \<or> \<not> goroutine_can_move (f m))"

lemma ending_can_move: "ending s \<Longrightarrow> goroutine s \<noteq> Ended \<Longrightarrow> goroutine_can_move s"
proof (cases "goroutine s")
  case Watching
  assume "ending s"
  with watch_step.close_conn [OF Watching] Watching show ?thesis
    unfolding goroutine_can_move_def ending_def by fastforce
next
  case ClosingErrs
  from watch_step.close_errs [OF this] this show ?thesis unfolding goroutine_can_move_def by fastforce
next
  case ClosingEvents
  from watch_step.close_events [OF this] this show ?thesis unfolding goroutine_can_move_def by fastforce
qed (simp_all add: ending_def)

lemma fair_run_ending:
  assumes "fair_run f" "ending (f n)"
  shows "ending (f (n + k)) \<and> left (goroutine (f (n + k))) \<le> left (goroutine (f n))"
proof (induction k)
  case (Suc k)
  have "watch_step (f (n + k)) (f (n + Suc k)) \<or> f (n + Suc k) = f (n + k)"
    using assms(1) by (simp add: fair_run_def)
  with Suc show ?case using ending_step [of "f (n + k)" "f (n + Suc k)"] by fastforce
qed (use assms in simp)

lemma fair_run_ends:
  assumes "fair_run f" "ending (f n)"
  shows "\<exists>m \<ge> n. goroutine (f m) = Ended"
  using assms(2)
proof (induction "left (goroutine (f n))" arbitrary: n rule: less_induct)
  case less
  show ?case
  proof (cases "goroutine (f n) = Ended")
    case False
    obtain m where m: "m \<ge> n" "goroutine (f (Suc m)) \<noteq> goroutine (f m) \<or> \<not> goroutine_can_move (f m)"
      using assms(1) unfolding fair_run_def by blast
    have at_m: "ending (f m)" "left (goroutine (f m)) \<le> left (goroutine (f n))"
      using fair_run_ending [OF assms(1) less.prems, of "m - n"] m(1) by simp_all
    show ?thesis
    proof (cases "goroutine (f m) = Ended")
      case False
      then have "goroutine (f (Suc m)) \<noteq> goroutine (f m)" using m(2) ending_can_move [OF at_m(1)] by blast
      moreover have "watch_step (f m) (f (Suc m)) \<or> f (Suc m) = f m" using assms(1) by (simp add: fair_run_def)
      ultimately have "ending (f (Suc m))" "left (goroutine (f (Suc m))) < left (goroutine (f n))"
        using ending_step [of "f m" "f (Suc m)"] at_m by fastforce+
      from less.hyps [OF this(2,1)] m(1) show ?thesis by (meson Suc_leD le_trans)
    qed (use m(1) in blast)
  qed blast
qed

end
