(* ===== verification/Replica.thy ===== *)
theory Replica
  imports Change_Log App_Laws Nats_Watcher
begin

text \<open>
  The application controller as a replica of the store: the changes of the store arrive as events,
  and the table of tracked directories follows.

  \<^item> \<open>live_tree F base\<close>: the base directory and what descends from it through live directories.
  \<^item> \<open>in_sync base F tr\<close>: the rows of the table that are not marked deleted are exactly the live
    tree, and rows that are marked belong to deleted directories.
  \<^item> \<open>replicable F base op\<close>: creations below a live parent, roots, updates outside the live tree (an
    update inside ends \<open>Run\<close>), and deletions that reach the whole subtree, at a time that is not Go's
    zero time.
  \<^item> \<open>sync_change\<close>: the controller takes the events of one change from in sync to in sync.
\<close>

definition live_tree :: "forest \<Rightarrow> directory_id \<Rightarrow> directory_id set" where
  "live_tree F base = {i. (\<exists>d. F base = Some d \<and> DeletedAt d = None) \<and> (i = base \<or> descends F False base i)}"

definition in_sync :: "directory_id \<Rightarrow> forest \<Rightarrow> (directory_id \<Rightarrow> go_time option option) \<Rightarrow> bool" where
  "in_sync base F tr \<longleftrightarrow> base \<in> dom F \<and> {i. tr i = Some None} = live_tree F base
     \<and> (\<forall>i t. tr i = Some (Some t) \<longrightarrow> (\<exists>d. F i = Some d \<and> DeletedAt d \<noteq> None))"

lemma live_tree_live: "i \<in> live_tree F base \<Longrightarrow> \<exists>d. F i = Some d \<and> DeletedAt d = None"
  by (auto simp: live_tree_def visible_def dest: descends_visible)

lemma in_syncD:
  assumes "in_sync base F tr"
  shows "base \<in> dom F" "tr i = Some None \<longleftrightarrow> i \<in> live_tree F base" "F i = None \<Longrightarrow> tr i = None"
    "F i = Some d \<Longrightarrow> DeletedAt d = None \<Longrightarrow> tr i = None \<or> tr i = Some None"
proof -
  show "base \<in> dom F" using assms by (simp add: in_sync_def)
  show live: "tr i = Some None \<longleftrightarrow> i \<in> live_tree F base" for i using assms by (auto simp: in_sync_def)
  have "F i = None \<Longrightarrow> tr i \<noteq> Some None" using live live_tree_live by fastforce
  moreover have "F i = None \<Longrightarrow> tr i \<noteq> Some (Some t)" for t using assms by (auto simp: in_sync_def)
  ultimately show "F i = None \<Longrightarrow> tr i = None" by (metis option.exhaust)
  have "F i = Some d \<Longrightarrow> DeletedAt d = None \<Longrightarrow> tr i \<noteq> Some (Some t)" for t using assms by (auto simp: in_sync_def)
  then show "F i = Some d \<Longrightarrow> DeletedAt d = None \<Longrightarrow> tr i = None \<or> tr i = Some None"
    by (metis option.exhaust)
qed

section \<open>The live tree after a change\<close>

lemma descends_cong:
  assumes "descends F dels r i"
    and "\<And>j d. F j = Some d \<Longrightarrow> visible dels d \<Longrightarrow> \<exists>e. G j = Some e \<and> visible dels e \<and> Parent e = Parent d"
  shows "descends G dels r i"
  using assms(1)
proof (induction rule: descends.induct)
  case (child i d)
  from assms(2) [OF child(1,2)] child(3) show ?case by (auto intro: descends.child)
next
  case (below p i d)
  from assms(2) [OF below(2,3)] below(4,5) show ?case by (auto intro: descends.below)
qed

lemma live_tree_insert:
  assumes "tree_ok F" "base \<in> dom F" "F i = None" "DeletedAt d = None" "\<And>q. Parent d = Some q \<Longrightarrow> q \<in> dom F"
  shows "live_tree (F(i \<mapsto> d)) base
    = (if \<exists>q. Parent d = Some q \<and> q \<in> live_tree F base then insert i (live_tree F base) else live_tree F base)"
proof -
  let ?G = "F(i \<mapsto> d)"
  have i: "i \<noteq> base" using assms(2,3) by auto
  have no_child: "Parent e \<noteq> Some i" if "F j = Some e" for j e
    using tree_ok_parent_Some [OF assms(1) that] assms(3) by fastforce
  have up: "descends ?G False base j" if "descends F False base j" for j
    using that by (rule descends_cong) (use assms(3) in auto)
  have "descends F False base j \<or> j = i \<and> (\<exists>q. Parent d = Some q \<and> (q = base \<or> descends F False base q))"
    if "descends ?G False base j" for j
    using that
  proof (induction rule: descends.induct)
    case (child j e)
    with i show ?case by (auto split: if_splits intro: descends.child)
  next
    case (below p j e)
    show ?case
    proof (cases "j = i")
      case False
      then have "F j = Some e" using below.hyps(2) by simp
      moreover from this have "p \<noteq> i" using no_child below.hyps(4) by metis
      ultimately show ?thesis using below by (auto intro: descends.below)
    next
      case True
      then have "Parent d = Some p" using below.hyps(2,4) by simp
      moreover from this have "p \<noteq> i" using assms(3,5) by auto
      ultimately show ?thesis using True below.IH by auto
    qed
  qed
  moreover have "descends ?G False base i" if "Parent d = Some q" "q = base \<or> descends F False base q" for q
    using that assms(4) descends.child [of ?G i d False base] descends.below [OF up, of q i d]
    by (auto simp: visible_def)
  ultimately have "descends ?G False base j \<longleftrightarrow> descends F False base j
      \<or> j = i \<and> (\<exists>q. Parent d = Some q \<and> (q = base \<or> descends F False base q))" for j
    using up by metis
  with i assms(2) show ?thesis by (auto simp: live_tree_def)
qed

lemma live_tree_update:
  assumes "F i = Some d" "DeletedAt d = None" "DeletedAt e = None" "Parent e = Parent d"
  shows "live_tree (F(i \<mapsto> e)) base = live_tree F base"
proof -
  have "descends (F(i \<mapsto> e)) False base j \<longleftrightarrow> descends F False base j" for j
    using assms by (intro iffI; elim descends_cong) (auto simp: visible_def split: if_splits)
  moreover have "(\<exists>d. (F(i \<mapsto> e)) base = Some d \<and> DeletedAt d = None) \<longleftrightarrow> (\<exists>d. F base = Some d \<and> DeletedAt d = None)"
    using assms by auto
  ultimately show ?thesis by (simp add: live_tree_def)
qed

lemma live_tree_delete:
  assumes "F i = Some d"
  shows "live_tree (mark_deleted (subtree F i) t F) base = live_tree F base - subtree F i"
proof -
  let ?I = "subtree F i" and ?G = "mark_deleted (subtree F i) t F"
  have G: "?G j = Some e \<and> visible False e \<longleftrightarrow> j \<notin> ?I \<and> F j = Some e \<and> visible False e" for j e
    by (auto simp: mark_deleted_def visible_def)
  have inside: "j \<in> ?I" if "p \<in> ?I" "F j = Some e" "visible False e" "Parent e = Some p" for p j e
    using that by (auto simp: subtree_def descendants_def intro: descends.child descends.below)
  have "descends F False base j \<and> j \<notin> ?I" if "descends ?G False base j" for j
    using that
  proof (induction rule: descends.induct)
    case (child j e)
    then show ?case using G by (blast intro: descends.child)
  next
    case (below p j e)
    then show ?case using G by (blast intro: descends.below)
  qed
  moreover have "descends ?G False base j" if "descends F False base j" "j \<notin> ?I" for j
    using that
  proof (induction rule: descends.induct)
    case (child j e)
    then show ?case using G by (blast intro: descends.child)
  next
    case (below p j e)
    then have "p \<notin> ?I" using inside [of p j e] below.hyps(2-4) by blast
    with below show ?case using G by (blast intro: descends.below)
  qed
  ultimately have desc: "descends ?G False base j \<longleftrightarrow> descends F False base j \<and> j \<notin> ?I" for j by blast
  have "j \<in> ?I" if "base \<in> ?I" "descends F False base j" for j
    using that(2,1) by (induction rule: descends.induct) (blast intro: inside)+
  moreover have "(\<exists>d. ?G base = Some d \<and> DeletedAt d = None) \<longleftrightarrow> base \<notin> ?I \<and> (\<exists>d. F base = Some d \<and> DeletedAt d = None)"
    using G [of base] by (auto simp: visible_def)
  ultimately show ?thesis using desc by (auto simp: live_tree_def)
qed

section \<open>The events of a change\<close>

fun follow :: "('w \<Rightarrow> go_time) \<Rightarrow> 'w controller \<Rightarrow> directory_event list \<Rightarrow> 'w \<Rightarrow> 'w \<times> unit outcome" where
  "follow now c [] w = (w, Ok ())"
| "follow now c (ev # evs) w =
     handle (processIncomingEvent now c (Some ev) w) (\<lambda>w e. (w, Err e)) (\<lambda>w _. follow now c evs w)"

lemma follow_append:
  "follow now c evs w = (w', Ok ()) \<Longrightarrow> follow now c (evs @ evs') w = follow now c evs' w'"
proof (induction evs arbitrary: w)
  case (Cons ev evs)
  then show ?case by (cases "processIncomingEvent now c (Some ev) w"; cases "snd (processIncomingEvent now c (Some ev) w)") auto
qed simp

lemma follow_steps:
  assumes "controller_steps now c w0 ss w Running" "follow now c evs w = (w', Ok ())"
  shows "controller_steps now c w0 (ss @ map (\<lambda>ev. FromEvCh (Some ev)) evs) w' Running"
  using assms
proof (induction evs arbitrary: ss w)
  case (Cons ev evs)
  obtain w1 r where one: "processIncomingEvent now c (Some ev) w = (w1, r)" by (rule prod.exhaust)
  then have "r = Ok ()" "follow now c evs w1 = (w', Ok ())" using Cons.prems(2) by (cases r; simp)+
  moreover from this one have "controller_steps now c w0 (ss @ [FromEvCh (Some ev)]) w1 Running"
    by (intro controller_steps.one_select [OF Cons.prems(1)]) (simp_all add: can_select_def)
  ultimately show ?case using Cons.IH by fastforce
qed simp

text \<open>A reconciler that succeeds and leaves the table alone, over a database that answers.\<close>

definition quiet :: "('e \<Rightarrow> go_time) \<Rightarrow> 'e sql_world controller \<Rightarrow> bool" where
  "quiet now' c \<longleftrightarrow> ctl_store c = sql_storage no_fault now'
     \<and> (\<exists>r. ctl_reconciler c = Some r \<and> (\<forall>ev w. \<exists>e. r ev w = (w\<lparr>env := e\<rparr>, Ok ())))"

lemma quiet_reconciler:
  "quiet now' c \<Longrightarrow> \<exists>e. call_reconciler c ev w = (w\<lparr>env := e\<rparr>, Ok ())"
  by (auto simp: quiet_def call_reconciler_def)

lemma follow_create:
  assumes "quiet now' c" "\<not> IsDeleted (event_Directory ev)" "tracked w (event_id ev) = None"
    and "event_Type ev = EventTypeCreate"
  shows "\<exists>w'. processIncomingEvent now c (Some ev) w = (w', Ok ())
    \<and> tracked w' = (if \<exists>q. Parent (event_Directory ev) = Some q \<and> tracked w q \<noteq> None
        then (tracked w)(event_id ev \<mapsto> None) else tracked w)"
proof -
  have st: "ctl_store c = sql_storage no_fault now'" using assms(1) by (simp add: quiet_def)
  let ?w = "w\<lparr>tracked := (tracked w)(event_id ev \<mapsto> None)\<rparr>"
  obtain e where "call_reconciler c (create_event now (event_Directory ev) ?w) ?w = (?w\<lparr>env := e\<rparr>, Ok ())"
    using quiet_reconciler [OF assms(1)] by blast
  with assms(2-4) show ?thesis
    by (auto simp: processIncomingEvent_eq [OF st] persistDirectory_eq [OF st] relevant_def Let_def)
qed

lemma follow_update:
  assumes "quiet now' c" "event_Type ev = EventTypeUpdate" "tracked w (event_id ev) = None"
  shows "processIncomingEvent now c (Some ev) w = (w, Ok ())"
proof -
  have st: "ctl_store c = sql_storage no_fault now'" using assms(1) by (simp add: quiet_def)
  with assms(2,3) show ?thesis by (simp add: processIncomingEvent_eq [OF st] relevant_def)
qed

definition marked :: "directory_id set \<Rightarrow> (directory_id \<Rightarrow> go_time option option)
    \<Rightarrow> (directory_id \<Rightarrow> go_time option option) \<Rightarrow> bool" where
  "marked I tr tr' \<longleftrightarrow> (\<forall>i. if i \<in> I \<and> tr i = Some None then \<exists>t. tr' i = Some (Some t) else tr' i = tr i)"

lemma marked_insert:
  assumes "marked {a} tr tr1" "marked I tr1 tr2" "a \<notin> I"
  shows "marked (insert a I) tr tr2"
  unfolding marked_def
proof
  fix i
  show "if i \<in> insert a I \<and> tr i = Some None then \<exists>t. tr2 i = Some (Some t) else tr2 i = tr i"
    using assms(1) [unfolded marked_def, rule_format, of i] assms(2) [unfolded marked_def, rule_format, of i] assms(3)
    by (cases "i = a"; cases "i \<in> I") auto
qed

lemma marked_same: "marked I tr tr' \<Longrightarrow> i \<notin> I \<Longrightarrow> tr' i = tr i"
  unfolding marked_def by metis

lemma follow_deletes:
  assumes "quiet now' c"
  shows "distinct (map event_id evs) \<Longrightarrow>
    (\<And>ev. ev \<in> set evs \<Longrightarrow> event_Type ev = EventTypeDelete \<and> IsDeleted (event_Directory ev)) \<Longrightarrow>
    (\<And>ev. ev \<in> set evs \<Longrightarrow> tracked w (event_id ev) = None \<or> tracked w (event_id ev) = Some None) \<Longrightarrow>
    \<exists>w'. follow now c evs w = (w', Ok ()) \<and> marked (event_id ` set evs) (tracked w) (tracked w')"
proof (induction evs arbitrary: w)
  case Nil
  then show ?case by (simp add: marked_def)
next
  case (Cons ev evs)
  have st: "ctl_store c = sql_storage no_fault now'" using assms by (simp add: quiet_def)
  have ev: "event_Type ev = EventTypeDelete" "IsDeleted (event_Directory ev)" using Cons.prems(2) by auto
  obtain w1 where w1: "processIncomingEvent now c (Some ev) w = (w1, Ok ())"
    "marked {event_id ev} (tracked w) (tracked w1)"
  proof (cases "tracked w (event_id ev) = None")
    case True
    then have "processIncomingEvent now c (Some ev) w = (w, Ok ())"
      using ev by (simp add: processIncomingEvent_eq [OF st] relevant_def)
    with True show ?thesis by (intro that) (auto simp: marked_def)
  next
    case False
    then have live: "tracked w (event_id ev) = Some None" using Cons.prems(3) by force
    let ?w = "w\<lparr>tracked := (tracked w)(event_id ev \<mapsto> Some (now' (env w)))\<rparr>"
    obtain e where "call_reconciler c (delete_event now (event_Directory ev) ?w) ?w = (?w\<lparr>env := e\<rparr>, Ok ())"
      using quiet_reconciler [OF assms] by blast
    with live ev have "processIncomingEvent now c (Some ev) w = (?w\<lparr>env := e\<rparr>, Ok ())"
      by (simp add: processIncomingEvent_eq [OF st] persistDirectory_eq [OF st] relevant_def Let_def)
    with live show ?thesis by (intro that) (auto simp: marked_def)
  qed
  have same: "tracked w1 (event_id ev') = tracked w (event_id ev')" if "ev' \<in> set evs" for ev'
  proof -
    have "event_id ev' \<in> event_id ` set evs" using that by simp
    with Cons.prems(1) have "event_id ev' \<noteq> event_id ev" by auto
    then show ?thesis by (intro marked_same [OF w1(2)]) simp
  qed
  obtain w' where "follow now c evs w1 = (w', Ok ())" "marked (event_id ` set evs) (tracked w1) (tracked w')"
    using Cons.IH [of w1] Cons.prems same by auto
  moreover from marked_insert [OF w1(2) this(2)] have "marked (event_id ` set (ev # evs)) (tracked w) (tracked w')"
    using Cons.prems(1) by simp
  ultimately show ?case using w1(1) by (intro exI [of _ w']) simp
qed

section \<open>Staying in sync\<close>

fun op_replicable :: "forest \<Rightarrow> directory_id \<Rightarrow> inputs \<Rightarrow> store_op \<Rightarrow> bool" where
  "op_replicable F base inp (OpCreate d) \<longleftrightarrow> (\<exists>q e. Parent d = Some q \<and> F q = Some e \<and> DeletedAt e = None)"
| "op_replicable F base inp (OpUpdate i n m) \<longleftrightarrow> i \<notin> live_tree F base"
| "op_replicable F base inp (OpDelete i) \<longleftrightarrow>
     (live_child F i \<longrightarrow> card (descendants F False i) \<le> 10) \<and> \<not> time_IsZero (in_time1 inp)"
| "op_replicable F base inp (OpRoot d) \<longleftrightarrow> Parent d = None"
| "op_replicable F base inp (OpGet i options) \<longleftrightarrow> True"

lemma sync_created:
  assumes "quiet now' c" "tree_ok F" "in_sync base F (tracked w)"
    and "F (event_id ev) = None" "event_Type ev = EventTypeCreate" "DeletedAt (event_Directory ev) = None"
    and "\<And>q. Parent (event_Directory ev) = Some q \<Longrightarrow> \<exists>d. F q = Some d \<and> DeletedAt d = None"
  shows "\<exists>w'. follow now c [ev] w = (w', Ok ()) \<and> in_sync base (F(event_id ev \<mapsto> event_Directory ev)) (tracked w')"
proof -
  let ?d = "event_Directory ev" and ?G = "F(event_id ev \<mapsto> event_Directory ev)"
  note sync = in_syncD [OF assms(3)]
  have "\<not> IsDeleted ?d" using assms(6) IsDeleted_not_None by blast
  from follow_create [OF assms(1) this sync(3) [OF assms(4)] assms(5), of now] obtain w' where
    w': "processIncomingEvent now c (Some ev) w = (w', Ok ())"
    "tracked w' = (if \<exists>q. Parent ?d = Some q \<and> tracked w q \<noteq> None
        then (tracked w)(event_id ev \<mapsto> None) else tracked w)" by blast
  have parent: "tracked w q \<noteq> None \<longleftrightarrow> q \<in> live_tree F base" if "Parent ?d = Some q" for q
    using assms(7) [OF that] sync(2,4) by (metis option.distinct(1))
  have tree: "live_tree ?G base = (if \<exists>q. Parent ?d = Some q \<and> q \<in> live_tree F base
      then insert (event_id ev) (live_tree F base) else live_tree F base)"
    using assms(7) by (intro live_tree_insert [OF assms(2) sync(1) assms(4,6)]) auto
  have "in_sync base ?G (tracked w')"
  proof (cases "\<exists>q. Parent ?d = Some q \<and> q \<in> live_tree F base")
    case True
    then have tr: "tracked w' = (tracked w)(event_id ev \<mapsto> None)"
      unfolding w'(2) using parent by (subst if_P) auto
    have new: "live_tree ?G base = insert (event_id ev) (live_tree F base)" unfolding tree using True by (rule if_P)
    show ?thesis unfolding in_sync_def new tr using assms(3,4) by (auto simp: in_sync_def)
  next
    case False
    then have tr: "tracked w' = tracked w" unfolding w'(2) using parent by (subst if_not_P) auto
    have new: "live_tree ?G base = live_tree F base" unfolding tree using False by (rule if_not_P)
    show ?thesis unfolding in_sync_def new tr using assms(3,4) by (auto simp: in_sync_def)
  qed
  with w'(1) show ?thesis by simp
qed

lemma sync_updated:
  assumes "quiet now' c" "in_sync base F (tracked w)"
    and "F (event_id ev) = Some d" "event_Type ev = EventTypeUpdate" "DeletedAt d = None"
    and "DeletedAt (event_Directory ev) = None" "Parent (event_Directory ev) = Parent d"
    and "event_id ev \<notin> live_tree F base"
  shows "\<exists>w'. follow now c [ev] w = (w', Ok ()) \<and> in_sync base (F(event_id ev \<mapsto> event_Directory ev)) (tracked w')"
proof -
  have none: "tracked w (event_id ev) = None" using in_syncD(2,4) [OF assms(2)] assms(3,5,8) by blast
  have "live_tree (F(event_id ev \<mapsto> event_Directory ev)) base = live_tree F base"
    using assms(3,5-7) by (rule live_tree_update)
  then have "in_sync base (F(event_id ev \<mapsto> event_Directory ev)) (tracked w)"
    using assms(2,3,5) none by (auto simp: in_sync_def)
  with follow_update [OF assms(1,4) none, of now] show ?thesis by simp
qed

lemma sync_deleted:
  assumes "quiet now' c" "in_sync base F (tracked w)" "live_child F i" "distinct (map event_id evs)"
    and all: "event_id ` set evs = subtree F i"
    and evs: "\<And>ev. ev \<in> set evs \<Longrightarrow> event_Type ev = EventTypeDelete \<and> IsDeleted (event_Directory ev)"
  shows "\<exists>w'. follow now c evs w = (w', Ok ()) \<and> in_sync base (mark_deleted (event_id ` set evs) t F) (tracked w')"
proof -
  note sync = in_syncD [OF assms(2)]
  obtain d where d: "F i = Some d" "DeletedAt d = None" using assms(3) by (auto simp: live_child_def)
  have live: "\<exists>e. F j = Some e \<and> DeletedAt e = None" if "j \<in> subtree F i" for j
    using that d by (auto simp: subtree_def descendants_def visible_def dest: descends_visible)
  have "tracked w (event_id ev) = None \<or> tracked w (event_id ev) = Some None" if "ev \<in> set evs" for ev
    using live [of "event_id ev"] all that sync(4) by blast
  with follow_deletes [OF assms(1,4) evs, where now = now] obtain w' where
    w': "follow now c evs w = (w', Ok ())" "marked (subtree F i) (tracked w) (tracked w')"
    unfolding all by blast
  let ?G = "mark_deleted (subtree F i) t F"
  have tree: "live_tree ?G base = live_tree F base - subtree F i"
    by (rule live_tree_delete [where F = F and i = i, OF d(1)])
  have "tracked w' j = Some None \<longleftrightarrow> j \<in> live_tree ?G base" for j
  proof (cases "j \<in> subtree F i")
    case True
    then have "tracked w' j \<noteq> Some None"
      using w'(2) [unfolded marked_def, rule_format, of j] by (auto split: if_splits)
    with True tree show ?thesis by simp
  next
    case False
    with marked_same [OF w'(2) False] sync(2) [of j] tree show ?thesis by simp
  qed
  moreover have "\<exists>e. ?G j = Some e \<and> DeletedAt e \<noteq> None" if "tracked w' j = Some (Some s)" for j s
  proof (cases "j \<in> subtree F i")
    case True
    with live [OF True] show ?thesis by (auto simp: mark_deleted_def)
  next
    case False
    with that marked_same [OF w'(2) False] assms(2) show ?thesis by (auto simp: in_sync_def mark_deleted_def)
  qed
  moreover have "base \<in> dom ?G" using sync(1) by (auto simp: mark_deleted_def)
  ultimately have "in_sync base ?G (tracked w')" unfolding in_sync_def by blast
  with w'(1) show ?thesis unfolding all by blast
qed

lemma sync_change:
  assumes "change inp op F evs G" "quiet now' c" "tree_ok F" "in_sync base F (tracked w)"
    and "op_replicable F base inp op"
  shows "\<exists>w'. follow now c evs w = (w', Ok ()) \<and> in_sync base G (tracked w')"
  using assms(1)
proof cases
  case unchanged
  with assms(4) show ?thesis by simp
next
  case (created d ev)
  then have "\<exists>e. F q = Some e \<and> DeletedAt e = None" if "Parent (event_Directory ev) = Some q" for q
    using that assms(5) by auto
  with sync_created [OF assms(2-4) created(5,6,7)] show ?thesis unfolding created(1,2) by blast
next
  case (updated ev n m d)
  with assms(5) have "event_id ev \<notin> live_tree F base" by simp
  with sync_updated [OF assms(2,4) updated(5,4,6,7,8)] show ?thesis unfolding updated(1,2) by blast
next
  case (deleted i)
  then have all: "event_id ` set evs = subtree F i" and t: "\<not> time_IsZero (in_time1 inp)" using assms(5) by auto
  have "event_Type ev = EventTypeDelete \<and> IsDeleted (event_Directory ev)" if "ev \<in> set evs" for ev
  proof -
    note deleted(8) [OF that]
    moreover from this have "DeletedAt (event_Directory ev) = Some (in_time1 inp)"
    proof -
      from calculation that obtain e where "event_Directory ev = e\<lparr>DeletedAt := Some (in_time1 inp)\<rparr>"
        by (auto simp: mark_deleted_def dest: sym)
      then show ?thesis by simp
    qed
    ultimately show ?thesis using t by (simp add: IsDeleted_def)
  qed
  with sync_deleted [OF assms(2,4) deleted(3,4) all] show ?thesis unfolding deleted(1) by blast
qed

fun runs_replicable :: "('db, 'bus) directory_admin \<Rightarrow> (('db, 'bus) world \<Rightarrow> forest) \<Rightarrow> directory_id
    \<Rightarrow> (inputs \<times> store_op) list \<Rightarrow> ('db, 'bus) world \<Rightarrow> bool" where
  "runs_replicable T view base [] w \<longleftrightarrow> True"
| "runs_replicable T view base ((inp, op) # ops) w \<longleftrightarrow>
     op_valid (view w) inp op \<and> op_replicable (view w) base inp op
     \<and> runs_replicable T view base ops (fst (perform T inp op w))"

context logged_store
begin

text \<open>The controller takes the events that a sequence of operations logs, and is in sync afterwards.\<close>

lemma replica_follows:
  assumes "quiet now' c"
  shows "inv w \<Longrightarrow> (\<And>inp op. (inp, op) \<in> set ops \<Longrightarrow> avail inp) \<Longrightarrow> runs_replicable S view base ops w \<Longrightarrow>
    in_sync base (view w) (tracked v) \<Longrightarrow>
    \<exists>evs v'. logged (fst (runs S ops w)) = logged w @ evs \<and> follow now'' c evs v = (v', Ok ())
      \<and> in_sync base (view (fst (runs S ops w))) (tracked v')"
proof (induction ops arbitrary: w v)
  case Nil
  then show ?case by (intro exI [of _ "[]"] exI [of _ v]) simp
next
  case (Cons io ops)
  obtain inp op where io: "io = (inp, op)" by (rule prod.exhaust)
  let ?w1 = "fst (perform S inp op w)"
  have ok: "avail inp" "op_valid (view w) inp op" "op_replicable (view w) base inp op"
    "runs_replicable S view base ops ?w1"
    using Cons.prems(2,3) io by auto
  obtain evs where one: "inv ?w1" "logged ?w1 = logged w @ evs" "change inp op (view w) evs (view ?w1)"
    using perform_logs [OF Cons.prems(1) ok(1,2)] by (auto simp: logs_def)
  from sync_change [OF one(3) assms inv_tree [OF Cons.prems(1)] Cons.prems(4) ok(3)] obtain v1 where
    v1: "follow now'' c evs v = (v1, Ok ())" "in_sync base (view ?w1) (tracked v1)" by blast
  from Cons.IH [OF one(1) _ ok(4) v1(2)] Cons.prems(2) obtain evs' v' where
    "logged (fst (runs S ops ?w1)) = logged ?w1 @ evs'" "follow now'' c evs' v1 = (v', Ok ())"
    "in_sync base (view (fst (runs S ops ?w1))) (tracked v')" by (metis list.set_intros(2))
  with one(2) v1(1) io show ?case
    by (intro exI [of _ "evs @ evs'"] exI [of _ v']) (simp add: case_prod_unfold Let_def follow_append)
qed

end

end
