(* ===== verification/Watcher_Properties.thy ===== *)
theory Watcher_Properties
  imports Nats_Watcher App_Properties
begin

text \<open>
  The properties of the NATS subscriber, and of the application controller that receives from it.
\<close>

definition fresh_watcher :: watcher where
  "fresh_watcher = \<lparr>goroutine = Subscribing, callback = Idle, ctx_done = False, conn_open = True,
     errs_open = True, events_open = True, arrived = [], queue = [], received = [], reported = [],
     panicked = False\<rparr>"

lemma fresh_watcher: "NewSubscriber (\<lambda>_. None) = Inr fresh_watcher"
  by (simp add: NewSubscriber_def fresh_watcher_def)


text \<open>A watcher that has subscribed, with an event that has arrived.\<close>

definition busy_watcher :: "directory_event \<Rightarrow> watcher" where
  "busy_watcher ev = fresh_watcher\<lparr>goroutine := Watching, arrived := [ev], queue := [], callback := Entered ev\<rparr>"

lemma busy_reachable: "watch_steps fresh_watcher (busy_watcher ev)"
proof -
  let ?s1 = "fresh_watcher\<lparr>goroutine := Watching\<rparr>"
  let ?s2 = "?s1\<lparr>arrived := [ev], queue := [ev]\<rparr>"
  have "watch_step fresh_watcher ?s1" by (rule watch_step.subscribed) (simp add: fresh_watcher_def)
  moreover have "watch_step ?s1 ?s2"
    using watch_step.message [of ?s1 ev] by (simp add: fresh_watcher_def)
  moreover have "watch_step ?s2 (busy_watcher ev)"
    using watch_step.enter [of ?s2 ev "[]"] by (simp add: fresh_watcher_def busy_watcher_def)
  ultimately show ?thesis by (meson converse_rtranclp_into_rtranclp rtranclp.rtrancl_refl)
qed









text \<open>C39: Cancelling is not safe for either side. A callback that was started before the channels were
  closed may send on the closed channel and panic; and the controller, whose \<open>select\<close> has three
  ready cases after the channels are closed, may take the nil event and crash instead of returning.\<close>

theorem cancelled_watcher_can_panic:
  assumes "controller_steps now c w0 ss w Running"
  shows "(\<exists>s. watch_steps fresh_watcher s \<and> panicked s)
    \<and> (\<exists>s sel. watch_steps fresh_watcher s \<and> \<not> panicked s \<and> ctx_done s \<and> recv_closed_event s = Some sel
        \<and> can_select c sel \<and> controller_steps now c w0 (ss @ [sel]) w Crashed)"
proof -
  fix ev
  let ?s1 = "(busy_watcher ev)\<lparr>ctx_done := True\<rparr>"
  let ?s2 = "?s1\<lparr>goroutine := ClosingErrs, conn_open := False\<rparr>"
  let ?s3 = "?s2\<lparr>goroutine := ClosingEvents, errs_open := False\<rparr>"
  let ?s4 = "?s3\<lparr>goroutine := Ended, events_open := False\<rparr>"
  have "watch_step (busy_watcher ev) ?s1"
    using watch_step.cancel [of "busy_watcher ev"] by (simp add: busy_watcher_def fresh_watcher_def)
  moreover have "watch_step ?s1 ?s2" by (rule watch_step.close_conn) (simp_all add: busy_watcher_def)
  moreover have "watch_step ?s2 ?s3" by (rule watch_step.close_errs) simp
  moreover have "watch_step ?s3 ?s4" by (rule watch_step.close_events) simp
  ultimately have closed: "watch_steps fresh_watcher ?s4"
    using busy_reachable [of ev] by (meson rtranclp.rtrancl_into_rtrancl)
  have "watch_step ?s4 (?s4\<lparr>panicked := True\<rparr>)"
    by (rule watch_step.send_closed [of _ ev]) (simp_all add: busy_watcher_def)
  with closed have "watch_steps fresh_watcher (?s4\<lparr>panicked := True\<rparr>)" by (rule rtranclp.rtrancl_into_rtrancl)
  moreover have "panicked (?s4\<lparr>panicked := True\<rparr>)" by simp
  moreover have "\<not> panicked ?s4" "ctx_done ?s4" "recv_closed_event ?s4 = Some (FromEvCh None)"
    by (simp_all add: busy_watcher_def fresh_watcher_def recv_closed_event_def)
  moreover have "controller_steps now c w0 (ss @ [FromEvCh None]) w Crashed"
    by (rule controller_steps.one_select [OF assms]) (simp_all add: can_select_def processIncomingEvent_def)
  moreover have "can_select c (FromEvCh None)" by (simp add: can_select_def)
  ultimately show ?thesis using closed by blast
qed

theorem cancelled_watcher_can_panic_witness:
  "\<exists>sel w. controller_steps (\<lambda>_. zero_time) (app_example\<lparr>ctl_client := None\<rparr>) app_world [sel] w Crashed"
proof -
  have "run_start (\<lambda>_. zero_time) (app_example\<lparr>ctl_client := None\<rparr>) 0 app_world = (app_world, Running)"
    by (simp add: run_start_def InitializeDirectories_def getRandomTickerDuration_def rand_Intn_def
        set_ticker_def minute_def)
  from cancelled_watcher_can_panic [OF controller_steps.begin_run [OF this]] show ?thesis by auto
qed

end
