(* ===== verification/Replica_Properties.thy ===== *)
theory Replica_Properties
  imports Replica Watcher_Properties
begin

text \<open>
  Properties that span the whole chain: a store behind the NATS notifier, the stream of events, the
  watcher of the client, and the controller with its table of tracked directories.
\<close>

section \<open>The log of events\<close>








section \<open>The replica\<close>




end
