(* ===== verification/Commands.thy ===== *)
theory Commands
  imports Http_Server Nats_Notifier Crdb_Driver
begin

text \<open>
  The commands of the program (src/cmd, src/notifier/nats/utils, src/storage/crdb/utils, and the
  migrations they run): what \<open>serve\<close> reads from the configuration, how it wires the driver, the
  notifier and the server together, and the order in which it acquires and releases resources.

  \<^item> \<open>viper\<close> is the configuration: the four getters the code calls.
  \<^item> \<open>serve_libs\<close> are the answers of the libraries: the database, the audit log, NATS, gin's check of
    the trusted proxies, ginjwt, \<open>net/http\<close>. An answer may depend on the \<open>process\<close> so far, whose
    \<open>trace\<close> records in order what the process acquired, started and released.
  \<^item> \<open>serve_step\<close> are the steps of \<open>serverRunE\<close> and of the goroutine it starts, \<open>serve_env\<close> what comes
    from outside: signals, and the end of the HTTP server. \<open>cmd.Context()\<close> is the background context, since \<open>Execute\<close> sets none.
  \<^item> \<open>logger.Fatal\<close> ends the process without running the deferred calls.
  The registration of flags and the logger are left out.
\<close>

section \<open>Configuration\<close>

record viper =
  GetString :: "string \<Rightarrow> string"
  GetBool :: "string \<Rightarrow> bool"
  GetDuration :: "string \<Rightarrow> go_int"
  GetStringSlice :: "string \<Rightarrow> string list"

definition EventSubject :: string where
  "EventSubject = ''directories''"

definition BuildNATSSubject :: "viper \<Rightarrow> string" where
  "BuildNATSSubject v = GetString v ''nats.subject_prefix'' @ ''.'' @ EventSubject"

text \<open>\<open>nats.Option\<close> as the code builds it; \<open>'k\<close> is the option that nats makes of an nkey.\<close>

datatype 'k nats_option = ConnName string | UserCredentials string | Nkey 'k

definition BuildNATSConnFromArgs :: "(string \<Rightarrow> go_error + 'k)
    \<Rightarrow> (string \<Rightarrow> 'k nats_option list \<Rightarrow> go_error + 'c) \<Rightarrow> viper \<Rightarrow> go_error + 'c" where
  "BuildNATSConnFromArgs nkeyOptionFromSeed connect v =
     (let opts = [ConnName ''fertilesoil'']
      in if GetString v ''nats.creds'' \<noteq> ''''
         then connect (GetString v ''nats.url'') (opts @ [UserCredentials (GetString v ''nats.creds'')])
         else if GetString v ''nats.nkey'' \<noteq> ''''
         then (case nkeyOptionFromSeed (GetString v ''nats.nkey'') of
                 Inl e \<Rightarrow> Inl (ErrWrap ''failed to load nkey'' e)
               | Inr opt \<Rightarrow> connect (GetString v ''nats.url'') (opts @ [Nkey opt]))
         else Inl (ErrText ''nats: nats-nkey or nats-creds must be provided''))"

record auth_config =
  Enabled :: bool
  Audience :: string
  Issuer :: string
  JWKSURI :: string
  JWKSRemoteTimeout :: go_int
  RoleValidationStrategy :: string
  RolesClaim :: string
  UsernameClaim :: string

definition buildAuthConfig :: "viper \<Rightarrow> auth_config" where
  "buildAuthConfig v =
     (let jwksuris = GetStringSlice v ''oidc.jwksuri'';
          jwksuri = (if length jwksuris \<noteq> 0 then jwksuris ! 0 else '''');
          issuers = GetStringSlice v ''oidc.issuer'';
          issuer = (if length issuers \<noteq> 0 then issuers ! 0 else '''')
      in \<lparr>Enabled = GetBool v ''oidc.enabled'', Audience = GetString v ''oidc.audience'',
          Issuer = issuer, JWKSURI = jwksuri,
          JWKSRemoteTimeout = GetDuration v ''oidc.jwksremotetimeout'',
          RoleValidationStrategy = GetString v ''oidc.rolevalidationstrategy'',
          RolesClaim = GetString v ''oidc.claims.roles'',
          UsernameClaim = GetString v ''oidc.claims.username''\<rparr>)"

section \<open>The stream\<close>

datatype stream_storage = FileStorage | MemoryStorage
datatype stream_retention = LimitsPolicy | InterestPolicy | WorkQueuePolicy
datatype stream_discard = DiscardOld | DiscardNew

record stream_settings =
  stream_Storage :: stream_storage
  stream_Retention :: stream_retention
  stream_Discard :: stream_discard

record ('bus, 'p, 'opt, 'info) jetstream =
  ctx_Publish :: "string \<Rightarrow> 'p \<Rightarrow> 'opt list \<Rightarrow> 'bus \<Rightarrow> 'bus \<times> go_error option"
  ctx_StreamInfo :: "string \<Rightarrow> 'bus \<Rightarrow> go_error + 'info"
  ctx_AddStream :: "stream_settings stream_config \<Rightarrow> 'bus \<Rightarrow> 'bus \<times> (go_error + 'info)"

text \<open>\<open>initNats\<close>; with \<open>Some e\<close> the process ends (\<open>logger.Fatal\<close>).\<close>

definition initNats :: "('bus, 'p, 'opt, 'info) jetstream \<Rightarrow> go_error \<Rightarrow> viper
    \<Rightarrow> ('bus, 'opt, 'p) nats_notifier \<Rightarrow> 'bus \<Rightarrow> 'bus \<times> go_error option" where
  "initNats js errStreamNotFound v notif b =
     (let streamName = GetString v ''nats.stream_name''
      in if streamName \<noteq> ''''
         then (let storage = (if GetString v ''nats.stream_storage'' = ''memory'' then MemoryStorage
                              else FileStorage)
               in case AddStream (ctx_StreamInfo js) (ctx_AddStream js) errStreamNotFound notif
                    \<lparr>stream_Name = streamName, stream_Subjects = [],
                     stream_rest = \<lparr>stream_Storage = storage, stream_Retention = LimitsPolicy,
                       stream_Discard = DiscardNew\<rparr>\<rparr> b of
                    (b, _, Inl e) \<Rightarrow> (b, Some e)
                  | (b, _, Inr info) \<Rightarrow> (b, None))
         else (b, None))"

section \<open>The process and the libraries\<close>

datatype ('fd, 'nc) effect =
    Signal_Notify
  | Opened_DB string
  | Opened_Log 'fd
  | Connected 'nc
  | Go_Run
  | Cancel
  | Http_Shutdown go_int
  | Closed_Conn 'nc
  | Closed_Log 'fd
  | Signal_Stop
  | Logger_Sync

record ('bus, 'fd, 'nc) process =
  proc_bus :: 'bus
  trace :: "('fd, 'nc) effect list"

definition note_effect :: "('fd, 'nc) effect \<Rightarrow> ('bus, 'fd, 'nc) process \<Rightarrow> ('bus, 'fd, 'nc) process" where
  "note_effect x p = p\<lparr>trace := trace p @ [x]\<rparr>"

text \<open>A \<open>sql.DB\<close> is the engine behind it and its \<open>PingContext\<close>.\<close>

type_synonym 'bus sql_db = "sql_engine \<times> (crdb_state, 'bus) check"

record ('bus, 'fd, 'nc, 'k, 'p, 'opt, 'info, 'm) serve_libs =
  crdbx_NewDB :: "viper \<Rightarrow> string \<Rightarrow> bool \<Rightarrow> ('bus, 'fd, 'nc) process \<Rightarrow> go_error + 'bus sql_db"
  OpenAuditLog :: "string \<Rightarrow> bool \<Rightarrow> ('bus, 'fd, 'nc) process \<Rightarrow> (go_error + 'fd) option"
  NewJSONMiddleware :: "string \<Rightarrow> 'fd \<Rightarrow> 'm"
  NkeyOptionFromSeed :: "string \<Rightarrow> go_error + 'k"
  nats_Connect :: "string \<Rightarrow> 'k nats_option list \<Rightarrow> go_error + 'nc"
  conn_JetStream :: "'nc \<Rightarrow> go_error + ('bus, 'p, 'opt, 'info) jetstream"
  ErrStreamNotFound :: go_error
  event_Encode :: "directory_event \<Rightarrow> go_error + 'p"
  clock :: "'bus \<Rightarrow> go_time"
  backoff_Retry :: "'bus wrapper"
  SetTrustedProxies :: "string list \<Rightarrow> go_error option"
  NewAuthMiddleware :: "auth_config \<Rightarrow> go_error + (http_request \<Rightarrow> http_response option)"
  uuid_parse :: "string \<Rightarrow> uuid option"
  srv_Shutdown :: "go_int \<Rightarrow> ('bus, 'fd, 'nc) process \<Rightarrow> go_error option"

definition GetDBConnection :: "('bus, 'fd, 'nc, 'k, 'p, 'opt, 'info, 'm) serve_libs \<Rightarrow> viper \<Rightarrow> string \<Rightarrow> bool
    \<Rightarrow> ('bus, 'fd, 'nc) process \<Rightarrow> go_error + 'bus sql_db" where
  "GetDBConnection L v dbName tracing p = crdbx_NewDB L v dbName tracing p"

section \<open>Deferred calls\<close>

datatype ('fd, 'nc) deferred = Defer_Sync | Defer_Stop_Cancel | Defer_Close_Log 'fd | Defer_Close_Conn 'nc

fun run_deferred :: "('fd, 'nc) deferred \<Rightarrow> ('bus, 'fd, 'nc) process \<Rightarrow> ('bus, 'fd, 'nc) process" where
  "run_deferred Defer_Sync p = note_effect Logger_Sync p"
| "run_deferred Defer_Stop_Cancel p = note_effect Cancel (note_effect Signal_Stop p)"
| "run_deferred (Defer_Close_Log fd) p = note_effect (Closed_Log fd) p"
| "run_deferred (Defer_Close_Conn nc) p = note_effect (Closed_Conn nc) p"

text \<open>The newest deferred call is the first of the list, and runs first.\<close>

definition run_defers :: "('fd, 'nc) deferred list \<Rightarrow> ('bus, 'fd, 'nc) process \<Rightarrow> ('bus, 'fd, 'nc) process" where
  "run_defers ds p = fold run_deferred ds p"

text \<open>How the process ends: \<open>serverRunE\<close> returns, \<open>logger.Fatal\<close>, or a signal kills it.\<close>

datatype exit = Finished "go_error option" | Fatal string go_error | Killed

text \<open>\<open>Execute\<close> of src/cmd/root.go and \<open>os.Exit\<close>: the exit status, none when a signal killed the process.\<close>

fun exit_status :: "exit \<Rightarrow> nat option" where
  "exit_status (Finished None) = Some 0"
| "exit_status (Finished (Some e)) = Some 1"
| "exit_status (Fatal msg e) = Some 1"
| "exit_status Killed = None"

section \<open>serve\<close>

text \<open>What \<open>serverRunE\<close> holds while it waits in its select: the deferred calls, the server, the handler
  of its routes.\<close>

record ('bus, 'fd, 'nc) frame =
  defers :: "('fd, 'nc) deferred list"
  frame_server :: "(crdb_state, 'bus, unit) common_server"
  frame_handler :: "(string \<times> (crdb_state, 'bus) check) list \<Rightarrow> (nat \<Rightarrow> inputs) \<Rightarrow> string \<Rightarrow> string list
    \<Rightarrow> http_request \<Rightarrow> (crdb_state, 'bus) world \<Rightarrow> (crdb_state, 'bus) http_run"

datatype ('bus, 'fd, 'nc) serve_main =
    OpeningLog "('fd, 'nc) deferred list" "'bus sql_db"
  | Selecting "('bus, 'fd, 'nc) frame"
  | ShuttingDown "('bus, 'fd, 'nc) frame"
  | Over exit

datatype runner = NotStarted | Running_server | Stopped go_error

record ('bus, 'fd, 'nc) serve_state =
  proc :: "('bus, 'fd, 'nc) process"
  main :: "('bus, 'fd, 'nc) serve_main"
  runner :: runner
  interrupted :: bool
  ctx_cancelled :: bool

definition leave :: "('fd, 'nc) deferred list \<Rightarrow> go_error option \<Rightarrow> ('bus, 'fd, 'nc) serve_state
    \<Rightarrow> ('bus, 'fd, 'nc) serve_state" where
  "leave ds e s = s\<lparr>proc := run_defers ds (proc s), main := Over (Finished e), ctx_cancelled := True\<rparr>"

definition serve_state_of :: "('bus, 'fd, 'nc) process \<Rightarrow> ('bus, 'fd, 'nc) serve_main \<Rightarrow> ('bus, 'fd, 'nc) serve_state" where
  "serve_state_of p m = \<lparr>proc = p, main = m, runner = NotStarted, interrupted = False, ctx_cancelled = False\<rparr>"

text \<open>\<open>serverRunE\<close> up to the opening of the audit log.\<close>

definition serve_begin :: "('bus, 'fd, 'nc, 'k, 'p, 'opt, 'info, 'm) serve_libs \<Rightarrow> viper
    \<Rightarrow> ('bus, 'fd, 'nc) process \<Rightarrow> ('bus, 'fd, 'nc) serve_state" where
  "serve_begin L v p =
     (let ds = [Defer_Stop_Cancel, Defer_Sync];
          p = note_effect Signal_Notify p
      in case GetDBConnection L v ''directory'' False p of
           Inl dberr \<Rightarrow> (serve_state_of (run_defers ds p) (Over (Finished (Some dberr))))\<lparr>ctx_cancelled := True\<rparr>
         | Inr d \<Rightarrow> serve_state_of (note_effect (Opened_DB ''directory'') p) (OpeningLog ds d))"

text \<open>The handler that \<open>NewServer\<close> sets: the engine behind the authentication, or \<open>logger.Fatal\<close>.\<close>

definition newServer_handler :: "('bus, 'fd, 'nc, 'k, 'p, 'opt, 'info, 'm) serve_libs
    \<Rightarrow> (crdb_state, 'bus, unit, 'm, auth_config) tm_option list \<Rightarrow> (crdb_state, 'bus, unit) common_server
    \<Rightarrow> exit + ((string \<times> (crdb_state, 'bus) check) list \<Rightarrow> (nat \<Rightarrow> inputs) \<Rightarrow> string \<Rightarrow> string list
         \<Rightarrow> http_request \<Rightarrow> (crdb_state, 'bus) world \<Rightarrow> (crdb_state, 'bus) http_run)" where
  "newServer_handler L opts s =
     (case SetTrustedProxies L (trustedProxies s) of
        Some e \<Rightarrow> Inl (Fatal ''failed to initialize route engine'' e)
      | None \<Rightarrow>
          (let authConfig = (case cfg_authConfig (apply_options opts default_config) of
               None \<Rightarrow> \<lparr>Enabled = False, Audience = '''', Issuer = '''', JWKSURI = '''', JWKSRemoteTimeout = 0,
                         RoleValidationStrategy = '''', RolesClaim = '''', UsernameClaim = ''''\<rparr>
             | Some c \<Rightarrow> c)
           in case NewAuthMiddleware L authConfig of
                Inl e \<Rightarrow> Inl (Fatal ''failed to initialize auth middleware'' e)
              | Inr auth \<Rightarrow> Inr (the (engine s (SetTrustedProxies L) (uuid_parse L) auth))))"

text \<open>\<open>serverRunE\<close> from the opened log to its select.\<close>

definition serve_options :: "viper \<Rightarrow> 'bus notifier \<Rightarrow> (crdb_state, 'bus) directory_admin \<Rightarrow> 'm
    \<Rightarrow> (crdb_state, 'bus, unit, 'm, auth_config) tm_option list" where
  "serve_options v notif store mdw =
     [WithListen (GetString v ''server.listen''), WithUnix (GetString v ''server.unix_socket''),
      WithDebug (GetBool v ''debug''), WithShutdownTimeout (GetDuration v ''server.shutdown''),
      WithTrustedProxies (GetStringSlice v ''server.trusted-proxies''), WithNotifier (Some notif),
      WithStorageDriver (Some store), WithAuditMiddleware (Some mdw), WithAuthConfig (Some (buildAuthConfig v))]"

definition serve_wire :: "('bus, 'fd, 'nc, 'k, 'p, 'opt, 'info, 'm) serve_libs \<Rightarrow> viper
    \<Rightarrow> ('fd, 'nc) deferred list \<Rightarrow> 'bus sql_db \<Rightarrow> 'm \<Rightarrow> ('bus, 'p, 'opt, 'info) jetstream
    \<Rightarrow> ('bus, 'fd, 'nc) serve_state \<Rightarrow> ('bus, 'fd, 'nc) serve_state" where
  "serve_wire L v ds d mdw natjs s =
     (let notif = nats_NewNotifier (ctx_Publish natjs) (BuildNATSSubject v) []
      in case initNats natjs (ErrStreamNotFound L) v notif (proc_bus (proc s)) of
           (b, Some e) \<Rightarrow> s\<lparr>proc := (proc s)\<lparr>proc_bus := b\<rparr>,
                           main := Over (Fatal ''failed to check or create stream'' e)\<rparr>
         | (b, None) \<Rightarrow>
             (let store = crdb_NewDirectoryDriver (fst d) (WithStorageOptions (GetBool v));
                  opts = serve_options v (nats_methods (event_Encode L) (clock L) notif) (crdb_admin store) mdw;
                  srv = NewServer (backoff_Retry L) (Some (snd d)) opts;
                  p = (proc s)\<lparr>proc_bus := b\<rparr>
              in case newServer_handler L opts srv of
                   Inl x \<Rightarrow> s\<lparr>proc := p, main := Over x\<rparr>
                 | Inr h \<Rightarrow> s\<lparr>proc := note_effect Go_Run p, runner := Running_server,
                              main := Selecting \<lparr>defers = ds, frame_server = srv, frame_handler = h\<rparr>\<rparr>))"

definition serve_opened :: "('bus, 'fd, 'nc, 'k, 'p, 'opt, 'info, 'm) serve_libs \<Rightarrow> viper
    \<Rightarrow> ('fd, 'nc) deferred list \<Rightarrow> 'bus sql_db \<Rightarrow> go_error + 'fd \<Rightarrow> ('bus, 'fd, 'nc) serve_state
    \<Rightarrow> ('bus, 'fd, 'nc) serve_state" where
  "serve_opened L v ds d r s =
     (case r of
        Inl err \<Rightarrow> leave ds (Some (ErrWrap ''failed to open audit log file'' err)) s
      | Inr fd \<Rightarrow>
          (let s = s\<lparr>proc := note_effect (Opened_Log fd) (proc s)\<rparr>;
               ds = Defer_Close_Log fd # ds;
               mdw = NewJSONMiddleware L ''tree-manager'' fd
           in case BuildNATSConnFromArgs (NkeyOptionFromSeed L) (nats_Connect L) v of
                Inl natserr \<Rightarrow> leave ds (Some natserr) s
              | Inr natconn \<Rightarrow>
                  (let s = s\<lparr>proc := note_effect (Connected natconn) (proc s)\<rparr>;
                       ds = Defer_Close_Conn natconn # ds
                   in case conn_JetStream L natconn of
                        Inl err \<Rightarrow> leave ds (Some err) s
                      | Inr natjs \<Rightarrow> serve_wire L v ds d mdw natjs s)))"

section \<open>The steps\<close>

text \<open>
  The audit log is retried until it opens or the context ends, so \<open>OpenAuditLog\<close> may have no answer
  yet. The channel of the signals holds one; \<open>signal.Notify\<close> names \<open>os.Interrupt\<close> alone, so any
  other signal (\<open>SIGTERM\<close>) has its default effect.
\<close>

inductive serve_step :: "('bus, 'fd, 'nc, 'k, 'p, 'opt, 'info, 'm) serve_libs \<Rightarrow> viper
    \<Rightarrow> ('bus, 'fd, 'nc) serve_state \<Rightarrow> ('bus, 'fd, 'nc) serve_state \<Rightarrow> bool" for L v s where
  opened: "main s = OpeningLog ds d
    \<Longrightarrow> OpenAuditLog L (GetString v ''audit.log.path'') (ctx_cancelled s) (proc s) = Some r
    \<Longrightarrow> serve_step L v s (serve_opened L v ds d r s)"
| interrupt: "main s = Selecting f \<Longrightarrow> interrupted s
    \<Longrightarrow> serve_step L v s (s\<lparr>interrupted := False, ctx_cancelled := True,
          proc := note_effect Cancel (proc s), main := ShuttingDown f\<rparr>)"
| ctx_done: "main s = Selecting f \<Longrightarrow> ctx_cancelled s \<Longrightarrow> serve_step L v s (s\<lparr>main := ShuttingDown f\<rparr>)"
| shutdown: "main s = ShuttingDown f
    \<Longrightarrow> p = note_effect (Http_Shutdown (shutdownTime (frame_server f))) (proc s)
    \<Longrightarrow> server_Shutdown (srv_Shutdown L) (frame_server f) p = None
    \<Longrightarrow> serve_step L v s (leave (defers f) None (s\<lparr>proc := p\<rparr>))"
| shutdown_fails: "main s = ShuttingDown f
    \<Longrightarrow> p = note_effect (Http_Shutdown (shutdownTime (frame_server f))) (proc s)
    \<Longrightarrow> server_Shutdown (srv_Shutdown L) (frame_server f) p = Some e
    \<Longrightarrow> serve_step L v s (s\<lparr>proc := p, main := Over (Fatal ''server forced to shutdown'' e)\<rparr>)"

inductive serve_env :: "('bus, 'fd, 'nc) serve_state \<Rightarrow> ('bus, 'fd, 'nc) serve_state \<Rightarrow> bool" for s where
  sigint: "(\<And>x. main s \<noteq> Over x) \<Longrightarrow> serve_env s (s\<lparr>interrupted := True\<rparr>)"
| sigterm: "(\<And>x. main s \<noteq> Over x) \<Longrightarrow> serve_env s (s\<lparr>main := Over Killed\<rparr>)"
| run_ends: "(\<And>x. main s \<noteq> Over x) \<Longrightarrow> runner s = Running_server \<Longrightarrow> serve_env s (s\<lparr>runner := Stopped e\<rparr>)"

inductive_cases serve_stepE: "serve_step L v s s'"
inductive_cases serve_envE: "serve_env s s'"

inductive serve_reachable :: "('bus, 'fd, 'nc, 'k, 'p, 'opt, 'info, 'm) serve_libs \<Rightarrow> viper
    \<Rightarrow> ('bus, 'fd, 'nc) process \<Rightarrow> ('bus, 'fd, 'nc) serve_state \<Rightarrow> bool" for L v p0 where
  begins: "serve_reachable L v p0 (serve_begin L v p0)"
| steps: "serve_reachable L v p0 s \<Longrightarrow> serve_step L v s s' \<Longrightarrow> serve_reachable L v p0 s'"
| happens: "serve_reachable L v p0 s \<Longrightarrow> serve_env s s' \<Longrightarrow> serve_reachable L v p0 s'"

section \<open>migrate\<close>

text \<open>
  goose keeps the dialect and the file system of the migrations in global variables, the record
  \<open>goose\<close>; \<open>goose_Up\<close> applies the pending migrations of a directory to a database.
\<close>

record 'fs goose =
  goose_dialect :: "string option"
  goose_baseFS :: "'fs option"

record ('fs, 'd) goose_libs =
  goose_knows :: "string \<Rightarrow> go_error option"
  goose_Up :: "'fs goose \<Rightarrow> 'd \<Rightarrow> string \<Rightarrow> 'd \<times> go_error option"

definition SetDialect :: "('fs, 'd) goose_libs \<Rightarrow> string \<Rightarrow> 'fs goose \<Rightarrow> 'fs goose \<times> go_error option" where
  "SetDialect G dialect g =
     (case goose_knows G dialect of Some e \<Rightarrow> (g, Some e) | None \<Rightarrow> (g\<lparr>goose_dialect := Some dialect\<rparr>, None))"

definition SetBaseFS :: "'fs \<Rightarrow> 'fs goose \<Rightarrow> 'fs goose" where
  "SetBaseFS fs g = g\<lparr>goose_baseFS := Some fs\<rparr>"

definition BootStrap :: "('fs, 'd) goose_libs \<Rightarrow> 'fs \<Rightarrow> string \<Rightarrow> 'd \<Rightarrow> 'fs goose \<Rightarrow> 'fs goose \<times> 'd \<times> go_error option" where
  "BootStrap G app_Migrations dialect d g =
     (case SetDialect G dialect (SetBaseFS app_Migrations g) of
        (g, Some err) \<Rightarrow> (g, d, Some err)
      | (g, None) \<Rightarrow> (g, goose_Up G g d ''.''))"

definition Migrate :: "('fs, 'd) goose_libs \<Rightarrow> 'fs \<Rightarrow> 'fs \<Rightarrow> 'd \<Rightarrow> 'fs goose \<Rightarrow> 'fs goose \<times> 'd \<times> go_error option" where
  "Migrate G app_Migrations migrations d g =
     (case SetDialect G ''postgres'' g of
        (g, Some err) \<Rightarrow> (g, d, Some (ErrWrap ''failed to set dialect'' err))
      | (g, None) \<Rightarrow>
          (case BootStrap G app_Migrations ''postgres'' d g of
             (g, d, Some err) \<Rightarrow> (g, d, Some (ErrWrap ''failed to bootstrap app migrations'' err))
           | (g, d, None) \<Rightarrow> (let g = SetBaseFS migrations g in (g, goose_Up G g d ''.''))))"

definition migrate :: "('fs, 'd) goose_libs \<Rightarrow> 'fs \<Rightarrow> 'fs \<Rightarrow> go_error + 'd \<Rightarrow> 'fs goose
    \<Rightarrow> 'fs goose \<times> 'd option \<times> go_error option" where
  "migrate G app_Migrations migrations dbconn g =
     (case dbconn of
        Inl err \<Rightarrow> (g, None, Some (ErrWrap ''failed to get db connection'' err))
      | Inr d \<Rightarrow> (case Migrate G app_Migrations migrations d g of (g, d, r) \<Rightarrow> (g, Some d, r)))"

end
