(* ===== verification/Configuration.thy ===== *)
theory Configuration
  imports Commands
begin

text \<open>
  Where the configuration of the commands comes from (the \<open>init\<close> functions of src/cmd,
  \<open>RegisterNATSArgs\<close>, \<open>RegisterDBArgs\<close>, \<open>initConfig\<close>): the flags of each command, the keys of viper
  that are bound to them, the names of the environment variables.

  \<^item> \<open>registry\<close> is what registration builds: the flags of each command with their defaults, in order, and
    the flag that each key is bound to. pflag panics when a name is registered twice, viperx when
    the flag to bind is nil; a key that is bound again loses its earlier flag.
  \<^item> crdbx, ginx, ginjwt and loggingx register flags of their own: \<open>flag_libs\<close> lists them, each with the
    key it is bound to and its default.
  \<^item> \<open>reads_configuration\<close> is what viper documents about a \<open>viper\<close> that has such a registry: a flag that the
    command line sets comes first, then a non-empty environment variable, then the default of the flag.
    How viper converts the text of a variable to a number, a truth value or a list is left open.
\<close>

section \<open>Registration\<close>

datatype flag_value = StringFlag string | BoolFlag bool | DurationFlag go_int | StringSliceFlag "string list"

datatype command = MigrateCmd | ServeCmd

record registry =
  flagset :: "command \<Rightarrow> (string \<times> flag_value) list"
  pflags :: "string \<Rightarrow> (command \<times> string) option"

definition no_flags :: registry where
  "no_flags = \<lparr>flagset = (\<lambda>c. []), pflags = (\<lambda>key. None)\<rparr>"

definition Flag :: "command \<Rightarrow> string \<Rightarrow> flag_value \<Rightarrow> registry \<Rightarrow> registry outcome" where
  "Flag c name d r =
     (if name \<in> fst ` set (flagset r c) then Panic
      else Ok (r\<lparr>flagset := (flagset r)(c := flagset r c @ [(name, d)])\<rparr>))"

text \<open>\<open>viperx.MustBindFlag(v, key, flags.Lookup(name))\<close>\<close>

definition MustBindFlag :: "string \<Rightarrow> command \<Rightarrow> string \<Rightarrow> registry \<Rightarrow> registry outcome" where
  "MustBindFlag key c name r =
     (case map_of (flagset r c) name of
        None \<Rightarrow> Panic
      | Some d \<Rightarrow> Ok (r\<lparr>pflags := (pflags r)(key \<mapsto> (c, name))\<rparr>))"

text \<open>Statements one after the other.\<close>

fun in_order :: "(registry \<Rightarrow> registry outcome) list \<Rightarrow> registry \<Rightarrow> registry outcome" where
  "in_order [] r = Ok r"
| "in_order (f # fs) r = and_then (f r) (in_order fs)"

text \<open>The flags of a library: key, name, default.\<close>

type_synonym flag_table = "(string \<times> string \<times> flag_value) list"

record flag_libs =
  crdbx_flags :: flag_table
  ginx_flags :: "string \<Rightarrow> flag_table"
  ginjwt_flags :: flag_table
  loggingx_flags :: flag_table

definition MustViperFlags :: "flag_table \<Rightarrow> command \<Rightarrow> registry \<Rightarrow> registry outcome" where
  "MustViperFlags table c = in_order (concat (map (\<lambda>(key, name, d). [Flag c name d, MustBindFlag key c name]) table))"

definition RegisterNATSArgs :: "command \<Rightarrow> registry \<Rightarrow> registry outcome" where
  "RegisterNATSArgs c = in_order
     [Flag c ''nats-url'' (StringFlag ''''),
      MustBindFlag ''nats.url'' c ''nats-url'',
      Flag c ''nats-subject-prefix'' (StringFlag ''infratographer.events''),
      MustBindFlag ''nats.subject_prefix'' c ''nats-subject-prefix'',
      Flag c ''nats-stream-name'' (StringFlag ''fertilesoil''),
      MustBindFlag ''nats.stream_name'' c ''nats-stream-name'',
      Flag c ''nats-stream-storage'' (StringFlag ''file''),
      MustBindFlag ''nats.stream_storage'' c ''nats-stream-storage'',
      Flag c ''nats-nkey'' (StringFlag ''''),
      MustBindFlag ''nats.nkey'' c ''nats-nkey'',
      Flag c ''nats-creds'' (StringFlag ''''),
      MustBindFlag ''nats.creds'' c ''nats-creds'']"

definition RegisterDBArgs :: "flag_libs \<Rightarrow> command \<Rightarrow> registry \<Rightarrow> registry outcome" where
  "RegisterDBArgs L c = in_order
     [MustViperFlags (crdbx_flags L) c,
      Flag c ''read-only'' (BoolFlag False),
      MustBindFlag ''storage.read_only'' c ''read-only'',
      Flag c ''fast-reads'' (BoolFlag False),
      MustBindFlag ''storage.fast_reads'' c ''fast-reads'']"

definition migrate_init :: "flag_libs \<Rightarrow> registry \<Rightarrow> registry outcome" where
  "migrate_init L = MustViperFlags (crdbx_flags L) MigrateCmd"

definition serve_init :: "flag_libs \<Rightarrow> registry \<Rightarrow> registry outcome" where
  "serve_init L = in_order
     [RegisterDBArgs L ServeCmd,
      MustViperFlags (ginx_flags L DefaultTreeManagerListen) ServeCmd,
      MustViperFlags (ginjwt_flags L) ServeCmd,
      MustViperFlags (loggingx_flags L) ServeCmd,
      RegisterNATSArgs ServeCmd,
      Flag ServeCmd ''server-shutdown-timeout'' (DurationFlag DefaultTreeManagerShutdownTimeout),
      MustBindFlag ''server.shutdown'' ServeCmd ''server-shutdown-timeout'',
      Flag ServeCmd ''server-unix-socket'' (StringFlag DefaultTreeManagerUnix),
      MustBindFlag ''server.unix_socket'' ServeCmd ''server-unix-socket'',
      Flag ServeCmd ''trusted-proxies'' (StringSliceFlag []),
      MustBindFlag ''server.trusted-proxies'' ServeCmd ''trusted-proxies'',
      Flag ServeCmd ''audit-log-path'' (StringFlag ''/app-audit/audit.log''),
      MustBindFlag ''audit.log.path'' ServeCmd ''audit-log-path'']"

text \<open>The \<open>init\<close> functions of a package run in the order of the names of its files: migrate.go, then serve.go.\<close>

definition cmd_init :: "flag_libs \<Rightarrow> registry outcome" where
  "cmd_init L = in_order [migrate_init L, serve_init L] no_flags"

section \<open>The environment\<close>

record env_settings =
  env_replacer :: "(char \<times> char) list"
  env_prefix :: string
  automatic_env :: bool

definition initConfig :: env_settings where
  "initConfig = \<lparr>env_replacer = [(CHR ''.'', CHR ''_''), (CHR ''-'', CHR ''_'')],
     env_prefix = ''fertilesoil'', automatic_env = True\<rparr>"

definition ascii_upper :: "char \<Rightarrow> char" where
  "ascii_upper c = (if 97 \<le> (of_char c :: nat) \<and> (of_char c :: nat) \<le> 122 then char_of ((of_char c :: nat) - 32) else c)"

definition env_name :: "env_settings \<Rightarrow> string \<Rightarrow> string" where
  "env_name e key =
     map (\<lambda>c. case map_of (env_replacer e) c of None \<Rightarrow> c | Some c' \<Rightarrow> c')
       (map ascii_upper (env_prefix e @ ''_'' @ key))"

section \<open>What viper reads\<close>

text \<open>The command that runs, and the flags that its command line sets.\<close>

record invocation =
  invoked :: command
  given :: "string \<Rightarrow> flag_value option"

definition viper_holds :: "viper \<Rightarrow> string \<Rightarrow> flag_value \<Rightarrow> bool" where
  "viper_holds v key x =
     (case x of
        StringFlag s \<Rightarrow> GetString v key = s
      | BoolFlag b \<Rightarrow> GetBool v key = b
      | DurationFlag t \<Rightarrow> GetDuration v key = t
      | StringSliceFlag xs \<Rightarrow> GetStringSlice v key = xs)"

definition set_by_env :: "env_settings \<Rightarrow> (string \<Rightarrow> string option) \<Rightarrow> string \<Rightarrow> string option" where
  "set_by_env e env key =
     (if automatic_env e then (case env (env_name e key) of
        Some s \<Rightarrow> if s \<noteq> '''' then Some s else None
      | None \<Rightarrow> None) else None)"

definition reads_key :: "invocation \<Rightarrow> string option \<Rightarrow> command \<times> string \<Rightarrow> flag_value \<Rightarrow> viper \<Rightarrow> string \<Rightarrow> bool" where
  "reads_key call text flag d v key \<longleftrightarrow>
     (case (if fst flag = invoked call then given call (snd flag) else None) of
        Some x \<Rightarrow> viper_holds v key x
      | None \<Rightarrow>
          (case text of
             None \<Rightarrow> viper_holds v key d
           | Some s \<Rightarrow> (case d of StringFlag _ \<Rightarrow> GetString v key = s | _ \<Rightarrow> True)))"

definition reads_configuration :: "registry \<Rightarrow> env_settings \<Rightarrow> invocation \<Rightarrow> (string \<Rightarrow> string option) \<Rightarrow> viper \<Rightarrow> bool" where
  "reads_configuration r e call env v \<longleftrightarrow>
     (\<forall>key flag d. pflags r key = Some flag \<longrightarrow> map_of (flagset r (fst flag)) (snd flag) = Some d
        \<longrightarrow> reads_key call (set_by_env e env key) flag d v key)"

section \<open>The logger\<close>

record logger_config =
  logger_Debug :: bool
  logger_Pretty :: bool

definition initLogger :: "viper \<Rightarrow> string \<times> logger_config" where
  "initLogger v = (''treemanager'', \<lparr>logger_Debug = GetBool v ''debug'', logger_Pretty = GetBool v ''pretty''\<rparr>)"

section \<open>What registration builds\<close>

text \<open>Each flag is bound as soon as it is registered, so a registration is a table again.\<close>

definition nats_flags :: flag_table where
  "nats_flags =
     [(''nats.url'', ''nats-url'', StringFlag ''''),
      (''nats.subject_prefix'', ''nats-subject-prefix'', StringFlag ''infratographer.events''),
      (''nats.stream_name'', ''nats-stream-name'', StringFlag ''fertilesoil''),
      (''nats.stream_storage'', ''nats-stream-storage'', StringFlag ''file''),
      (''nats.nkey'', ''nats-nkey'', StringFlag ''''),
      (''nats.creds'', ''nats-creds'', StringFlag '''')]"

definition storage_flags :: flag_table where
  "storage_flags =
     [(''storage.read_only'', ''read-only'', BoolFlag False), (''storage.fast_reads'', ''fast-reads'', BoolFlag False)]"

definition server_flags :: flag_table where
  "server_flags =
     [(''server.shutdown'', ''server-shutdown-timeout'', DurationFlag (seconds 5)),
      (''server.unix_socket'', ''server-unix-socket'', StringFlag ''''),
      (''server.trusted-proxies'', ''trusted-proxies'', StringSliceFlag []),
      (''audit.log.path'', ''audit-log-path'', StringFlag ''/app-audit/audit.log'')]"

definition serve_flags :: "flag_libs \<Rightarrow> flag_table" where
  "serve_flags L = crdbx_flags L @ storage_flags @ ginx_flags L '':8080'' @ ginjwt_flags L @ loggingx_flags L
     @ nats_flags @ server_flags"

lemma in_order_append: "in_order (fs @ gs) r = and_then (in_order fs r) (in_order gs)"
proof (induction fs arbitrary: r)
  case (Cons f fs)
  then show ?case by (cases "f r") simp_all
qed simp

lemma MustViperFlags_Nil [simp]: "MustViperFlags [] c r = Ok r"
  by (simp add: MustViperFlags_def)

lemma MustViperFlags_Cons:
  "MustViperFlags ((key, name, d) # table) c r
    = and_then (Flag c name d r) (\<lambda>r. and_then (MustBindFlag key c name r) (MustViperFlags table c))"
  by (cases "Flag c name d r") (simp_all add: MustViperFlags_def)

lemma MustViperFlags_append:
  "MustViperFlags (table @ table') c r = and_then (MustViperFlags table c r) (MustViperFlags table' c)"
  by (simp add: MustViperFlags_def in_order_append)

lemma and_then_assoc: "and_then (and_then r f) g = and_then r (\<lambda>x. and_then (f x) g)"
  by (cases r) simp_all

lemma in_order_fun: "in_order (f # fs) = (\<lambda>r. and_then (f r) (in_order fs))"
  by (rule ext) simp

lemma MustViperFlags_append_fun:
  "MustViperFlags (table @ table') c = (\<lambda>r. and_then (MustViperFlags table c r) (MustViperFlags table' c))"
  by (rule ext) (rule MustViperFlags_append)

lemma RegisterNATSArgs_table: "RegisterNATSArgs c = MustViperFlags nats_flags c"
  by (simp add: RegisterNATSArgs_def MustViperFlags_def nats_flags_def)

lemma RegisterDBArgs_table: "RegisterDBArgs L c r = MustViperFlags (crdbx_flags L @ storage_flags) c r"
proof -
  have "MustViperFlags storage_flags c = in_order
     [Flag c ''read-only'' (BoolFlag False), MustBindFlag ''storage.read_only'' c ''read-only'',
      Flag c ''fast-reads'' (BoolFlag False), MustBindFlag ''storage.fast_reads'' c ''fast-reads'']"
    by (simp add: MustViperFlags_def storage_flags_def)
  then show ?thesis
    by (simp only: RegisterDBArgs_def MustViperFlags_append in_order.simps(2) [of "MustViperFlags _ _"])
qed

lemma serve_init_table: "serve_init L r = MustViperFlags (serve_flags L) ServeCmd r"
proof -
  have "MustViperFlags server_flags ServeCmd = in_order
     [Flag ServeCmd ''server-shutdown-timeout'' (DurationFlag DefaultTreeManagerShutdownTimeout),
      MustBindFlag ''server.shutdown'' ServeCmd ''server-shutdown-timeout'',
      Flag ServeCmd ''server-unix-socket'' (StringFlag DefaultTreeManagerUnix),
      MustBindFlag ''server.unix_socket'' ServeCmd ''server-unix-socket'',
      Flag ServeCmd ''trusted-proxies'' (StringSliceFlag []),
      MustBindFlag ''server.trusted-proxies'' ServeCmd ''trusted-proxies'',
      Flag ServeCmd ''audit-log-path'' (StringFlag ''/app-audit/audit.log''),
      MustBindFlag ''audit.log.path'' ServeCmd ''audit-log-path'']"
    by (simp add: MustViperFlags_def server_flags_def DefaultTreeManagerShutdownTimeout_def DefaultTreeManagerUnix_def)
  then show ?thesis
    by (simp only: serve_init_def serve_flags_def RegisterDBArgs_table RegisterNATSArgs_table DefaultTreeManagerListen_def
        MustViperFlags_append_fun and_then_assoc in_order_fun [of "RegisterDBArgs _ _"]
        in_order_fun [of "MustViperFlags _ _"] append_assoc)
qed

definition bindings :: "flag_table \<Rightarrow> command \<Rightarrow> string \<Rightarrow> (command \<times> string) option" where
  "bindings table c = map_of (map (\<lambda>(key, name, d). (key, (c, name))) table)"

lemma bindings_in: "distinct (map fst table) \<Longrightarrow> (key, name, d) \<in> set table \<Longrightarrow> bindings table c key = Some (c, name)"
  by (force simp: bindings_def comp_def case_prod_unfold intro!: map_of_is_SomeI)

text \<open>A library names each of its flags and keys once, and does not use those of the others.\<close>

definition flags_ok :: "flag_table \<Rightarrow> bool" where
  "flags_ok table \<longleftrightarrow> distinct (map fst table) \<and> distinct (map (fst \<circ> snd) table)"

lemma Flag_new: "name \<notin> fst ` set (flagset r c) \<Longrightarrow>
    Flag c name d r = Ok (r\<lparr>flagset := (flagset r)(c := flagset r c @ [(name, d)])\<rparr>)"
  by (simp add: Flag_def)

lemma MustBindFlag_known: "name \<in> fst ` set (flagset r c) \<Longrightarrow>
    MustBindFlag key c name r = Ok (r\<lparr>pflags := (pflags r)(key \<mapsto> (c, name))\<rparr>)"
  by (auto simp: MustBindFlag_def split: option.split dest: weak_map_of_SomeI)

lemma MustViperFlags_Ok:
  assumes "flags_ok table" "fst ` set (flagset r c) \<inter> (fst \<circ> snd) ` set table = {}"
  shows "MustViperFlags table c r = Ok (r\<lparr>flagset := (flagset r)(c := flagset r c @ map snd table),
    pflags := pflags r ++ bindings table c\<rparr>)"
  using assms
proof (induction table arbitrary: r)
  case Nil
  then show ?case by (simp add: bindings_def)
next
  case (Cons e table)
  obtain key name d where e: "e = (key, name, d)" by (cases e)
  let ?r = "r\<lparr>flagset := (flagset r)(c := flagset r c @ [(name, d)]), pflags := (pflags r)(key \<mapsto> (c, name))\<rparr>"
  have step: "MustViperFlags (e # table) c r = MustViperFlags table c ?r"
    using Cons.prems by (simp add: e MustViperFlags_Cons Flag_new MustBindFlag_known)
  have ok: "flags_ok table" "key \<notin> fst ` set table" "name \<notin> (fst \<circ> snd) ` set table"
    using Cons.prems(1) by (auto simp: e flags_ok_def comp_def)
  have "dom (bindings table c) = fst ` set table"
    by (force simp: bindings_def dom_map_of_conv_image_fst image_image case_prod_unfold)
  then have "bindings (e # table) c = (\<lambda>k. if k = key then Some (c, name) else bindings table c k)" "bindings table c key = None"
    using ok(2) by (auto simp: bindings_def e fun_eq_iff)
  then have pflags: "(pflags r)(key \<mapsto> (c, name)) ++ bindings table c = pflags r ++ bindings (e # table) c"
    by (auto simp: fun_eq_iff map_add_def split: option.split)
  have "MustViperFlags table c ?r = Ok (?r\<lparr>flagset := (flagset ?r)(c := flagset ?r c @ map snd table),
      pflags := pflags ?r ++ bindings table c\<rparr>)"
    using Cons.prems(2) ok by (intro Cons.IH) (auto simp: e)
  then show ?case unfolding step by (simp add: pflags e) (simp add: fun_upd_def)
qed

lemma cmd_init_Ok:
  assumes "flags_ok (serve_flags L)"
  shows "cmd_init L = Ok \<lparr>
      flagset = (\<lambda>c. case c of MigrateCmd \<Rightarrow> map snd (crdbx_flags L) | ServeCmd \<Rightarrow> map snd (serve_flags L)),
      pflags = bindings (crdbx_flags L) MigrateCmd ++ bindings (serve_flags L) ServeCmd\<rparr>"
proof -
  have "flags_ok (crdbx_flags L)" using assms by (auto simp: flags_ok_def serve_flags_def)
  then show ?thesis
    using assms by (auto simp: cmd_init_def migrate_init_def serve_init_table MustViperFlags_Ok no_flags_def
        fun_eq_iff split: command.split)
qed

text \<open>Each key of \<open>serve\<close> is bound to a flag of \<open>serve\<close>; \<open>migrate\<close> has flags, and no key is bound to them.\<close>

lemma cmd_init_binds:
  assumes "flags_ok (serve_flags L)" "cmd_init L = Ok r" "(key, name, d) \<in> set (serve_flags L)"
  shows "pflags r key = Some (ServeCmd, name)" "map_of (flagset r ServeCmd) name = Some d"
proof -
  have d: "distinct (map fst (serve_flags L))" "distinct (map fst (map snd (serve_flags L)))"
    using assms(1) by (simp_all add: flags_ok_def)
  from bindings_in [OF d(1) assms(3)] cmd_init_Ok [OF assms(1)] assms(2)
  show "pflags r key = Some (ServeCmd, name)" by auto
  have "(name, d) \<in> set (map snd (serve_flags L))" using assms(3) by force
  with map_of_is_SomeI [OF d(2)] cmd_init_Ok [OF assms(1)] assms(2)
  show "map_of (flagset r ServeCmd) name = Some d" by auto
qed

lemma reads_serve_key:
  assumes "flags_ok (serve_flags L)" "cmd_init L = Ok r" "(key, name, d) \<in> set (serve_flags L)"
    and "reads_configuration r e call env v"
  shows "reads_key call (set_by_env e env key) (ServeCmd, name) d v key"
  using cmd_init_binds [OF assms(1-3)] assms(4) by (simp add: reads_configuration_def)

text \<open>A flag that the command line does not set and the environment neither has its default.\<close>

lemma reads_default:
  assumes "flags_ok (serve_flags L)" "cmd_init L = Ok r" "(key, name, d) \<in> set (serve_flags L)"
    and "reads_configuration r e call env v"
    and "invoked call \<noteq> ServeCmd \<or> given call name = None" "set_by_env e env key = None"
  shows "viper_holds v key d"
  using reads_serve_key [OF assms(1-4)] assms(5,6) by (auto simp: reads_key_def split: if_splits option.splits)

lemma reads_given:
  assumes "flags_ok (serve_flags L)" "cmd_init L = Ok r" "(key, name, d) \<in> set (serve_flags L)"
    and "reads_configuration r e call env v" "invoked call = ServeCmd" "given call name = Some x"
  shows "viper_holds v key x"
  using reads_serve_key [OF assms(1-4)] assms(5,6) by (simp add: reads_key_def)

section \<open>A configuration\<close>

text \<open>A \<open>viper\<close> that reads what a registry, a command line and an environment say.\<close>

definition key_value :: "registry \<Rightarrow> env_settings \<Rightarrow> invocation \<Rightarrow> (string \<Rightarrow> string option) \<Rightarrow> string \<Rightarrow> flag_value option" where
  "key_value r e call env key =
     (case pflags r key of
        None \<Rightarrow> None
      | Some (c, name) \<Rightarrow>
          (case (if c = invoked call then given call name else None) of
             Some x \<Rightarrow> Some x
           | None \<Rightarrow>
               (case set_by_env e env key of
                  Some s \<Rightarrow> Some (StringFlag s)
                | None \<Rightarrow> map_of (flagset r c) name)))"

definition viper_of :: "(string \<Rightarrow> flag_value option) \<Rightarrow> viper" where
  "viper_of setting = \<lparr>
     GetString = (\<lambda>key. case setting key of Some (StringFlag s) \<Rightarrow> s | _ \<Rightarrow> ''''),
     GetBool = (\<lambda>key. case setting key of Some (BoolFlag b) \<Rightarrow> b | _ \<Rightarrow> False),
     GetDuration = (\<lambda>key. case setting key of Some (DurationFlag t) \<Rightarrow> t | _ \<Rightarrow> 0),
     GetStringSlice = (\<lambda>key. case setting key of Some (StringSliceFlag xs) \<Rightarrow> xs | _ \<Rightarrow> [])\<rparr>"

lemma viper_of_holds: "setting key = Some x \<Longrightarrow> viper_holds (viper_of setting) key x"
  by (cases x) (simp_all add: viper_holds_def viper_of_def)

lemma viper_of_reads: "reads_configuration r e call env (viper_of (key_value r e call env))"
proof -
  let ?setting = "key_value r e call env"
  have "reads_key call (set_by_env e env key) (c, name) d (viper_of ?setting) key"
    if "pflags r key = Some (c, name)" "map_of (flagset r c) name = Some d" for key c name d
  proof (cases "if c = invoked call then given call name else None")
    case None
    with that have "?setting key = (case set_by_env e env key of Some s \<Rightarrow> Some (StringFlag s) | None \<Rightarrow> Some d)"
      by (simp add: key_value_def split: option.split)
    with None viper_of_holds [of ?setting key] show ?thesis
      by (cases "set_by_env e env key"; cases d) (auto simp: reads_key_def viper_of_def)
  next
    case (Some x)
    with that have "?setting key = Some x" by (simp add: key_value_def)
    with Some viper_of_holds [of ?setting key] show ?thesis by (auto simp: reads_key_def split: if_splits)
  qed
  then show ?thesis by (auto simp: reads_configuration_def)
qed

end
