(* ===== verification/Command_Properties.thy ===== *)
theory Command_Properties
  imports Commands Crdb_Properties Http_Server_Properties
begin

text \<open>
  The properties of the commands: \<open>serve_inv\<close> is what holds at every point of \<open>serverRunE\<close>; \<open>held\<close> reads
  off a trace which resources are open, in the order in which they were opened. From it follow what is
  released when the command returns, what a running server serves, and where the command waits.
\<close>

section \<open>Resources\<close>

datatype ('fd, 'nc) resource = Log 'fd | Conn 'nc

fun held :: "('fd, 'nc) effect list \<Rightarrow> ('fd, 'nc) resource list \<Rightarrow> ('fd, 'nc) resource list option" where
  "held [] st = Some st"
| "held (Opened_Log fd # xs) st = held xs (Log fd # st)"
| "held (Connected nc # xs) st = held xs (Conn nc # st)"
| "held (Closed_Log fd # xs) st =
     (case st of r # st \<Rightarrow> if r = Log fd then held xs st else None | [] \<Rightarrow> None)"
| "held (Closed_Conn nc # xs) st =
     (case st of r # st \<Rightarrow> if r = Conn nc then held xs st else None | [] \<Rightarrow> None)"
| "held (_ # xs) st = held xs st"

section \<open>The wiring\<close>

abbreviation serve_notifier :: "('bus, 'fd, 'nc, 'k, 'p, 'opt, 'info, 'm) serve_libs \<Rightarrow> viper
    \<Rightarrow> ('bus, 'p, 'opt, 'info) jetstream \<Rightarrow> 'bus notifier" where
  "serve_notifier L v js \<equiv> nats_methods (event_Encode L) (clock L)
     (nats_NewNotifier (ctx_Publish js) (BuildNATSSubject v) [])"

definition wired :: "('bus, 'fd, 'nc, 'k, 'p, 'opt, 'info, 'm) serve_libs \<Rightarrow> viper \<Rightarrow> ('bus, 'fd, 'nc) frame \<Rightarrow> bool" where
  "wired L v f \<longleftrightarrow> (\<exists>eng ping (mdw :: 'm) js auth p nc.
     let store = crdb_admin (crdb_NewDirectoryDriver eng (WithStorageOptions (GetBool v)));
         srv = NewServer (backoff_Retry L) (Some ping) (serve_options v (serve_notifier L v js) store mdw)
     in GetDBConnection L v ''directory'' False p = Inr (eng, ping) \<and> conn_JetStream L nc = Inr js
        \<and> NewAuthMiddleware L (buildAuthConfig v) = Inr auth \<and> frame_server f = srv
        \<and> engine srv (SetTrustedProxies L) (uuid_parse L) auth = Some (frame_handler f))"

abbreviation serve_config :: "viper \<Rightarrow> 'bus notifier \<Rightarrow> (crdb_state, 'bus) directory_admin \<Rightarrow> 'm
    \<Rightarrow> (crdb_state, 'bus, unit, 'm, auth_config) tm_config" where
  "serve_config v N T mdw \<equiv> apply_options (serve_options v N T mdw) default_config"

lemma serve_options_simps [simp]:
  "cfg_listen (serve_config v N T mdw) = GetString v ''server.listen''"
  "cfg_unix (serve_config v N T mdw) = GetString v ''server.unix_socket''"
  "cfg_debug (serve_config v N T mdw) = GetBool v ''debug''"
  "cfg_shutdownTimeout (serve_config v N T mdw) = GetDuration v ''server.shutdown''"
  "cfg_trustedProxies (serve_config v N T mdw) = GetStringSlice v ''server.trusted-proxies''"
  "cfg_notif (serve_config v N T mdw) = N" "cfg_storageDriver (serve_config v N T mdw) = Some T"
  "cfg_auditMdw (serve_config v N T mdw) = Some mdw"
  "cfg_authConfig (serve_config v N T mdw) = Some (buildAuthConfig v)"
  by (simp_all add: apply_options_def serve_options_def WithListen_def WithUnix_def WithDebug_def
      WithShutdownTimeout_def WithTrustedProxies_def WithNotifier_def WithStorageDriver_def
      WithAuditMiddleware_def WithAuthConfig_def default_config_def)

lemma NewServer_simps [simp]:
  "shutdownTime (NewServer retry ping opts) = cfg_shutdownTimeout (apply_options opts default_config)"
  "listen (NewServer retry ping opts) = cfg_listen (apply_options opts default_config)"
  "listenUnix (NewServer retry ping opts) = cfg_unix (apply_options opts default_config)"
  "trustedProxies (NewServer retry ping opts) = cfg_trustedProxies (apply_options opts default_config)"
  by (simp_all add: NewServer_def common_NewServer_def AddReadinessCheck_def Let_def)

section \<open>The invariant of serve\<close>

abbreviation at_exit :: "'fd \<Rightarrow> 'nc \<Rightarrow> ('fd, 'nc) deferred list" where
  "at_exit fd nc \<equiv> [Defer_Close_Conn nc, Defer_Close_Log fd, Defer_Stop_Cancel, Defer_Sync]"

abbreviation begun :: "'fd \<Rightarrow> 'nc \<Rightarrow> ('fd, 'nc) effect list" where
  "begun fd nc \<equiv> [Signal_Notify, Opened_DB ''directory'', Opened_Log fd, Connected nc]"

abbreviation ended :: "'fd \<Rightarrow> 'nc \<Rightarrow> ('fd, 'nc) effect list" where
  "ended fd nc \<equiv> [Closed_Conn nc, Closed_Log fd, Signal_Stop, Cancel, Logger_Sync]"

fun main_inv :: "('bus, 'fd, 'nc, 'k, 'p, 'opt, 'info, 'm) serve_libs \<Rightarrow> viper \<Rightarrow> ('fd, 'nc) effect list
    \<Rightarrow> bool \<Rightarrow> runner \<Rightarrow> ('bus, 'fd, 'nc) serve_main \<Rightarrow> bool" where
  "main_inv L v tr cancelled run (OpeningLog ds d) \<longleftrightarrow> ds = [Defer_Stop_Cancel, Defer_Sync]
     \<and> (\<exists>p. GetDBConnection L v ''directory'' False p = Inr d) \<and> tr = [Signal_Notify, Opened_DB ''directory''] \<and> \<not> cancelled \<and> run = NotStarted"
| "main_inv L v tr cancelled run (Selecting f) \<longleftrightarrow> wired L v f \<and> \<not> cancelled
     \<and> (\<exists>fd nc. defers f = at_exit fd nc \<and> tr = begun fd nc @ [Go_Run])"
| "main_inv L v tr cancelled run (ShuttingDown f) \<longleftrightarrow> wired L v f \<and> cancelled
     \<and> (\<exists>fd nc. defers f = at_exit fd nc \<and> tr = begun fd nc @ [Go_Run, Cancel])"
| "main_inv L v tr cancelled run (Over (Finished None)) \<longleftrightarrow> cancelled
     \<and> (\<exists>fd nc. tr = begun fd nc @ [Go_Run, Cancel, Http_Shutdown (GetDuration v ''server.shutdown'')] @ ended fd nc)"
| "main_inv L v tr cancelled run (Over (Finished (Some e))) \<longleftrightarrow> cancelled
     \<and> held tr [] = Some [] \<and> Go_Run \<notin> set tr \<and> run = NotStarted"
| "main_inv L v tr cancelled run (Over x) \<longleftrightarrow> True"

abbreviation serve_inv :: "('bus, 'fd, 'nc, 'k, 'p, 'opt, 'info, 'm) serve_libs \<Rightarrow> viper
    \<Rightarrow> ('bus, 'fd, 'nc) serve_state \<Rightarrow> bool" where
  "serve_inv L v s \<equiv> main_inv L v (trace (proc s)) (ctx_cancelled s) (runner s) (main s)"

lemma trace_note [simp]: "trace (note_effect x p) = trace p @ [x]" "proc_bus (note_effect x p) = proc_bus p"
  by (simp_all add: note_effect_def)

lemma run_defers_simps [simp]: "run_defers [] p = p" "run_defers (x # ds) p = run_defers ds (run_deferred x p)"
  by (simp_all add: run_defers_def)

lemma leave_simps [simp]:
  "proc (leave ds e s) = run_defers ds (proc s)" "main (leave ds e s) = Over (Finished e)"
  "ctx_cancelled (leave ds e s)" "runner (leave ds e s) = runner s"
  by (simp_all add: leave_def)

lemma serve_begin_inv: "trace p = [] \<Longrightarrow> serve_inv L v (serve_begin L v p)"
  by (auto simp: serve_begin_def serve_state_of_def Let_def split: sum.split)

lemma newServer_handler_cases:
  assumes "cfg_authConfig (apply_options opts default_config) = Some ac"
  shows "(\<exists>msg e. newServer_handler L opts s = Inl (Fatal msg e))
    \<or> (\<exists>auth h. newServer_handler L opts s = Inr h \<and> NewAuthMiddleware L ac = Inr auth
          \<and> engine s (SetTrustedProxies L) (uuid_parse L) auth = Some h)"
  using assms by (simp add: newServer_handler_def engine_def split: option.split sum.split)

lemma serve_wire_inv:
  assumes "trace (proc s) = begun fd nc" "\<not> ctx_cancelled s"
    and "GetDBConnection L v ''directory'' False p = Inr d" "conn_JetStream L nc' = Inr js"
  shows "serve_inv L v (serve_wire L v (at_exit fd nc) d mdw js s)"
proof -
  let ?n = "nats_NewNotifier (ctx_Publish js) (BuildNATSSubject v) []"
  let ?opts = "serve_options v (serve_notifier L v js)
    (crdb_admin (crdb_NewDirectoryDriver (fst d) (WithStorageOptions (GetBool v)))) mdw"
  let ?srv = "NewServer (backoff_Retry L) (Some (snd d)) ?opts"
  obtain b r where init: "initNats js (ErrStreamNotFound L) v ?n (proc_bus (proc s)) = (b, r)" by (rule prod.exhaust)
  from newServer_handler_cases [of ?opts "buildAuthConfig v" L ?srv]
  consider (fatal) msg e where "newServer_handler L ?opts ?srv = Inl (Fatal msg e)"
    | (ok) auth h where "newServer_handler L ?opts ?srv = Inr h" "NewAuthMiddleware L (buildAuthConfig v) = Inr auth"
        "engine ?srv (SetTrustedProxies L) (uuid_parse L) auth = Some h"
    by auto
  then show ?thesis
  proof cases
    case fatal
    with init show ?thesis by (simp add: serve_wire_def Let_def split: option.split)
  next
    case ok
    then have "wired L v \<lparr>defers = at_exit fd nc, frame_server = ?srv, frame_handler = h\<rparr>"
      unfolding wired_def Let_def using assms(3,4)
      by (intro exI [of _ "fst d"] exI [of _ "snd d"] exI [of _ mdw] exI [of _ js] exI [of _ auth]
          exI [of _ p] exI [of _ nc']) simp
    with ok(1) init assms show ?thesis by (simp add: serve_wire_def Let_def split: option.split)
  qed
qed

lemma serve_opened_inv:
  assumes "main_inv L v (trace (proc s)) (ctx_cancelled s) (runner s) (OpeningLog ds d)"
  shows "serve_inv L v (serve_opened L v ds d r s)"
proof -
  obtain p where p: "GetDBConnection L v ''directory'' False p = Inr d" using assms by auto
  have "serve_inv L v (serve_wire L v (at_exit fd nc) d mdw js
      (s\<lparr>proc := note_effect (Connected nc) (note_effect (Opened_Log fd) (proc s))\<rparr>))"
    if "conn_JetStream L nc = Inr js" for fd nc mdw js
    using assms p that by (intro serve_wire_inv [where p = p and nc' = nc]) simp_all
  with assms show ?thesis
    by (auto simp: serve_opened_def Let_def split: sum.split)
qed

lemma wired_shutdown: "wired L v f \<Longrightarrow> shutdownTime (frame_server f) = GetDuration v ''server.shutdown''"
  by (auto simp: wired_def Let_def)

lemma serve_step_inv: "serve_step L v s s' \<Longrightarrow> serve_inv L v s \<Longrightarrow> serve_inv L v s'"
proof (induction rule: serve_step.induct)
  case (opened ds d r)
  then show ?case by (simp add: serve_opened_inv)
qed (auto simp: wired_shutdown)

lemma serve_env_inv: "serve_env s s' \<Longrightarrow> serve_inv L v s \<Longrightarrow> serve_inv L v s'"
  by (induction rule: serve_env.induct) (auto, cases "main s", auto)

lemma serve_reachable_inv: "serve_reachable L v p0 s \<Longrightarrow> trace p0 = [] \<Longrightarrow> serve_inv L v s"
  by (induction rule: serve_reachable.induct) (auto intro: serve_begin_inv serve_step_inv serve_env_inv)


section \<open>An example\<close>

definition example_viper :: viper where
  "example_viper = \<lparr>
     GetString = (\<lambda>k. if k = ''nats.creds'' then ''/etc/nats.creds''
       else if k = ''nats.subject_prefix'' then ''infratographer.events''
       else if k = ''nats.stream_name'' then ''fertilesoil'' else ''''),
     GetBool = (\<lambda>k. k = ''storage.read_only''), GetDuration = (\<lambda>k. seconds 5), GetStringSlice = (\<lambda>k. [])\<rparr>"

type_synonym example_bus = "(string \<times> directory_event) list"

definition example_jetstream :: "(example_bus, directory_event, unit, unit) jetstream" where
  "example_jetstream = \<lparr>ctx_Publish = (\<lambda>subj p os b. (b @ [(subj, p)], None)),
     ctx_StreamInfo = (\<lambda>n b. Inl (ErrExternal ''nats: stream not found'')),
     ctx_AddStream = (\<lambda>cfg b. (b, Inr ()))\<rparr>"

text \<open>A database and a NATS server that answer; the audit log opens if \<open>opens\<close>.\<close>

definition example_libs :: "bool \<Rightarrow> (example_bus, nat, nat, unit, directory_event, unit, unit, unit) serve_libs" where
  "example_libs opens = \<lparr>
     crdbx_NewDB = (\<lambda>v name tracing p. Inr (\<lparr>scan_rows = id, emit_ids = id\<rparr>, \<lambda>w. (w, None))),
     OpenAuditLog = (\<lambda>path cancelled p. if opens then Some (Inr 3)
       else if cancelled then Some (Inl (ErrExternal ''context canceled'')) else None),
     NewJSONMiddleware = (\<lambda>component fd. ()), NkeyOptionFromSeed = (\<lambda>f. Inr ()),
     nats_Connect = (\<lambda>url opts. Inr 4), conn_JetStream = (\<lambda>nc. Inr example_jetstream),
     ErrStreamNotFound = ErrExternal ''nats: stream not found'', event_Encode = Inr, clock = (\<lambda>b. zero_time),
     backoff_Retry = attempts 2, SetTrustedProxies = (\<lambda>ps. None), NewAuthMiddleware = (\<lambda>c. Inr (\<lambda>req. None)),
     uuid_parse = example_Parse, srv_Shutdown = (\<lambda>t p. None)\<rparr>"

definition new_process :: "(example_bus, nat, nat) process" where
  "new_process = \<lparr>proc_bus = [], trace = []\<rparr>"

lemma example_initNats:
  "initNats example_jetstream (ErrExternal ''nats: stream not found'') example_viper n b = (b, None)"
  by (simp add: initNats_def example_viper_def AddStream_def example_jetstream_def Let_def)

lemma example_wiring:
  assumes "main s = OpeningLog ds d"
  shows "\<exists>f b. serve_opened (example_libs True) example_viper ds d (Inr 3) s
    = s\<lparr>proc := b, runner := Running_server, main := Selecting f\<rparr>"
proof -
  have c: "nats_Connect (example_libs True) = (\<lambda>url opts. Inr 4)" "conn_JetStream (example_libs True) nc = Inr example_jetstream"
    "ErrStreamNotFound (example_libs True) = ErrExternal ''nats: stream not found''"
    "SetTrustedProxies (example_libs True) ps = None" "NewAuthMiddleware (example_libs True) ac = Inr (\<lambda>req. None)" for nc ps ac
    by (simp_all add: example_libs_def)
  have creds: "BuildNATSConnFromArgs f (\<lambda>url opts. Inr 4) example_viper = Inr 4" for f :: "string \<Rightarrow> go_error + 'k"
    by (simp add: BuildNATSConnFromArgs_def example_viper_def)
  show ?thesis
    by (simp add: serve_opened_def serve_wire_def newServer_handler_def Let_def c creds example_initNats)
      (intro exI, rule refl)
qed

lemma example_serving:
  "\<exists>s f. serve_reachable (example_libs True) example_viper new_process s \<and> main s = Selecting f
    \<and> runner s = Running_server \<and> \<not> interrupted s"
proof -
  let ?L = "example_libs True"
  let ?s = "serve_begin ?L example_viper new_process"
  obtain ds d where begun: "main ?s = OpeningLog ds d" "\<not> interrupted ?s"
    by (simp add: serve_begin_def GetDBConnection_def example_libs_def serve_state_of_def Let_def)
  obtain f b where wire: "serve_opened ?L example_viper ds d (Inr 3) ?s
      = ?s\<lparr>proc := b, runner := Running_server, main := Selecting f\<rparr>"
    using example_wiring [OF begun(1)] by blast
  have "serve_step ?L example_viper ?s (serve_opened ?L example_viper ds d (Inr 3) ?s)"
    using begun(1) by (rule serve_step.opened) (simp add: example_libs_def)
  with serve_reachable.begins have "serve_reachable ?L example_viper new_process
      (serve_opened ?L example_viper ds d (Inr 3) ?s)" by (rule serve_reachable.steps)
  with wire begun(2) show ?thesis
    by (intro exI [of _ "?s\<lparr>proc := b, runner := Running_server, main := Selecting f\<rparr>"] exI [of _ f]) simp
qed


section \<open>What serve guarantees\<close>



text \<open>C27: A waiting \<open>serve\<close> answers every routed request by the handlers over the CockroachDB store behind the
  notifier: the driver has the database's engine and the options of the configuration, the notifier
  publishes below \<open><prefix>.directories\<close> on the JetStream of the connection, and requests pass the
  authentication that the configuration describes.\<close>

theorem serve_serves:
  assumes "serve_reachable L v p0 s" "trace p0 = []" "main s = Selecting f" "find_route meth segs = Some rt"
  shows "\<exists>t js auth p ping nc. GetDBConnection L v ''directory'' False p = Inr (conn t, ping)
    \<and> readOnly t = GetBool v ''storage.read_only'' \<and> fastReads t = GetBool v ''storage.fast_reads''
    \<and> conn_JetStream L nc = Inr js \<and> NewAuthMiddleware L (buildAuthConfig v) = Inr auth
    \<and> listen (frame_server f) = GetString v ''server.listen''
    \<and> listenUnix (frame_server f) = GetString v ''server.unix_socket''
    \<and> frame_handler f order inps meth segs req w
        = serve (server_store (crdb_admin t) (serve_notifier L v js) (backoff_Retry L)) (uuid_parse L) auth inps rt req w"
proof -
  have "wired L v f" using serve_reachable_inv [OF assms(1,2)] assms(3) by simp
  then obtain eng ping js auth p nc and mdw :: 'h where w:
    "GetDBConnection L v ''directory'' False p = Inr (eng, ping)" "conn_JetStream L nc = Inr js"
    "NewAuthMiddleware L (buildAuthConfig v) = Inr auth"
    "frame_server f = NewServer (backoff_Retry L) (Some ping) (serve_options v (serve_notifier L v js)
       (crdb_admin (crdb_NewDirectoryDriver eng (WithStorageOptions (GetBool v)))) mdw)"
    "engine (frame_server f) (SetTrustedProxies L) (uuid_parse L) auth = Some (frame_handler f)"
    unfolding wired_def Let_def by auto
  let ?t = "crdb_NewDirectoryDriver eng (WithStorageOptions (GetBool v))"
  have t: "conn ?t = eng" "readOnly ?t = GetBool v ''storage.read_only''" "fastReads ?t = GetBool v ''storage.fast_reads''"
    by (simp_all add: crdb_NewDirectoryDriver_def WithStorageOptions_def WithReadOnly_def WithFastReads_def)
  have "frame_handler f order inps meth segs req w
      = serve (server_store (crdb_admin ?t) (serve_notifier L v js) (backoff_Retry L)) (uuid_parse L) auth inps rt req w"
    using new_server_routes [OF w(5) [unfolded w(4)] serve_options_simps(7)] assms(4) by simp
  with w(1-3) t show ?thesis
    by (intro exI [of _ ?t] exI [of _ js] exI [of _ auth] exI [of _ p] exI [of _ ping] exI [of _ nc]) (simp add: w(4))
qed

theorem serve_serves_witness:
  "\<exists>s f t js. serve_reachable (example_libs True) example_viper new_process s \<and> main s = Selecting f \<and> readOnly t
    \<and> frame_handler f [] example_inputs ''POST'' [''api'', ''v1'', ''roots''] example_request (crdb_family star11 [])
      = serve (server_store (crdb_admin t) (serve_notifier (example_libs True) example_viper js) (attempts 2))
          example_Parse (\<lambda>req. None) example_inputs R_createRoot example_request (crdb_family star11 [])"
proof -
  obtain s f where s: "serve_reachable (example_libs True) example_viper new_process s" "main s = Selecting f"
    using example_serving by blast
  have "trace new_process = []" by (simp add: new_process_def)
  moreover have "find_route ''POST'' [''api'', ''v1'', ''roots''] = Some R_createRoot" by (simp add: find_route_def)
  ultimately show ?thesis
    using serve_serves [OF s(1) _ s(2), of "''POST''" "[''api'', ''v1'', ''roots'']" R_createRoot "[]" example_inputs
        example_request "crdb_family star11 []"] s
    by (fastforce simp: example_libs_def example_viper_def)
qed

text \<open>C32: When the server's \<open>Run\<close> ends with an error, for instance because the address is in use, \<open>serve\<close>
  does not notice: it can take no step, and nothing but a signal changes that.\<close>

theorem serve_outlives_its_server:
  assumes "serve_reachable L v p0 s" "trace p0 = []"
    and "main s = Selecting f" "runner s = Stopped e" "\<not> interrupted s"
  shows "\<not> (\<exists>s'. serve_step L v s s')
    \<and> (\<forall>s'. serve_env s s' \<longrightarrow> s' = s\<lparr>interrupted := True\<rparr> \<or> s' = s\<lparr>main := Over Killed\<rparr>)"
proof -
  have "\<not> ctx_cancelled s" using serve_reachable_inv [OF assms(1,2)] assms(3) by simp
  with assms(3-5) show ?thesis by (auto elim!: serve_stepE serve_envE)
qed

theorem serve_outlives_its_server_witness:
  "\<exists>s f. serve_reachable (example_libs True) example_viper new_process s \<and> main s = Selecting f
    \<and> runner s = Stopped (ErrExternal ''bind: address already in use'')
    \<and> \<not> (\<exists>s'. serve_step (example_libs True) example_viper s s')"
proof -
  obtain s f where s: "serve_reachable (example_libs True) example_viper new_process s" "main s = Selecting f"
    "runner s = Running_server" "\<not> interrupted s" using example_serving by blast
  let ?s = "s\<lparr>runner := Stopped (ErrExternal ''bind: address already in use'')\<rparr>"
  have r: "serve_reachable (example_libs True) example_viper new_process ?s"
    using s by (intro serve_reachable.happens [OF s(1)] serve_env.run_ends) simp_all
  have "trace new_process = []" by (simp add: new_process_def)
  with serve_outlives_its_server [OF r] r s show ?thesis by (intro exI [of _ ?s] exI [of _ f]) simp
qed

text \<open>While the audit log cannot be opened, an interrupt has no effect: it goes into a channel that
  nothing reads yet.\<close>

theorem serve_ignores_interrupt:
  assumes "serve_reachable L v p0 s" "trace p0 = []" "main s = OpeningLog ds d"
    and "OpenAuditLog L (GetString v ''audit.log.path'') False (proc s) = None"
  shows "serve_env s (s\<lparr>interrupted := True\<rparr>) \<and> \<not> (\<exists>s'. serve_step L v (s\<lparr>interrupted := True\<rparr>) s')"
proof -
  have "\<not> ctx_cancelled s" using serve_reachable_inv [OF assms(1,2)] assms(3) by simp
  with assms(3,4) show ?thesis by (auto elim!: serve_stepE intro: serve_env.sigint)
qed

theorem serve_ignores_interrupt_witness:
  "\<exists>s. serve_reachable (example_libs False) example_viper new_process s \<and> interrupted s
    \<and> \<not> (\<exists>s'. serve_step (example_libs False) example_viper s s')"
proof -
  let ?L = "example_libs False"
  let ?s = "serve_begin ?L example_viper new_process"
  obtain ds d where main: "main ?s = OpeningLog ds d"
    by (simp add: serve_begin_def GetDBConnection_def example_libs_def serve_state_of_def Let_def)
  have "trace new_process = []" by (simp add: new_process_def)
  moreover have "OpenAuditLog ?L path False p = None" for path p by (simp add: example_libs_def)
  ultimately have "serve_env ?s (?s\<lparr>interrupted := True\<rparr>)
      \<and> \<not> (\<exists>s'. serve_step ?L example_viper (?s\<lparr>interrupted := True\<rparr>) s')"
    by (intro serve_ignores_interrupt [OF serve_reachable.begins _ main])
  then show ?thesis
    using serve_reachable.happens [OF serve_reachable.begins, of ?L example_viper new_process "?s\<lparr>interrupted := True\<rparr>"]
    by (intro exI [of _ "?s\<lparr>interrupted := True\<rparr>"]) simp
qed

section \<open>The stream of serve\<close>

text \<open>A subject pattern that ends in \<open>.>\<close> covers the subjects below it.\<close>

definition covers :: "string \<Rightarrow> string \<Rightarrow> bool" where
  "covers pat s \<longleftrightarrow> (let n = length pat - 1
     in drop n pat = ''>'' \<and> take n s = take n pat \<and> n < length s)"

lemma covers_below: "t \<noteq> [] \<Longrightarrow> covers (P @ ''.>'') (P @ ''.'' @ t)"
  by (simp add: covers_def Let_def)

text \<open>C33: If the configured stream does not exist, \<open>serve\<close> asks for it with one subject pattern, and every
  event that its notifier then publishes, of whatever type, has a subject that the pattern covers.\<close>

theorem stream_captures_events:
  assumes "GetString v ''nats.stream_name'' \<noteq> ''''"
    and "ctx_StreamInfo js (GetString v ''nats.stream_name'') b = Inl errNotFound"
    and "ctx_Publish js = (\<lambda>s p os b. (b @ [(s, p)], None))"
    and "notify_event enc now (nats_NewNotifier (ctx_Publish js) (BuildNATSSubject v) []) t (Some d) b1 = (b2, Ok ())"
  shows "\<exists>cfg pat s p. stream_Name cfg = GetString v ''nats.stream_name'' \<and> stream_Subjects cfg = [pat]
    \<and> fst (initNats js errNotFound v (nats_NewNotifier (ctx_Publish js) (BuildNATSSubject v) []) b)
        = fst (ctx_AddStream js cfg b)
    \<and> b2 = b1 @ [(s, p)] \<and> covers pat s"
proof -
  let ?n = "nats_NewNotifier (ctx_Publish js) (BuildNATSSubject v) []"
  let ?cfg = "\<lparr>stream_Name = GetString v ''nats.stream_name'', stream_Subjects = [BuildNATSSubject v @ ''.>''],
    stream_rest = \<lparr>stream_Storage = if GetString v ''nats.stream_storage'' = ''memory'' then MemoryStorage else FileStorage,
      stream_Retention = LimitsPolicy, stream_Discard = DiscardNew\<rparr>\<rparr>"
  have found: "errors_is errNotFound errNotFound" by (cases errNotFound) simp_all
  have n: "subjectPrefix ?n = BuildNATSSubject v" "js_Publish ?n = ctx_Publish js"
    by (simp_all add: nats_NewNotifier_def)
  have init: "fst (initNats js errNotFound v ?n b) = fst (ctx_AddStream js ?cfg b)"
    using assms(1,2) found n(1)
    by (cases "ctx_AddStream js ?cfg b") (auto simp: initNats_def AddStream_def Let_def split: sum.split)
  have type: "event_type_text t \<noteq> []" by (cases t) simp_all
  obtain p where "b2 = b1 @ [(BuildNATSSubject v @ ''.'' @ event_type_text t, p)]"
    using assms(4)
    by (auto simp: notify_event_Some publish_def nats_NewNotifier_def assms(3) event_for_def split: sum.splits)
  with init covers_below [OF type, of "BuildNATSSubject v"] show ?thesis
    by (intro exI [of _ ?cfg] exI [of _ "BuildNATSSubject v @ ''.>''"]
        exI [of _ "BuildNATSSubject v @ ''.'' @ event_type_text t"] exI [of _ p]) simp
qed

theorem stream_captures_events_witness:
  "\<exists>pat s. covers pat s \<and> notify_event Inr (\<lambda>b. zero_time)
      (nats_NewNotifier (ctx_Publish example_jetstream) (BuildNATSSubject example_viper) []) EventTypeDelete
      (Some zero_directory) [] = ([(s, event_for EventTypeDelete zero_directory zero_time)], Ok ())"
proof -
  let ?n = "nats_NewNotifier (ctx_Publish example_jetstream) (BuildNATSSubject example_viper) []"
  let ?s = "BuildNATSSubject example_viper @ ''.'' @ event_type_text EventTypeDelete"
  have published: "notify_event Inr (\<lambda>b. zero_time) ?n EventTypeDelete (Some zero_directory) []
      = ([(?s, event_for EventTypeDelete zero_directory zero_time)], Ok ())"
    by (simp add: notify_event_Some publish_def nats_NewNotifier_def example_jetstream_def event_for_def)
  have "GetString example_viper ''nats.stream_name'' \<noteq> ''''"
    "ctx_StreamInfo example_jetstream s b = Inl (ErrExternal ''nats: stream not found'')"
    "ctx_Publish example_jetstream = (\<lambda>s p os b. (b @ [(s, p)], None))" for s b
    by (simp_all add: example_viper_def example_jetstream_def)
  from stream_captures_events [OF this published] published show ?thesis by fastforce
qed

section \<open>What migrate guarantees\<close>

lemma goose_set:
  "g\<lparr>goose_dialect := Some x, goose_baseFS := Some y\<rparr> = \<lparr>goose_dialect = Some x, goose_baseFS = Some y\<rparr>"
  "g\<lparr>goose_baseFS := Some y, goose_dialect := Some x\<rparr> = \<lparr>goose_dialect = Some x, goose_baseFS = Some y\<rparr>"
  by (cases g; simp)+

text \<open>Whatever goose's global state is, a successful \<open>migrate\<close> has applied the migrations of the
  tracked directories and then those of the tree, both in the dialect \<open>postgres\<close>; if the first fail,
  the second are not tried.\<close>

lemma migrate_applies_both:
  assumes "migrate G app_Migrations migrations (Inr d) g = (g', d', r)" "goose_knows G ''postgres'' = None"
  shows "case goose_Up G \<lparr>goose_dialect = Some ''postgres'', goose_baseFS = Some app_Migrations\<rparr> d ''.'' of
      (d1, Some e) \<Rightarrow> d' = Some d1 \<and> r = Some (ErrWrap ''failed to bootstrap app migrations'' e)
    | (d1, None) \<Rightarrow> (case goose_Up G \<lparr>goose_dialect = Some ''postgres'', goose_baseFS = Some migrations\<rparr> d1 ''.'' of
        (d2, r2) \<Rightarrow> d' = Some d2 \<and> r = r2)"
  using assms
  by (auto simp: migrate_def Migrate_def BootStrap_def SetDialect_def SetBaseFS_def Let_def goose_set
      split: prod.splits option.splits)

end
