(* ===== verification/Memory_Schedules.thy ===== *)
theory Memory_Schedules
  imports Interleavings Memory_Contract
begin

text \<open>
  Requests served at the same time over the in-memory driver, whose store and whose callers share
  the directories: \<open>createDirectory\<close> keeps the identifier of its parent between its two calls, and
  \<open>updateDirectory\<close> keeps the stored pointer itself and writes through it.

  \<^item> \<open>evolved\<close>: a world of the driver after another, with the invariant and all directories kept.
  \<^item> \<open>request_ok\<close>: what a request in flight relies on; later worlds still satisfy it.
  \<^item> \<open>fresh_pool_steps\<close>: schedules in which the identifiers that are drawn are new.
\<close>

section \<open>Worlds that evolve\<close>

definition evolved :: "'bus mem_world \<Rightarrow> 'bus mem_world \<Rightarrow> bool" where
  "evolved w0 w \<longleftrightarrow> mem_inv w \<and> mem_ptr w0 \<subseteq>\<^sub>m mem_ptr w \<and> forest_grows (mem_view w0) (mem_view w)"

definition evolves :: "'bus mem_world \<Rightarrow> 'bus mem_world \<times> 'a outcome \<Rightarrow> bool" where
  "evolves w0 run \<longleftrightarrow> evolved w0 (fst run)"

lemma evolved_refl: "mem_inv w \<Longrightarrow> evolved w w"
  by (simp add: evolved_def)

lemma evolved_trans: "evolved w0 w1 \<Longrightarrow> evolved w1 w2 \<Longrightarrow> evolved w0 w2"
  by (auto simp: evolved_def intro: map_le_trans forest_grows_trans)

lemma evolved_inv: "evolved w0 w \<Longrightarrow> mem_inv w"
  by (simp add: evolved_def)

lemma evolved_bus [simp]: "evolved w0 (w\<lparr>bus := b\<rparr>) \<longleftrightarrow> evolved w0 w"
  by (simp add: evolved_def)

lemma evolved_dom: "evolved w0 w \<Longrightarrow> i \<in> dom (mem_view w0) \<Longrightarrow> i \<in> dom (mem_view w)"
  by (fastforce simp: evolved_def forest_grows_def)

lemma evolved_ptr: "evolved w0 w \<Longrightarrow> mem_ptr w0 i = Some a \<Longrightarrow> mem_ptr w i = Some a"
  by (auto simp: evolved_def map_le_def dom_def)

lemma evolves_at: "evolved w0 w \<Longrightarrow> evolves w0 (w, r)"
  by (simp add: evolves_def)

lemma evolves_handle:
  "evolves w0 r \<Longrightarrow> (\<And>w e. evolved w0 w \<Longrightarrow> evolves w0 (f w e)) \<Longrightarrow> (\<And>w x. evolved w0 w \<Longrightarrow> evolves w0 (g w x))
    \<Longrightarrow> evolves w0 (handle r f g)"
  by (cases "(r, f, g)" rule: handle.cases) (simp_all add: evolves_def)

lemma evolves_option:
  "evolves w0 r \<Longrightarrow> (\<And>x. evolves w0 (g x)) \<Longrightarrow> evolves w0 (case s of None \<Rightarrow> r | Some x \<Rightarrow> g x)"
  by (cases s) simp_all

lemmas evolves_intros = evolves_handle evolves_at evolves_option

section \<open>The calls of the store\<close>

lemma evolved_alloc: "evolved w0 w \<Longrightarrow> evolved w0 (snd (alloc d w))"
  by (simp add: evolved_def mem_inv_alloc mem_view_alloc [OF mem_invD(1)])

lemma evolved_store_new:
  assumes "mem_inv w" "mem_view w (in_uuid inp) = None" "\<And>q. Parent d = Some q \<Longrightarrow> q \<in> dom (mem_view w)"
  shows "evolves w (mem_store_new inp (fst (alloc d w)) (snd (alloc d w)))"
proof -
  let ?w = "snd (alloc d w)" and ?a = "fst (alloc d w)"
  note wf = mem_invD(1) [OF assms(1)]
  have "heap ?w ?a = d" by (simp add: world_simps)
  with assms obtain w' where w': "mem_store_new inp ?a ?w = (w', Ok ?a)" "mem_inv w'"
    "mem_view w' = (mem_view w)(in_uuid inp \<mapsto> created inp d)" "mem_ptr w' = (mem_ptr w)(in_uuid inp \<mapsto> ?a)"
    using mem_store_new_spec [OF mem_inv_alloc [OF assms(1), of d] loose_alloc [OF wf, of d], of inp]
    by (auto simp: mem_view_alloc [OF wf])
  moreover have "mem_ptr w \<subseteq>\<^sub>m (mem_ptr w)(in_uuid inp \<mapsto> ?a)"
    using assms(2) by (auto simp: map_le_def mem_view_None)
  ultimately show ?thesis
    using assms(2) by (simp add: evolves_def evolved_def forest_grows_new)
qed

definition stored_at :: "'bus mem_world \<Rightarrow> addr option \<Rightarrow> bool" where
  "stored_at w d \<longleftrightarrow> (\<forall>a. d = Some a \<longrightarrow> a \<in> ran (mem_ptr w))"

lemma stored_at_evolved: "stored_at w0 d \<Longrightarrow> evolved w0 w \<Longrightarrow> stored_at w d"
  by (auto simp: stored_at_def ran_def dest: evolved_ptr)

lemma evolves_assign:
  assumes "evolved w0 w" "stored_at w0 d" "\<And>x. row_kept x (f x)"
  shows "evolves w0 (assign d f w)"
proof (cases d)
  case None
  then show ?thesis using assms(1) by (simp add: assign_def evolves_at)
next
  case (Some a)
  then obtain i where i: "mem_ptr w i = Some a" using stored_at_evolved [OF assms(2,1)] by (auto simp: stored_at_def ran_def)
  note inv = evolved_inv [OF assms(1)]
  let ?d = "f (heap w a)"
  have view: "mem_view w i = Some (heap w a)" using i by (simp add: mem_view_Some)
  have view': "mem_view (write_ptr a ?d w) = (mem_view w)(i \<mapsto> ?d)"
    by (rule mem_view_write_stored [OF mem_invD(1) [OF inv] i])
  have "mem_wf (write_ptr a ?d w)"
    using assms(3) [of "heap w a"] by (intro mem_wf_write_ptr mem_invD(1) [OF inv]) (simp add: row_kept_def)
  moreover have "tree_ok (mem_view (write_ptr a ?d w))"
    unfolding view' using assms(3) [of "heap w a"] tree_ok_id [OF mem_invD(2) [OF inv] view]
    by (intro tree_ok_overwrite [OF mem_invD(2) [OF inv] view]) (simp_all add: row_kept_def)
  ultimately have "evolved w (write_ptr a ?d w)"
    unfolding evolved_def mem_inv_def view' using view assms(3)
    by (simp add: forest_grows_overwrite map_le_def mem_ptr_write_ptr)
  with evolved_trans [OF assms(1) this] show ?thesis by (simp add: assign_def Some evolves_def)
qed

lemma evolves_update:
  assumes "evolved w0 w" "stored_at w0 d"
  shows "evolves w0 (mem_UpdateDirectory inp d w)"
proof (cases d)
  case None
  then show ?thesis using assms(1) by (simp add: mem_UpdateDirectory_def evolves_at)
next
  case (Some a)
  then obtain i where i: "mem_ptr w i = Some a" using stored_at_evolved [OF assms(2,1)] by (auto simp: stored_at_def ran_def)
  note inv = evolved_inv [OF assms(1)]
  have view: "mem_view w i = Some (heap w a)" using i by (simp add: mem_view_Some)
  obtain w' where w': "mem_UpdateDirectory inp (Some a) w = (w', Ok ())" "mem_inv w'"
    "mem_view w' = (mem_view w)(i \<mapsto> updated inp (heap w a))" "mem_ptr w' = (mem_ptr w)(i \<mapsto> a)"
    using mem_UpdateDirectory_spec [OF inv disjI2 [OF i] view] mem_ptr_Some [OF mem_invD(1) [OF inv] i] by blast
  have "row_kept (heap w a) (updated inp (heap w a))" by (simp add: row_kept_def updated_def default_metadata_def)
  with w' i view have "evolved w w'"
    by (simp add: evolved_def forest_grows_overwrite map_le_def)
  with w'(1) evolved_trans [OF assms(1)] show ?thesis by (simp add: Some evolves_def)
qed

lemma evolves_delete:
  assumes "mem_inv w"
  shows "evolves w (mem_DeleteDirectory inp i w)"
proof (cases "live_child (mem_view w) i")
  case True
  then obtain d where d: "mem_view w i = Some d" "DeletedAt d = None" "Parent d \<noteq> None" by (auto simp: live_child_def)
  let ?I = "set (i # take 10 (children_by_age w i))"
  obtain w' ps where w': "mem_DeleteDirectory inp i w = (w', Ok ps)" "mem_inv w'"
    "mem_view w' = mark_deleted ?I (in_time1 inp) (mem_view w)" "mem_ptr w' = mem_ptr w"
    using mem_DeleteDirectory_spec [OF assms d, of inp] by (elim exE conjE) (rule that)
  have "DeletedAt e = None" if "j \<in> ?I" "mem_view w j = Some e" for j e
  proof (cases "j = i")
    case True
    with that d show ?thesis by simp
  next
    case False
    with that(1) have "j \<in> descendants (mem_view w) False i"
      using children_by_age_spec(1) [OF assms, of i] set_take_subset [of 10 "children_by_age w i"] by auto
    with that(2) show ?thesis using descends_visible [of "mem_view w" False i j] by (auto simp: descendants_def visible_def)
  qed
  then have "forest_grows (mem_view w) (mark_deleted ?I (in_time1 inp) (mem_view w))" by (rule forest_grows_mark_deleted)
  with w' show ?thesis by (simp add: evolves_def evolved_def)
next
  case False
  then have "mem_DeleteDirectory inp i w = (w, Err ErrDirectoryNotFound)"
    by (intro mem_DeleteDirectory_missing [OF mem_invD(1) [OF assms]]) (auto simp: live_child_def)
  then show ?thesis using assms by (simp add: evolves_at evolved_refl)
qed

section \<open>Behind the notifier\<close>

lemma evolves_call_wrapper: "evolved w0 w \<Longrightarrow> evolves w0 (call_wrapper n h w)"
  by (simp add: call_wrapper_def evolves_def split: option.split prod.split)

lemma evolves_notify_deleted: "evolved w0 w \<Longrightarrow> evolves w0 (notify_deleted n affected ds w)"
  by (induction ds arbitrary: w) (auto intro!: evolves_intros evolves_call_wrapper)

lemma notifying_writes:
  fixes T :: "('db, 'bus) directory_admin"
  defines "n \<equiv> \<lambda>T N wrap. \<lparr>DirectoryAdmin = T, nws_notifier = N, notifyWrapper = Some wrap\<rparr>"
  shows "CreateDirectory (notifying T N wrap) = nws_CreateDirectory (n T N wrap)"
    and "UpdateDirectory (notifying T N wrap) = nws_UpdateDirectory (n T N wrap)"
    and "DeleteDirectory (notifying T N wrap) = nws_DeleteDirectory (n T N wrap)"
    and "CreateRoot (notifying T N wrap) = nws_CreateRoot (n T N wrap)"
  by (simp_all add: notifying_def nws_methods_def n_def)

abbreviation notifying_memory :: "'bus notifier \<Rightarrow> 'bus wrapper \<Rightarrow> (dir_map, 'bus) directory_admin" where
  "notifying_memory \<equiv> notifying memory_driver"

lemma memory_creates:
  assumes "mem_inv w" "mem_view w (in_uuid inp) = None" "\<And>q. Parent d = Some q \<Longrightarrow> q \<in> dom (mem_view w)"
  shows "evolves w (CreateDirectory (notifying_memory N wrap) inp (fst (alloc d w)) (snd (alloc d w)))"
    and "evolves w (CreateRoot (notifying_memory N wrap) inp (fst (alloc d w)) (snd (alloc d w)))"
  using evolved_store_new [OF assms] evolved_alloc [OF evolved_refl [OF assms(1)], of d]
  by (auto simp: notifying_writes nws_CreateDirectory_def nws_CreateRoot_def mem_CreateDirectory_def mem_CreateRoot_def
      intro!: evolves_intros evolves_call_wrapper split: if_splits)

lemma memory_updates:
  assumes "evolved w0 w" "stored_at w0 d"
  shows "evolves w0 (UpdateDirectory (notifying_memory N wrap) inp d w)"
  using evolves_update [OF assms]
  by (auto simp: notifying_writes nws_UpdateDirectory_def intro!: evolves_intros evolves_call_wrapper)

lemma memory_deletes:
  assumes "mem_inv w"
  shows "evolves w (DeleteDirectory (notifying_memory N wrap) inp i w)"
  using evolves_delete [OF assms]
  by (auto simp: notifying_writes nws_DeleteDirectory_def intro!: evolves_intros evolves_notify_deleted)

section \<open>The handlers\<close>

lemma memory_apply_update:
  assumes "mem_inv w" "stored_at w d"
  shows "evolves w (apply_update (notifying_memory N wrap) inps r d w)"
proof -
  have assign: "evolves w (assign d f w')" if "evolved w w'" "\<And>x. row_kept x (f x)" for w' f
    by (rule evolves_assign [OF that(1) assms(2) that(2)])
  have update: "evolves w (UpdateDirectory (notifying_memory N wrap) (inps 1) d w')" if "evolved w w'" for w'
    by (rule memory_updates [OF that assms(2)])
  show ?thesis
    unfolding apply_update_def Let_def case_prod_unfold prod.collapse
    using evolved_refl [OF assms(1)]
    by (auto intro!: evolves_intros assign update simp: row_kept_def simp del: One_nat_def)
qed

lemma memory_create_finish:
  assumes "mem_inv w" "mem_view w (in_uuid (inps 1)) = None" "i \<in> dom (mem_view w)"
  shows "evolves w (create_finish (notifying_memory N wrap) inps r i w)"
proof -
  let ?d = "zero_directory\<lparr>Name := create_Name r, Metadata := create_Metadata r, Parent := Some i\<rparr>"
  have "evolves w (CreateDirectory (notifying_memory N wrap) (inps 1) (fst (alloc ?d w)) (snd (alloc ?d w)))"
    using assms by (intro memory_creates(1)) (auto simp: zero_directory_def)
  then show ?thesis
    unfolding create_finish_def Let_def case_prod_unfold by (auto intro!: evolves_intros)
qed

lemma memory_createRoot:
  assumes "mem_inv w" "mem_view w (in_uuid (inps 0)) = None"
  shows "evolves w (createRootDirectory (notifying_memory N wrap) inps req w)"
proof -
  have "evolves w (CreateRoot (notifying_memory N wrap) (inps 0) (fst (alloc d w)) (snd (alloc d w)))"
    if "Parent d = None" for d using that assms by (intro memory_creates(2)) auto
  then show ?thesis
    unfolding createRootDirectory_def Let_def case_prod_unfold
    using evolved_refl [OF assms(1)] by (auto intro!: evolves_intros simp: zero_directory_def split: sum.split)
qed

lemma memory_reference:
  "evolved w0 w \<Longrightarrow> evolves w0 (getDirectoryFromReference (notifying_memory N wrap) p inp s options w)"
  by (auto simp: getDirectoryFromReference_def intro!: evolves_intros split: sum.split)

lemma memory_reads:
  assumes "mem_inv w"
  shows "evolves w (listRoots (notifying_memory N wrap) inps req w)"
    and "evolves w (getDirectory (notifying_memory N wrap) p inps req w)"
    and "evolves w (listChildren (notifying_memory N wrap) p inps req w)"
    and "evolves w (listParents (notifying_memory N wrap) p inps req w)"
    and "evolves w (listParentsUntil (notifying_memory N wrap) p inps req w)"
  using evolved_refl [OF assms] unfolding listRoots_def getDirectory_def listChildren_def listParents_def listParentsUntil_def
  by (auto intro!: evolves_intros memory_reference split: sum.split)

lemma memory_deleteDirectory:
  "mem_inv w \<Longrightarrow> evolves w (deleteDirectory (notifying_memory N wrap) p inps req w)"
  unfolding deleteDirectory_def Let_def
  by (auto intro!: evolves_intros memory_deletes evolved_refl split: sum.split)

section \<open>Requests in flight\<close>

text \<open>What a request in flight relies on.\<close>

fun request_ok :: "'bus mem_world \<Rightarrow> pending \<Rightarrow> bool" where
  "request_ok w (Creating inps r i) \<longleftrightarrow> i \<in> dom (mem_view w)"
| "request_ok w (Patching inps r d) \<longleftrightarrow> stored_at w d"
| "request_ok w q \<longleftrightarrow> True"

text \<open>The identifier that the next step of a request draws from \<open>uuid.New\<close>, if it creates a directory, is new.\<close>

fun draws_fresh :: "forest \<Rightarrow> pending \<Rightarrow> bool" where
  "draws_fresh F (Arrived rt inps req) \<longleftrightarrow> (rt = R_createRoot \<longrightarrow> F (in_uuid (inps 0)) = None)"
| "draws_fresh F (Creating inps r i) \<longleftrightarrow> F (in_uuid (inps 1)) = None"
| "draws_fresh F q \<longleftrightarrow> True"

lemma request_ok_evolved: "request_ok w0 q \<Longrightarrow> evolved w0 w \<Longrightarrow> request_ok w q"
  by (cases q) (auto dest: evolved_dom stored_at_evolved)

definition proceeds :: "'bus mem_world \<Rightarrow> 'bus mem_world \<times> pending \<Rightarrow> bool" where
  "proceeds w0 s \<longleftrightarrow> evolved w0 (fst s) \<and> request_ok (fst s) (snd s)"

lemma proceeds_settle: "evolves w0 r \<Longrightarrow> proceeds w0 (settle r)"
  by (cases r) (simp add: proceeds_def evolves_def)

lemma proceeds_get:
  assumes "mem_inv w" "\<And>e. proceeds w (f w e)"
    and "\<And>a. mem_ptr w i = Some a \<Longrightarrow> DirId (heap w a) = i \<Longrightarrow> proceeds w (g w a)"
  shows "proceeds w (proceed (GetDirectory (notifying_memory N wrap) inp i [] w) f g)"
  using assms(2,3) mem_ptr_Some [OF mem_invD(1) [OF assms(1)]]
  by (auto simp: mem_GetDirectory_view [OF mem_invD(1) [OF assms(1)]] split: option.split)

lemma memory_pending_step:
  assumes "mem_inv w" "request_ok w q" "draws_fresh (mem_view w) q"
  shows "proceeds w (pending_step (notifying_memory N wrap) p auth q w)"
proof -
  let ?T = "notifying_memory N wrap"
  have stay: "proceeds w (w, Answered r)" for r using assms(1) by (simp add: proceeds_def evolved_refl)
  have creating: "proceeds w (w, Creating inps r (DirId (heap w a)))" if "mem_ptr w (DirId (heap w a)) = Some a" for inps r a
    using that assms(1) by (simp add: proceeds_def evolved_refl mem_view_None domIff)
  have patching: "proceeds w (w, Patching inps r d)" if "stored_at w d" for inps r d
    using that assms(1) by (simp add: proceeds_def evolved_refl)
  have create: "proceeds w (create_check ?T p inps req w)" for inps req
    unfolding create_check_def
    by (auto intro!: proceeds_get assms(1) stay creating split: sum.split simp del: notifying_reads)
  have update: "proceeds w (update_read ?T p inps req w)" for inps req
    unfolding update_read_def
    by (auto intro!: proceeds_get assms(1) stay patching split: sum.split simp: stored_at_def ran_def simp del: notifying_reads)
  show ?thesis
  proof (cases q)
    case (Arrived rt inps req)
    with assms stay create update show ?thesis
      by (cases rt; cases "auth req")
        (auto intro!: proceeds_settle memory_createRoot memory_reads memory_deleteDirectory)
  qed (use assms stay in \<open>auto intro!: proceeds_settle memory_create_finish memory_apply_update\<close>)
qed

section \<open>Schedules\<close>

inductive fresh_pool_step :: "('db, 'bus) directory_admin \<Rightarrow> (('db, 'bus) world \<Rightarrow> forest) \<Rightarrow> (string \<Rightarrow> uuid option)
    \<Rightarrow> (http_request \<Rightarrow> http_response option) \<Rightarrow> pending list \<times> ('db, 'bus) world
    \<Rightarrow> pending list \<times> ('db, 'bus) world \<Rightarrow> bool"
  for T view p auth where
  fresh_arrives: "fresh_pool_step T view p auth (qs, w) (qs @ [Arrived rt inps req], w)"
| fresh_runs: "k < length qs \<Longrightarrow> draws_fresh (view w) (qs ! k) \<Longrightarrow> pending_step T p auth (qs ! k) w = (w', q)
    \<Longrightarrow> fresh_pool_step T view p auth (qs, w) (qs[k := q], w')"

lemma fresh_pool_step_pool_step: "fresh_pool_step T view p auth s s' \<Longrightarrow> pool_step T p auth s s'"
  by (induction rule: fresh_pool_step.induct) (auto intro: pool_step.intros)

abbreviation fresh_pool_steps :: "('db, 'bus) directory_admin \<Rightarrow> (('db, 'bus) world \<Rightarrow> forest) \<Rightarrow> (string \<Rightarrow> uuid option)
    \<Rightarrow> (http_request \<Rightarrow> http_response option) \<Rightarrow> pending list \<times> ('db, 'bus) world
    \<Rightarrow> pending list \<times> ('db, 'bus) world \<Rightarrow> bool" where
  "fresh_pool_steps T view p auth \<equiv> (fresh_pool_step T view p auth)\<^sup>*\<^sup>*"

definition pool_ok :: "'bus mem_world \<Rightarrow> pending list \<times> 'bus mem_world \<Rightarrow> bool" where
  "pool_ok w0 s \<longleftrightarrow> evolved w0 (snd s) \<and> (\<forall>q \<in> set (fst s). request_ok (snd s) q)"

lemma memory_pool_step:
  assumes "fresh_pool_step (notifying_memory N wrap) mem_view p auth s s'" "pool_ok w0 s"
  shows "pool_ok w0 s'"
  using assms
proof (induction rule: fresh_pool_step.induct)
  case (fresh_runs k qs w w' q)
  then have "evolved w0 w" "\<And>q. q \<in> set qs \<Longrightarrow> request_ok w q" by (simp_all add: pool_ok_def)
  then have "proceeds w (w', q)"
    using memory_pending_step [of w "qs ! k" N wrap p auth] fresh_runs(1-3) by (simp add: evolved_inv)
  then have w': "evolved w w'" "request_ok w' q" by (simp_all add: proceeds_def)
  show ?case
    unfolding pool_ok_def fst_conv snd_conv
  proof (intro conjI ballI)
    show "evolved w0 w'" using \<open>evolved w0 w\<close> w'(1) by (rule evolved_trans)
    fix x assume "x \<in> set (qs[k := q])"
    then have "x = q \<or> x \<in> set qs" using set_update_subset_insert [of qs k q] by blast
    then show "request_ok w' x"
      using w'(2) \<open>\<And>q. q \<in> set qs \<Longrightarrow> request_ok w q\<close> request_ok_evolved [OF _ w'(1)] by blast
  qed
qed (simp add: pool_ok_def)

lemma memory_pool_steps:
  "fresh_pool_steps (notifying_memory N wrap) mem_view p auth s s' \<Longrightarrow> pool_ok w0 s \<Longrightarrow> pool_ok w0 s'"
  by (induction rule: rtranclp_induct) (auto intro: memory_pool_step)

end
