(* ===== verification/Memory_Deletions.thy ===== *)
theory Memory_Deletions
  imports Memory_Contract
begin

text \<open>
  Deletions of the in-memory driver that run at the same time. The driver has no lock: its map is a
  \<open>sync.Map\<close>, and \<open>DeleteDirectory\<close> reads and marks one directory after the other. \<open>deletion\<close> is a
  call in flight, \<open>deletion_step\<close> its next access to the store; a listing is one step. \<open>deletion_alone\<close> shows that
  the steps of a call on its own are \<open>mem_DeleteDirectory\<close>.
\<close>

section \<open>A deletion in steps\<close>

datatype deletion =
    Asked inputs directory_id
  | Looked_up inputs directory_id addr
  | Marking go_time addr "directory_id list" "addr list"
  | Next_child go_time "directory_id list" "addr list"
  | Ended "addr list outcome"

fun go_on :: "'w \<times> 'a outcome \<Rightarrow> (go_error \<Rightarrow> go_error) \<Rightarrow> ('w \<Rightarrow> 'a \<Rightarrow> 'w \<times> deletion) \<Rightarrow> 'w \<times> deletion" where
  "go_on (w, Ok x) f g = g w x"
| "go_on (w, Err e) f g = (w, Ended (Err (f e)))"
| "go_on (w, ErrWith x e) f g = (w, Ended (Err (f e)))"
| "go_on (w, Panic) f g = (w, Ended Panic)"
| "go_on (w, Diverge) f g = (w, Ended Diverge)"

fun deletion_step :: "'bus mem_world \<times> deletion \<Rightarrow> 'bus mem_world \<times> deletion" where
  "deletion_step (w, Asked inp i) =
     go_on (w, mem_GetDirectory i [] w) (\<lambda>e. e) (\<lambda>w dir.
       if Parent (heap w dir) = None then (w, Ended (Err ErrDirectoryNotFound)) else (w, Looked_up inp i dir))"
| "deletion_step (w, Looked_up inp i dir) =
     go_on (w, mem_GetChildren i [] w) (ErrWrap ''error getting children'') (\<lambda>w children.
       (w, Marking (in_time1 inp) dir children []))"
| "deletion_step (w, Marking t a children affected) =
     (write_ptr a ((heap w a)\<lparr>DeletedAt := Some t\<rparr>) w, Next_child t children (affected @ [a]))"
| "deletion_step (w, Next_child t [] affected) = (w, Ended (Ok affected))"
| "deletion_step (w, Next_child t (childID # rest) affected) =
     go_on (w, mem_GetDirectory childID [] w) (ErrWrap ''error getting child'') (\<lambda>w child.
       (w, Marking t child rest affected))"
| "deletion_step (w, Ended r) = (w, Ended r)"

text \<open>Several deletions: any of them takes the next step.\<close>

inductive deletion_pool_step :: "deletion list \<times> 'bus mem_world \<Rightarrow> deletion list \<times> 'bus mem_world \<Rightarrow> bool" where
  deletion_runs: "k < length qs \<Longrightarrow> deletion_step (w, qs ! k) = (w', q) \<Longrightarrow> deletion_pool_step (qs, w) (qs[k := q], w')"

abbreviation deletion_pool_steps :: "deletion list \<times> 'bus mem_world \<Rightarrow> deletion list \<times> 'bus mem_world \<Rightarrow> bool" where
  "deletion_pool_steps \<equiv> deletion_pool_step\<^sup>*\<^sup>*"

section \<open>On its own\<close>

definition runs_to :: "'bus mem_world \<times> deletion \<Rightarrow> 'bus mem_world \<times> addr list outcome \<Rightarrow> bool" where
  "runs_to s out \<longleftrightarrow> (\<lambda>s s'. s' = deletion_step s)\<^sup>*\<^sup>* s (fst out, Ended (snd out))"

lemma runs_to_step: "runs_to (deletion_step s) out \<Longrightarrow> runs_to s out"
  by (simp add: runs_to_def converse_rtranclp_into_rtranclp)

lemma runs_to_Ended: "runs_to (w, Ended r) (w, r)"
  by (simp add: runs_to_def)

lemma runs_to_go_on:
  assumes "\<And>w x. runs_to (g w x) (g' w x)"
  shows "runs_to (go_on r f g) (handle r (\<lambda>w e. (w, Err (f e))) g')"
  using assms by (cases "(r, f, g)" rule: go_on.cases) (simp_all add: runs_to_Ended)

lemma delete_loop_runs:
  fixes w :: "'bus mem_world"
  shows "runs_to (w, Next_child t cs affected) (delete_loop t cs affected w)"
proof (induction cs arbitrary: affected w)
  case Nil
  show ?case by (rule runs_to_step) (simp add: runs_to_Ended)
next
  case (Cons c cs)
  have mark: "runs_to (w, Marking t a cs affected)
      (delete_loop t cs (affected @ [a]) (write_ptr a ((heap w a)\<lparr>DeletedAt := Some t\<rparr>) w))" for w :: "'bus mem_world" and a
    by (rule runs_to_step) (simp only: deletion_step.simps Cons.IH)
  show ?case
    by (rule runs_to_step, unfold deletion_step.simps delete_loop.simps, rule runs_to_go_on, rule mark)
qed

lemma deletion_alone:
  fixes w :: "'bus mem_world"
  shows "runs_to (w, Asked inp i) (mem_DeleteDirectory inp i w)"
proof -
  have mark: "runs_to (w, Marking t a cs affected)
      (delete_loop t cs (affected @ [a]) (write_ptr a ((heap w a)\<lparr>DeletedAt := Some t\<rparr>) w))" for w :: "'bus mem_world" and a t cs affected
    by (rule runs_to_step) (simp add: delete_loop_runs)
  have children: "runs_to (w, Looked_up inp i dir)
      (handle (w, mem_GetChildren i [] w) (\<lambda>w e. (w, Err (ErrWrap ''error getting children'' e)))
        (\<lambda>w children. let deletedTime = in_time1 inp in delete_loop deletedTime children [dir]
           (write_ptr dir ((heap w dir)\<lparr>DeletedAt := Some deletedTime\<rparr>) w)))" for w :: "'bus mem_world" and dir
    by (rule runs_to_step, unfold deletion_step.simps Let_def, rule runs_to_go_on, rule mark [where affected = "[]", simplified])
  show ?thesis
    unfolding mem_DeleteDirectory_def
    by (rule runs_to_step, unfold deletion_step.simps, rule runs_to_go_on)
      (simp add: runs_to_Ended children del: handle.simps)
qed

section \<open>Two deletions\<close>

lemma runs_in_pool:
  assumes "(\<lambda>s s'. s' = deletion_step s)\<^sup>*\<^sup>* (w, q) (w', q')" "k < length qs" "qs ! k = q"
  shows "deletion_pool_steps (qs, w) (qs[k := q'], w')"
  using assms(1)
proof (induction "(w', q')" arbitrary: w' q' rule: rtranclp_induct)
  case base
  then show ?case using assms(2,3) by auto
next
  case (step s)
  obtain w1 q1 where s: "s = (w1, q1)" by (cases s)
  with step have "deletion_pool_steps (qs, w) (qs[k := q1], w1)" by simp
  moreover have "deletion_pool_step (qs[k := q1], w1) ((qs[k := q1])[k := q'], w')"
    using step(2) s assms(2) by (intro deletion_runs) simp_all
  ultimately show ?case by simp
qed

lemma step_in_pool:
  "k < length qs \<Longrightarrow> deletion_step (w, qs ! k) = (w', q) \<Longrightarrow> deletion_pool_steps (qs, w) (qs[k := q], w')"
  by (rule r_into_rtranclp) (rule deletion_runs)

lemma listed_below:
  assumes "mem_inv w" "mem_GetChildren i [] w = Ok cs"
  shows "distinct cs" "set cs \<subseteq> descendants (mem_view w) False i"
  using children_by_age_spec [OF assms(1), of i] assms(2) set_take_subset [of 10 "children_by_age w i"] by auto

text \<open>What the deletion of the first listed directory, \<open>c\<close>, leaves alone: \<open>i\<close> itself and its other children.\<close>

lemma first_listed:
  assumes inv: "mem_inv w" and listed: "mem_GetChildren i [] w = Ok (c # cs)"
    and d: "d \<in> set cs" "mem_view w d = Some e" "Parent e = Some i"
  shows "live_child (mem_view w) c" "i \<noteq> c" "d \<noteq> i" "DeletedAt e = None"
    and "b = i \<or> b = d \<Longrightarrow> b \<notin> subtree (mem_view w) c"
proof -
  note ok = mem_invD(2) [OF inv] and below = listed_below [OF inv listed]
  have ic: "descends (mem_view w) False i c" and id: "descends (mem_view w) False i d"
    using below(2) d(1) by (auto simp: descendants_def)
  from ic show "live_child (mem_view w) c"
    by (cases rule: descends.cases) (simp_all add: live_child_def visible_def)
  show i_c: "i \<noteq> c" using ic descends_irrefl [OF ok] by blast
  show "d \<noteq> i" using id descends_irrefl [OF ok] by blast
  show "DeletedAt e = None" using descends_visible [OF id] d(2) by (simp add: visible_def)
  have not_up: "\<not> descends (mem_view w) False c i"
    using descends_trans [OF ic] descends_irrefl [OF ok] by blast
  have "\<not> descends (mem_view w) False c d"
  proof
    assume "descends (mem_view w) False c d"
    then show False using d(2,3) i_c not_up by (cases rule: descends.cases) simp_all
  qed
  moreover have "d \<noteq> c" using below(1) d(1) by auto
  ultimately show "b = i \<or> b = d \<Longrightarrow> b \<notin> subtree (mem_view w) c"
    using not_up i_c by (auto simp: subtree_def descendants_def)
qed

lemma deletion_leaves_others:
  assumes "mem_inv w" "live_child (mem_view w) c"
  shows "\<exists>w1 ps. mem_DeleteDirectory inp c w = (w1, Ok ps) \<and> mem_inv w1 \<and> mem_ptr w1 = mem_ptr w
    \<and> mem_view w1 c = map_option (DeletedAt_update (\<lambda>_. Some (in_time1 inp))) (mem_view w c)
    \<and> (\<forall>b. b \<notin> subtree (mem_view w) c \<longrightarrow> mem_view w1 b = mem_view w b)"
proof -
  obtain y where y: "mem_view w c = Some y" "DeletedAt y = None" "Parent y \<noteq> None"
    using assms(2) by (auto simp: live_child_def)
  let ?del = "c # take 10 (children_by_age w c)"
  obtain w1 ps where w1: "mem_DeleteDirectory inp c w = (w1, Ok ps)" "mem_inv w1"
    "mem_view w1 = mark_deleted (set ?del) (in_time1 inp) (mem_view w)" "mem_ptr w1 = mem_ptr w"
    using mem_DeleteDirectory_spec [OF assms(1) y, of inp] by (elim exE conjE) (rule that)
  have "set ?del \<subseteq> subtree (mem_view w) c"
    using children_by_age_spec(1) [OF assms(1), of c] set_take_subset [of 10 "children_by_age w c"] by (auto simp: subtree_def)
  with w1 show ?thesis
    by (intro exI [of _ w1] exI [of _ ps]) (auto simp: mark_deleted_def)
qed

text \<open>
  A deletion of \<open>i\<close> lists the descendants; before it marks them, a deletion of the first of them, \<open>c\<close>,
  runs to its end. The first deletion then marks \<open>i\<close>, does not find \<open>c\<close>, and ends with an error.
\<close>

lemma deletion_overtaken:
  assumes inv: "mem_inv w" and i: "live_child (mem_view w) i"
    and listed: "mem_GetChildren i [] w = Ok (c # cs)" and d: "d \<in> set cs" "mem_view w d = Some e" "Parent e = Some i"
  shows "\<exists>w' ps. deletion_pool_steps ([Asked inp i, Asked inp' c], w)
      ([Ended (Err (ErrWrap ''error getting child'' ErrDirectoryNotFound)), Ended (Ok ps)], w')
    \<and> mem_view w' i = map_option (DeletedAt_update (\<lambda>_. Some (in_time1 inp))) (mem_view w i)
    \<and> mem_view w' d = Some e \<and> DeletedAt e = None"
proof -
  note c = first_listed [OF inv listed d]
  obtain x where x: "mem_view w i = Some x" "DeletedAt x = None" "Parent x \<noteq> None" using i by (auto simp: live_child_def)
  define a where "a = ptr_of w i"
  have a: "mem_ptr w i = Some a" "mem_GetDirectory i [] w = Ok a" "heap w a = x"
    using mem_GetDirectory_visible [OF mem_invD(1) [OF inv] x(1), of "[]"] x by (auto simp: a_def visible_def mem_view_Some ptr_of_def)
  have start: "deletion_step (w, Asked inp i) = (w, Looked_up inp i a)"
    "deletion_step (w, Looked_up inp i a) = (w, Marking (in_time1 inp) a (c # cs) [])"
    using a x(3) listed by simp_all
  obtain w1 ps where w1: "mem_DeleteDirectory inp' c w = (w1, Ok ps)" "mem_inv w1" "mem_ptr w1 = mem_ptr w"
    "mem_view w1 c = map_option (DeletedAt_update (\<lambda>_. Some (in_time1 inp'))) (mem_view w c)"
    "\<And>b. b \<notin> subtree (mem_view w) c \<Longrightarrow> mem_view w1 b = mem_view w b"
    using deletion_leaves_others [OF inv c(1), of inp'] by blast
  have other: "deletion_pool_steps ([q, Asked inp' c], w) ([q, Ended (Ok ps)], w1)" for q
    using runs_in_pool [where k = 1 and qs = "[q, Asked inp' c]", of w _ w1] deletion_alone [of w inp' c] w1(1) by (simp add: runs_to_def)
  let ?w2 = "write_ptr a ((heap w1 a)\<lparr>DeletedAt := Some (in_time1 inp)\<rparr>) w1"
  have "mem_ptr w1 i = Some a" using a(1) w1(3) by simp
  note one = mem_mark_one [OF mem_invD(1) [OF w1(2)] this, of "in_time1 inp"]
  have view2: "mem_view ?w2 b = (if b = i then map_option (DeletedAt_update (\<lambda>_. Some (in_time1 inp))) (mem_view w1 b)
      else mem_view w1 b)" for b by (simp add: one(2) mark_deleted_def)
  have mark: "deletion_step (w1, Marking (in_time1 inp) a (c # cs) []) = (?w2, Next_child (in_time1 inp) (c # cs) [a])" by simp
  have "DeletedAt f \<noteq> None" if "mem_view ?w2 c = Some f" for f
    using that c(2) w1(4) by (auto simp: view2)
  then have "mem_GetDirectory c [] ?w2 = Err ErrDirectoryNotFound"
    by (intro mem_GetDirectory_missing [OF one(1)]) (auto simp: visible_def)
  then have stop: "deletion_step (?w2, Next_child (in_time1 inp) (c # cs) [a])
      = (?w2, Ended (Err (ErrWrap ''error getting child'' ErrDirectoryNotFound)))" by simp
  have first: "deletion_pool_steps ([q, r], v) ([q', r], v')" if "deletion_step (v, q) = (v', q')"
    for q q' r and v v' :: "'b mem_world" using step_in_pool [of 0 "[q, r]" v v' q'] that by simp
  have "deletion_pool_steps ([Asked inp i, Asked inp' c], w)
      ([Ended (Err (ErrWrap ''error getting child'' ErrDirectoryNotFound)), Ended (Ok ps)], ?w2)"
    using first [OF start(1)] first [OF start(2)] other first [OF mark] first [OF stop] by (meson rtranclp_trans)
  moreover have "mem_view ?w2 i = map_option (DeletedAt_update (\<lambda>_. Some (in_time1 inp))) (mem_view w i)"
    and "mem_view ?w2 d = Some e" using c(3,5) w1(5) d(2) by (simp_all add: view2)
  ultimately show ?thesis using c(4) by blast
qed

section \<open>Every schedule of deletions\<close>

definition only_marks :: "forest \<Rightarrow> forest \<Rightarrow> bool" where
  "only_marks F F' \<longleftrightarrow> (\<forall>i. F' i = F i
     \<or> (\<exists>d t. F i = Some d \<and> DeletedAt d = None \<and> Parent d \<noteq> None \<and> F' i = Some (d\<lparr>DeletedAt := Some t\<rparr>)))"

definition has_parent :: "forest \<Rightarrow> directory_id \<Rightarrow> bool" where
  "has_parent F i \<longleftrightarrow> (\<exists>d. F i = Some d \<and> Parent d \<noteq> None)"

definition markable :: "'bus mem_world \<Rightarrow> addr \<Rightarrow> bool" where
  "markable w a \<longleftrightarrow> (\<exists>i. mem_ptr w i = Some a \<and> live_child (mem_view w) i)"

fun deletion_ok :: "'bus mem_world \<Rightarrow> deletion \<Rightarrow> bool" where
  "deletion_ok w (Looked_up inp i a) \<longleftrightarrow> markable w a"
| "deletion_ok w (Marking t a cs affected) \<longleftrightarrow> markable w a \<and> list_all (has_parent (mem_view w)) cs"
| "deletion_ok w (Next_child t cs affected) \<longleftrightarrow> list_all (has_parent (mem_view w)) cs"
| "deletion_ok w q \<longleftrightarrow> True"

definition marked_since :: "'bus mem_world \<Rightarrow> 'bus mem_world \<Rightarrow> bool" where
  "marked_since w0 w \<longleftrightarrow> mem_inv w \<and> mem_ptr w = mem_ptr w0 \<and> only_marks (mem_view w0) (mem_view w)"

lemma only_marks_parent: "only_marks F F' \<Longrightarrow> has_parent F' i \<longleftrightarrow> has_parent F i"
  by (drule only_marks_def [THEN iffD1, THEN spec, of _ _ i]) (auto simp: has_parent_def dest!: sym [of "Some _"])

lemma marked_get:
  assumes "marked_since w0 w" "mem_GetDirectory i [] w = Ok a" "has_parent (mem_view w) i"
  shows "markable w0 a"
proof -
  have inv: "mem_inv w" and ptr: "mem_ptr w = mem_ptr w0" and marks: "only_marks (mem_view w0) (mem_view w)"
    using assms(1) by (simp_all add: marked_since_def)
  have a: "mem_ptr w0 i = Some a" "visible False (heap w a)"
    using assms(2) mem_GetDirectory_Ok [OF mem_invD(1) [OF inv], of i "[]" a] ptr by simp_all
  then have "mem_view w i = Some (heap w a)" "DeletedAt (heap w a) = None"
    using ptr by (simp_all add: mem_view_Some visible_def)
  with assms(3) spec [OF marks [unfolded only_marks_def], of i] have "live_child (mem_view w0) i"
    by (auto simp: live_child_def has_parent_def dest!: sym [of "Some _"])
  with a(1) show ?thesis by (auto simp: markable_def)
qed

lemma marked_write:
  assumes "marked_since w0 w" "markable w0 a"
  shows "marked_since w0 (write_ptr a ((heap w a)\<lparr>DeletedAt := Some t\<rparr>) w)"
proof -
  have inv: "mem_inv w" and ptr: "mem_ptr w = mem_ptr w0" and marks: "only_marks (mem_view w0) (mem_view w)"
    using assms(1) by (simp_all add: marked_since_def)
  obtain i d where i: "mem_ptr w i = Some a" "mem_view w0 i = Some d" "DeletedAt d = None" "Parent d \<noteq> None"
    using assms(2) ptr by (auto simp: markable_def live_child_def)
  note one = mem_mark_one [OF mem_invD(1) [OF inv] i(1), of t]
  let ?w = "write_ptr a ((heap w a)\<lparr>DeletedAt := Some t\<rparr>) w"
  have "only_marks (mem_view w0) (mem_view ?w)"
    unfolding only_marks_def one(2)
  proof
    fix j
    show "mark_deleted {i} t (mem_view w) j = mem_view w0 j
      \<or> (\<exists>d s. mem_view w0 j = Some d \<and> DeletedAt d = None \<and> Parent d \<noteq> None
          \<and> mark_deleted {i} t (mem_view w) j = Some (d\<lparr>DeletedAt := Some s\<rparr>))"
      using spec [OF marks [unfolded only_marks_def], of j] i(2-4) by (cases "j = i") (auto simp: mark_deleted_def)
  qed
  moreover have "mem_inv ?w"
    using one tree_ok_mark_deleted [OF mem_invD(2) [OF inv]] by (simp add: mem_inv_def)
  moreover have "mem_ptr ?w = mem_ptr w0" using ptr by (simp add: fun_eq_iff mem_ptr_write_ptr)
  ultimately show ?thesis by (simp add: marked_since_def)
qed

lemma marked_listing:
  assumes "marked_since w0 w" "mem_GetChildren i [] w = Ok cs"
  shows "list_all (has_parent (mem_view w0)) cs"
proof -
  have inv: "mem_inv w" and marks: "only_marks (mem_view w0) (mem_view w)"
    using assms(1) by (simp_all add: marked_since_def)
  have "set cs \<subseteq> descendants (mem_view w) False i"
    by (rule listed_below(2) [OF inv assms(2)])
  moreover have "has_parent (mem_view w) c" if "descends (mem_view w) False i c" for c
    using that by (cases rule: descends.cases) (simp_all add: has_parent_def)
  ultimately show ?thesis using only_marks_parent [OF marks] by (auto simp: list_all_iff descendants_def)
qed

definition deletion_safe :: "'bus mem_world \<Rightarrow> 'bus mem_world \<times> deletion \<Rightarrow> bool" where
  "deletion_safe w0 s \<longleftrightarrow> marked_since w0 (fst s) \<and> deletion_ok w0 (snd s)"

lemma go_on_safe:
  "marked_since w0 w \<Longrightarrow> (\<And>x. r = Ok x \<Longrightarrow> deletion_safe w0 (g w x)) \<Longrightarrow> deletion_safe w0 (go_on (w, r) f g)"
  by (cases r) (simp_all add: deletion_safe_def)

lemma deletion_step_keeps:
  assumes "marked_since w0 w" "deletion_ok w0 q"
  shows "deletion_safe w0 (deletion_step (w, q))"
proof -
  have marks: "only_marks (mem_view w0) (mem_view w)" and wf: "mem_wf w"
    using assms(1) by (simp_all add: marked_since_def mem_inv_def)
  have found: "mem_view w i = Some (heap w a)" if "mem_GetDirectory i [] w = Ok a" for i a
    using that mem_GetDirectory_Ok [OF wf, of i "[]" a] by (simp add: mem_view_Some)
  show ?thesis
  proof (cases q)
    case (Asked inp i)
    have "markable w0 a" if "mem_GetDirectory i [] w = Ok a" "Parent (heap w a) \<noteq> None" for a
      using marked_get [OF assms(1) that(1)] found [OF that(1)] that(2) by (simp add: has_parent_def)
    then have "deletion_safe w0 (go_on (w, mem_GetDirectory i [] w) (\<lambda>e. e) (\<lambda>w dir.
       if Parent (heap w dir) = None then (w, Ended (Err ErrDirectoryNotFound)) else (w, Looked_up inp i dir)))"
      by (intro go_on_safe [OF assms(1)]) (simp add: deletion_safe_def assms(1))
    then show ?thesis by (simp add: Asked)
  next
    case (Looked_up inp i a)
    with assms have a: "markable w0 a" by simp
    have "deletion_safe w0 (go_on (w, mem_GetChildren i [] w) (ErrWrap ''error getting children'') (\<lambda>w children.
       (w, Marking (in_time1 inp) a children [])))"
      using a marked_listing [OF assms(1)] by (intro go_on_safe [OF assms(1)]) (simp add: deletion_safe_def assms(1))
    then show ?thesis by (simp add: Looked_up)
  next
    case (Marking t a cs affected)
    with assms marked_write [OF assms(1)] show ?thesis by (simp add: deletion_safe_def)
  next
    case (Next_child t cs affected)
    show ?thesis
    proof (cases cs)
      case Nil
      with Next_child assms(1) show ?thesis by (simp add: deletion_safe_def)
    next
      case (Cons c rest)
      with assms(2) Next_child have c: "has_parent (mem_view w) c" "list_all (has_parent (mem_view w0)) rest"
        using only_marks_parent [OF marks] by simp_all
      have "deletion_safe w0 (go_on (w, mem_GetDirectory c [] w) (ErrWrap ''error getting child'') (\<lambda>w child.
         (w, Marking t child rest affected)))"
        using c marked_get [OF assms(1) _ c(1)] by (intro go_on_safe [OF assms(1)]) (simp add: deletion_safe_def assms(1))
      then show ?thesis by (simp add: Next_child Cons)
    qed
  qed (use assms in \<open>simp add: deletion_safe_def\<close>)
qed

lemma deletion_pool_keeps:
  assumes "deletion_pool_steps s s'" "marked_since w0 (snd s)" "\<forall>q \<in> set (fst s). deletion_ok w0 q"
  shows "marked_since w0 (snd s') \<and> (\<forall>q \<in> set (fst s'). deletion_ok w0 q)"
  using assms
proof (induction rule: rtranclp_induct)
  case (step s s')
  from step.hyps(2) show ?case
  proof (cases rule: deletion_pool_step.cases)
    case (deletion_runs k qs w w' q)
    with step.IH [OF step.prems] have "marked_since w0 w" "\<forall>q \<in> set qs. deletion_ok w0 q" by simp_all
    with deletion_step_keeps [of w0 w "qs ! k"] deletion_runs have "marked_since w0 w'" "deletion_ok w0 q"
      by (auto simp: deletion_safe_def)
    with \<open>\<forall>q \<in> set qs. deletion_ok w0 q\<close> deletion_runs(2) set_update_subset_insert [of qs k q] show ?thesis by auto
  qed
qed simp

end
