(* ===== verification/Race_Properties.thy ===== *)
theory Race_Properties
  imports Crdb_Properties Memory_Schedules Memory_Deletions
begin

text \<open>
  The properties of requests served at the same time: what holds in every schedule, and what two
  handlers that read first and write later can do to each other.
\<close>

section \<open>Every schedule\<close>



text \<open>C7: However the requests to a server over a CockroachDB store are scheduled, with any options of the
  driver, any engine, faults and broken cursors at any statement, and any notifier: every version of
  the table that it ever commits is a forest with unique identifiers, and a later version keeps every
  row of an earlier one: no directory is removed, moved or created again, and none is revived or
  deleted twice.\<close>

theorem crdb_schedules_keep_history:
  assumes "pool_steps (server_store (crdb_admin t) N retry) uuid_Parse auth (qs0, w0) (qs, w)"
    and "table_ok (rows (db w0))" "past (db w0) = []"
  shows "(\<forall>table \<in> set (rows (db w) # past (db w)). distinct (map DirId table) \<and> tree_ok (table_forest table))
    \<and> sorted_wrt (\<lambda>later earlier. \<forall>d \<in> set earlier. \<exists>e \<in> set later. DirId e = DirId d
          \<and> Parent e = Parent d \<and> CreatedAt e = CreatedAt d
          \<and> (DeletedAt d \<noteq> None \<longrightarrow> DeletedAt e = DeletedAt d)) (rows (db w) # past (db w))"
proof -
  have "history_ok (db w0)" using assms(2,3) by (simp add: history_ok_def)
  with crdb_server_keeps.keeps_pool_steps [OF assms(1)] have "history_ok (db w)" by simp
  then show ?thesis
    by (simp add: history_ok_def table_ok_def table_grows_def row_kept_def list_all_iff)
qed

lemma crdb_chain3:
  "crdb_view (crdb_family chain3 b) = mem_view (family chain3 ())"
  by (rule crdb_view_family) simp

theorem crdb_schedules_keep_history_witness:
  "\<exists>w r. pool_steps (server_store (crdb_admin crdb_example) noop_NewNotifier (attempts 2)) example_Parse (\<lambda>_. None)
        ([], crdb_family chain3 ()) ([Answered r], w)
    \<and> distinct (map DirId (rows (db w))) \<and> tree_ok (table_forest (rows (db w)))"
proof -
  let ?T = "server_store (crdb_admin crdb_example) noop_NewNotifier (attempts 2)"
  obtain w r where steps: "pool_steps ?T example_Parse (\<lambda>_. None) ([], crdb_family chain3 ()) ([Answered r], w)"
    using one_request [of R_createRoot ?T example_Parse "\<lambda>_. None" example_inputs example_request "crdb_family chain3 ()"] by blast
  have "past (db (crdb_family chain3 ())) = []" by (simp add: crdb_family_def)
  from crdb_schedules_keep_history [OF steps crdb_invD(1) [OF crdb_examples(1)] this] steps show ?thesis by auto
qed

section \<open>A creation and the deletion of its parent\<close>

text \<open>C35: Over any directory store, both drivers included: if the parent is deleted between the two calls of
  \<open>createDirectory\<close>, then the deletion is answered with 200 and the creation with 201, and the new
  directory is live below a deleted parent.\<close>

theorem creation_outruns_deletion:
  assumes "directory_store T good view avail" "good w" "\<And>k. avail (inps k)" "\<And>k. avail (inps' k)"
    and "auth req = None" "auth req' = None" "uuid_Parse i = Some u" "live_child (view w) (DirectoryID u)"
    and "req_create req = Inr r" "view w (in_uuid (inps 1)) = None"
  shows "\<exists>w' d resp resp'. pool_steps T uuid_Parse auth
        ([Arrived (R_create i) inps req, Arrived (R_delete i) inps' req'], w) ([answer resp, answer resp'], w')
    \<and> status resp = 201 \<and> status resp' = 200
    \<and> view w' (in_uuid (inps 1)) = Some d \<and> DeletedAt d = None \<and> Parent d = Some (DirectoryID u)
    \<and> (\<exists>e. view w' (DirectoryID u) = Some e \<and> DeletedAt e \<noteq> None)"
  by (rule directory_store.create_outruns_delete [OF assms(1,2), where inps = inps and inps' = inps']) (use assms in simp_all)

theorem creation_outruns_deletion_witness:
  "\<exists>w' d resp resp'. pool_steps (crdb_admin crdb_example) example_Parse (\<lambda>_. None)
        ([Arrived (R_create ''xx'') example_inputs example_request,
          Arrived (R_delete ''xx'') example_inputs example_request], crdb_family chain3 ())
        ([answer resp, answer resp'], w')
    \<and> crdb_view w' (DirectoryID 100) = Some d \<and> DeletedAt d = None \<and> Parent d = Some (member_id 1)
    \<and> (\<exists>e. crdb_view w' (member_id 1) = Some e \<and> DeletedAt e \<noteq> None)"
proof -
  have store: "directory_store (crdb_admin crdb_example) crdb_inv crdb_view sql_avail"
    by (rule cascading_store.axioms(1) [OF crdb_cascading]) simp
  have live: "live_child (crdb_view (crdb_family chain3 ())) (DirectoryID (uuid_of (member_id 1)))"
    by (simp add: crdb_chain3 live_child_def)
  have fresh: "crdb_view (crdb_family chain3 ()) (in_uuid (example_inputs 1)) = None"
    by (simp add: crdb_chain3)
  from creation_outruns_deletion [where auth = "\<lambda>_. None" and uuid_Parse = example_Parse and i = "''xx''" and req = example_request
      and inps = example_inputs and inps' = example_inputs and req' = example_request,
      OF store crdb_examples(1) sql_avail_example sql_avail_example refl refl example_simps(3) live _ fresh]
  show ?thesis by (fastforce simp: example_request_def)
qed

section \<open>Deletions\<close>

text \<open>C8: Over the in-memory driver, whose deletions have no lock, and for any number of deletions and any schedule of
  their accesses to the store: the store keeps its invariant, and all that changes is that directories
  which were live and have a parent are marked as deleted. No root is ever deleted.\<close>

theorem memory_deletions_only_mark:
  assumes "deletion_pool_steps (map (\<lambda>(inp, i). Asked inp i) calls, w0) (qs, w)" "mem_inv w0"
  shows "mem_inv w \<and> (\<forall>i. mem_view w i = mem_view w0 i
    \<or> (\<exists>d t. mem_view w0 i = Some d \<and> DeletedAt d = None \<and> Parent d \<noteq> None
        \<and> mem_view w i = Some (d\<lparr>DeletedAt := Some t\<rparr>)))"
proof -
  have "marked_since w0 w0" using assms(2) by (simp add: marked_since_def only_marks_def)
  moreover have "\<forall>q \<in> set (map (\<lambda>(inp, i). Asked inp i) calls). deletion_ok w0 q" by auto
  ultimately have "marked_since w0 w" using deletion_pool_keeps [OF assms(1), of w0] by simp
  then show ?thesis by (simp add: marked_since_def only_marks_def)
qed

theorem memory_deletions_only_mark_witness:
  "\<exists>w q r. deletion_pool_steps ([Asked (example_inputs 0) (member_id 0), Asked (example_inputs 1) (member_id 1)], family star11 ())
      ([q, Ended r], w)
    \<and> mem_inv w \<and> mem_view w (member_id 0) = Some (member star11 0)"
proof -
  let ?qs = "[Asked (example_inputs 0) (member_id 0), Asked (example_inputs 1) (member_id 1)]"
  obtain w r where "mem_DeleteDirectory (example_inputs 1) (member_id 1) (family star11 ()) = (w, r)" by force
  then have "deletion_pool_steps (?qs, family star11 ()) (?qs[1 := Ended r], w)"
    using deletion_alone [of "family star11 ()" "example_inputs 1" "member_id 1"] unfolding runs_to_def
    by (intro runs_in_pool [where q = "Asked (example_inputs 1) (member_id 1)"]) simp_all
  then have steps: "deletion_pool_steps (map (\<lambda>(inp, i). Asked inp i)
      [(example_inputs 0, member_id 0), (example_inputs 1, member_id 1)], family star11 ())
      ([Asked (example_inputs 0) (member_id 0), Ended r], w)" by simp
  have "mem_view (family star11 ()) (member_id 0) = Some (member star11 0)" "Parent (member star11 0) = None"
    by (simp_all add: mem_view_family)
  with memory_deletions_only_mark [OF steps mem_inv_examples(2)] have "mem_inv w" "mem_view w (member_id 0) = Some (member star11 0)"
    by (metis option.inject)+
  with steps show ?thesis by auto
qed

text \<open>C34: Over the in-memory driver, whose deletions have no lock: a deletion of a directory lists its descendants,
  and a deletion of the first of them runs before the first deletion reaches it. The first deletion
  then fails with an error that the server answers with 404, although it has deleted its
  directory, and another child of that directory stays live below it.\<close>

theorem deletion_fails_after_deleting:
  assumes "mem_inv w" "live_child (mem_view w) i" "mem_GetChildren i [] w = Ok (c # cs)"
    and "d \<in> set cs" "mem_view w d = Some e" "Parent e = Some i"
  shows "\<exists>w' ps err. deletion_pool_steps ([Asked inp i, Asked inp' c], w) ([Ended (Err err), Ended (Ok ps)], w')
    \<and> errors_is err ErrDirectoryNotFound
    \<and> (\<exists>f. mem_view w' i = Some f \<and> DeletedAt f = Some (in_time1 inp))
    \<and> mem_view w' d = Some e \<and> DeletedAt e = None"
proof -
  obtain x where "mem_view w i = Some x" using assms(2) by (auto simp: live_child_def)
  moreover obtain w' ps where o: "deletion_pool_steps ([Asked inp i, Asked inp' c], w)
      ([Ended (Err (ErrWrap ''error getting child'' ErrDirectoryNotFound)), Ended (Ok ps)], w')"
    "mem_view w' i = map_option (DeletedAt_update (\<lambda>_. Some (in_time1 inp))) (mem_view w i)"
    "mem_view w' d = Some e" "DeletedAt e = None"
    using deletion_overtaken [OF assms, of inp inp'] by (elim exE conjE) (rule that)
  ultimately show ?thesis
    by (intro exI [of _ w'] exI [of _ ps] exI [of _ "ErrWrap ''error getting child'' ErrDirectoryNotFound"]) simp
qed

lemma star11_children:
  "\<exists>c cs d e. mem_GetChildren (member_id 1) [] (family star11 b) = Ok (c # cs) \<and> d \<in> set cs
    \<and> mem_view (family star11 b) d = Some e \<and> Parent e = Some (member_id 1)"
proof -
  let ?w = "family star11 b" and ?cs = "children_by_age (family star11 b) (member_id 1)"
  note age = children_by_age_spec [OF mem_inv_examples(2) [of b], of "member_id 1"]
  have "10 < length ?cs" using card_star11 [of b False] age(1) distinct_card [OF age(2)] by simp
  then obtain c d cs where cs: "take 10 ?cs = c # d # cs"
    by (cases ?cs; cases "tl ?cs") (auto simp: take_Suc_conv_app_nth numeral_eq_Suc)
  have "d \<in> set (take 10 ?cs)" using cs by simp
  then have desc: "descends (mem_view ?w) False (member_id 1) d"
    using age(1) set_take_subset [of 10 ?cs] by (auto simp: descendants_def)
  then obtain e where e: "mem_view ?w d = Some e" using descends_visible by blast
  obtain a where a: "a < length star11" "d = member_id a" "e = member star11 a"
    using e by (rule mem_view_family_cases [OF family_ok_examples(2)])
  have "d \<noteq> member_id 1" using desc descends_irrefl [OF mem_invD(2) [OF mem_inv_examples(2) [of b]], of False "member_id 1"] by auto
  then have "a \<noteq> 1" using a(2) by auto
  moreover have "Parent e \<noteq> None" using desc e by (cases rule: descends.cases) auto
  then have "a \<noteq> 0" using a(1,3) by (cases a) simp_all
  ultimately have "1 < a" by simp
  then have "Parent e = Some (member_id 1)" using a by (simp add: star11_def nth_Cons')
  with cs age(3) e show ?thesis by (intro exI [of _ c] exI [of _ "d # cs"] exI [of _ d] exI [of _ e]) simp
qed

theorem deletion_fails_after_deleting_witness:
  "\<exists>w' ps err c d. deletion_pool_steps
      ([Asked (example_inputs 0) (member_id 1), Asked (example_inputs 1) c], family star11 ()) ([Ended (Err err), Ended (Ok ps)], w')
    \<and> errors_is err ErrDirectoryNotFound \<and> (\<exists>f. mem_view w' (member_id 1) = Some f \<and> DeletedAt f \<noteq> None)
    \<and> (\<exists>e. mem_view w' d = Some e \<and> DeletedAt e = None \<and> Parent e = Some (member_id 1))"
proof -
  obtain c cs d e where kids: "mem_GetChildren (member_id 1) [] (family star11 ()) = Ok (c # cs)" "d \<in> set cs"
    "mem_view (family star11 ()) d = Some e" "Parent e = Some (member_id 1)"
    using star11_children [of "()"] by blast
  from deletion_fails_after_deleting [OF mem_inv_examples(2) star11_live kids, of "example_inputs 0" "example_inputs 1"] kids(4)
  show ?thesis by fastforce
qed

section \<open>Two updates\<close>

lemma crdb_read:
  assumes "plain t" "crdb_inv w" "sql_avail inp" "crdb_view w i = Some d" "DeletedAt d = None"
  shows "crdb_GetDirectory t inp i [] w = (snd (alloc d w), Ok (brk w))"
proof -
  have "table_ok (formatQuery t inp (db w))"
    using assms(1) crdb_invD(1) [OF assms(2)] by (simp add: formatQuery_plain)
  from crdb_get [OF plain_engine [OF assms(1)] assms(3) this] assms(4,5) show ?thesis
    by (simp add: formatQuery_plain [OF assms(1)] crdb_view_def visible_def)
qed

lemma crdb_patch:
  assumes "plain t" "crdb_inv w" "sql_avail (inps 1)" "DirId (heap w a) = i" "crdb_view w i = Some d0"
    and "e = (case update_Name r of None \<Rightarrow> heap w a | Some n \<Rightarrow> if n \<noteq> '''' then (heap w a)\<lparr>Name := n\<rparr> else heap w a)"
    and "e' = (case update_Metadata r of None \<Rightarrow> e | Some m \<Rightarrow> e\<lparr>Metadata := Some m\<rparr>)"
  shows "\<exists>w2. apply_update (crdb_admin t) inps r (Some a) w = (w2, Ok (fetch_response 200 (stored_update (inps 1) e')))
    \<and> heap w2 = (heap w)(a := stored_update (inps 1) e') \<and> crdb_inv w2
    \<and> crdb_view w2 = (crdb_view w)(i \<mapsto> d0\<lparr>Name := Name e', Metadata := Metadata (default_metadata e'),
        UpdatedAt := in_time1 (inps 1)\<rparr>)"
proof -
  let ?w = "write_ptr a e' w"
  have e: "DirId e' = i" using assms(4,6,7) by (auto split: option.splits if_splits)
  have w: "heap ?w = (heap w)(a := e')" "crdb_inv ?w" "crdb_view ?w = crdb_view w"
    using assms(2) by (simp_all add: write_ptr_def crdb_inv_def crdb_view_def)
  have "heap ?w a = e'" using w(1) by simp
  then obtain w2 where w2: "crdb_UpdateDirectory t (inps 1) (Some a) ?w = (w2, Ok ())"
    "heap w2 = (heap ?w)(a := stored_update (inps 1) e')" "crdb_inv w2"
    "crdb_view w2 = (crdb_view ?w)(i \<mapsto> d0\<lparr>Name := Name e', Metadata := Metadata (default_metadata e'),
        UpdatedAt := in_time1 (inps 1)\<rparr>)"
    using crdb_update_at [OF assms(1) w(2) assms(3), of a i d0] e assms(5) w(3) by auto
  have twice: "write_ptr a x (write_ptr a y w) = write_ptr a x w" for x y by (simp add: write_ptr_def)
  have same: "write_ptr a (heap w a) w = w" by (simp add: write_ptr_def)
  have "apply_update (crdb_admin t) inps r (Some a) w
      = (let (w, r) = crdb_UpdateDirectory t (inps 1) (Some a) ?w
         in handle (w, r) (\<lambda>w e. (w, Ok (server_error ''failed to update directory'')))
              (\<lambda>w _. (w, Ok (fetch_response 200 (heap w a)))))"
    using assms(6,7) same
    by (cases "update_Name r"; cases "update_Metadata r")
      (auto simp: apply_update_def assign_def Let_def twice heap_write_ptr)
  with w2 w(1,3) show ?thesis by simp
qed

text \<open>C36: Over CockroachDB, two PATCH requests that both read before either writes: the first changes the
  name, the second the metadata; both are answered with 200, and the new name is lost.\<close>

theorem patch_loses_update:
  assumes "plain t" "crdb_inv w" "\<And>k. sql_avail (inps k)" "\<And>k. sql_avail (inps' k)"
    and "auth req = None" "auth req' = None" "uuid_Parse i = Some u"
    and "crdb_view w (DirectoryID u) = Some d" "DeletedAt d = None"
    and "req_update req = Inr r" "update_Name r = Some n" "n \<noteq> ''''" "update_Metadata r = None"
    and "req_update req' = Inr r'" "update_Name r' = None" "update_Metadata r' = Some m"
  shows "\<exists>w' f f'. pool_steps (crdb_admin t) uuid_Parse auth
        ([Arrived (R_update i) inps req, Arrived (R_update i) inps' req'], w)
        ([answer (fetch_response 200 f), answer (fetch_response 200 f')], w')
    \<and> Name f = n \<and> Name f' = Name d
    \<and> crdb_view w' (DirectoryID u) = Some (d\<lparr>Metadata := Some m, UpdatedAt := in_time1 (inps' 1)\<rparr>)"
proof -
  let ?T = "crdb_admin t" and ?i = "DirectoryID u"
  have id: "DirId d = ?i" using tree_ok_id [OF crdb_invD(2) [OF assms(2)] assms(8)] .
  let ?w1 = "snd (alloc d w)" and ?a = "brk w"
  let ?w2 = "snd (alloc d ?w1)" and ?b = "brk ?w1"
  have w1: "crdb_inv ?w1" "crdb_view ?w1 = crdb_view w" "heap ?w1 ?a = d" "?a \<noteq> ?b"
    using assms(2) by (simp_all add: alloc_def crdb_inv_def crdb_view_def)
  have w2: "crdb_inv ?w2" "crdb_view ?w2 = crdb_view w" "heap ?w2 ?a = d" "heap ?w2 ?b = d"
    using assms(2) by (simp_all add: alloc_def crdb_inv_def crdb_view_def)
  have read1: "pending_step ?T uuid_Parse auth (Arrived (R_update i) inps req) w = (?w1, Patching inps r (Some ?a))"
    using crdb_read [OF assms(1,2) assms(3) assms(8,9)] assms(5,10)
    by (simp add: update_read_def ParseDirectoryID_Some [of uuid_Parse, OF assms(7)] crdb_admin_def)
  have read2: "pending_step ?T uuid_Parse auth (Arrived (R_update i) inps' req') ?w1 = (?w2, Patching inps' r' (Some ?b))"
    using crdb_read [OF assms(1) w1(1) assms(4), of ?i d] w1(2) assms(6,8,9,14)
    by (simp add: update_read_def ParseDirectoryID_Some [of uuid_Parse, OF assms(7)] crdb_admin_def)
  let ?f = "stored_update (inps 1) (d\<lparr>Name := n\<rparr>)"
  obtain w3 where w3: "apply_update ?T inps r (Some ?a) ?w2 = (w3, Ok (fetch_response 200 ?f))"
    "heap w3 = (heap ?w2)(?a := ?f)" "crdb_inv w3"
    "crdb_view w3 = (crdb_view w)(?i \<mapsto> d\<lparr>Name := n, Metadata := Metadata (default_metadata d),
        UpdatedAt := in_time1 (inps 1)\<rparr>)"
    using crdb_patch [OF assms(1) w2(1), where inps = inps, OF assms(3) [of 1], of ?a ?i d "d\<lparr>Name := n\<rparr>" r "d\<lparr>Name := n\<rparr>"] w2(2,3) id assms(8,11-13)
    by (auto simp: default_metadata_def)
  let ?f' = "stored_update (inps' 1) (d\<lparr>Metadata := Some m\<rparr>)"
  have b: "heap w3 ?b = d" using w3(2) w2(4) w1(4) by simp
  obtain w4 where w4: "apply_update ?T inps' r' (Some ?b) w3 = (w4, Ok (fetch_response 200 ?f'))"
    "crdb_view w4 = (crdb_view w3)(?i \<mapsto> d\<lparr>Name := Name d, Metadata := Some m, UpdatedAt := in_time1 (inps' 1)\<rparr>)"
    using crdb_patch [OF assms(1) w3(3), where inps = inps', OF assms(4) [of 1], of ?b ?i _ d r' "d\<lparr>Metadata := Some m\<rparr>"] b w3(4) id assms(15,16)
    by (fastforce simp: default_metadata_def)
  have "pool_steps ?T uuid_Parse auth ([Arrived (R_update i) inps req, Arrived (R_update i) inps' req'], w)
      ([answer (fetch_response 200 ?f), answer (fetch_response 200 ?f')], w4)"
  proof -
    have write1: "pending_step ?T uuid_Parse auth (Patching inps r (Some ?a)) ?w2 = (w3, answer (fetch_response 200 ?f))"
      using w3(1) by simp
    have write2: "pending_step ?T uuid_Parse auth (Patching inps' r' (Some ?b)) w3 = (w4, answer (fetch_response 200 ?f'))"
      using w4(1) by simp
    show ?thesis
      by (rule second_runs [OF first_runs [OF second_runs [OF first_runs
            [OF rtranclp.rtrancl_refl read1] read2] write1] write2])
  qed
  with w4(2) show ?thesis
    by (intro exI [of _ w4] exI [of _ ?f] exI [of _ ?f']) (simp add: stored_update_def default_metadata_def)
qed

theorem patch_loses_update_witness:
  "\<exists>w' f f'. pool_steps (crdb_admin crdb_example) example_Parse (\<lambda>_. None)
        ([Arrived (R_update ''xx'') example_inputs example_request,
          Arrived (R_update ''xx'') example_inputs
            (example_request\<lparr>req_update := Inr \<lparr>update_Metadata = Some fmempty, update_Name = None, update_Version = ''v1''\<rparr>\<rparr>)],
          crdb_family chain3 ())
        ([answer (fetch_response 200 f), answer (fetch_response 200 f')], w')
    \<and> Name f = ''papers'' \<and> map_option Name (crdb_view w' (member_id 1)) = Some (Name (member chain3 1))"
proof -
  let ?req = "example_request\<lparr>req_update := Inr \<lparr>update_Metadata = Some fmempty, update_Name = None, update_Version = ''v1''\<rparr>\<rparr>"
  have d: "crdb_view (crdb_family chain3 ()) (DirectoryID (uuid_of (member_id 1))) = Some (member chain3 1)"
    by (simp add: crdb_chain3)
  from patch_loses_update [where auth = "\<lambda>_. None" and uuid_Parse = example_Parse and i = "''xx''" and req = example_request
      and inps = example_inputs and inps' = example_inputs and req' = ?req and n = "''papers''" and m = fmempty,
      OF plain_example crdb_examples(1) sql_avail_example sql_avail_example refl refl example_simps(3) d]
  show ?thesis by fastforce
qed

end
