(* ===== verification/Configuration_Properties.thy ===== *)
theory Configuration_Properties
  imports Configuration Command_Properties Race_Properties
begin

text \<open>
  The properties of the configuration: what flags and environment variables of the commands have for
  an effect on what the commands do.
\<close>

section \<open>Names of the environment\<close>

lemma env_names:
  "env_name initConfig ''nats.creds'' = ''FERTILESOIL_NATS_CREDS''"
  "env_name initConfig ''nats.nkey'' = ''FERTILESOIL_NATS_NKEY''"
  "env_name initConfig ''server.trusted-proxies'' = ''FERTILESOIL_SERVER_TRUSTED_PROXIES''"
  by code_simp+

lemma own_env_names_distinct:
  "distinct (map (env_name initConfig \<circ> fst) (storage_flags @ nats_flags @ server_flags))"
  by code_simp

lemma set_by_env_None: "environ (env_name e key) = None \<Longrightarrow> set_by_env e environ key = None"
  by (simp add: set_by_env_def)

lemma serve_flags_in:
  "set nats_flags \<subseteq> set (serve_flags L)" "set storage_flags \<subseteq> set (serve_flags L)"
  "set server_flags \<subseteq> set (serve_flags L)" "set (crdbx_flags L) \<subseteq> set (serve_flags L)"
  by (auto simp: serve_flags_def)

section \<open>Tables for the witnesses\<close>

definition example_flags :: flag_libs where
  "example_flags = \<lparr>
     crdbx_flags = [(''crdb.host'', ''crdb-host'', StringFlag ''localhost'')],
     ginx_flags = (\<lambda>listen. [(''server.listen'', ''listen'', StringFlag listen)]),
     ginjwt_flags = [(''oidc.enabled'', ''oidc'', BoolFlag True)],
     loggingx_flags = [(''debug'', ''debug'', BoolFlag False)]\<rparr>"

definition example_registry :: registry where
  "example_registry = \<lparr>
     flagset = (\<lambda>c. case c of MigrateCmd \<Rightarrow> map snd (crdbx_flags example_flags) | ServeCmd \<Rightarrow> map snd (serve_flags example_flags)),
     pflags = bindings (crdbx_flags example_flags) MigrateCmd ++ bindings (serve_flags example_flags) ServeCmd\<rparr>"

lemma example_flags_ok: "flags_ok (serve_flags example_flags)"
  by code_simp

lemma example_init: "cmd_init example_flags = Ok example_registry"
  unfolding example_registry_def by (rule cmd_init_Ok [OF example_flags_ok])

definition example_configuration :: "command \<Rightarrow> (string \<times> flag_value) list \<Rightarrow> viper" where
  "example_configuration c set_flags =
     viper_of (key_value example_registry initConfig \<lparr>invoked = c, given = map_of set_flags\<rparr> (\<lambda>_. None))"

lemma example_reads: "reads_configuration example_registry initConfig \<lparr>invoked = c, given = map_of set_flags\<rparr> (\<lambda>_. None)
    (example_configuration c set_flags)"
  unfolding example_configuration_def by (rule viper_of_reads)

section \<open>migrate\<close>



section \<open>serve\<close>

text \<open>C30: Without credentials for NATS, on the command line or in the environment, \<open>serve\<close> never starts its
  server; unless a signal kills it, it ends with status 1.\<close>

theorem serve_needs_credentials:
  assumes "flags_ok (serve_flags F)" "cmd_init F = Ok r" "reads_configuration r initConfig call environ v"
    and "given call ''nats-creds'' = None" "given call ''nats-nkey'' = None"
    and "environ ''FERTILESOIL_NATS_CREDS'' = None" "environ ''FERTILESOIL_NATS_NKEY'' = None"
    and "serve_reachable L v p0 s"
  shows "runner s = NotStarted \<and> (\<forall>f. main s \<noteq> Selecting f \<and> main s \<noteq> ShuttingDown f)
    \<and> (\<forall>x. main s = Over x \<longrightarrow> x = Killed \<or> exit_status x = Some 1)"
proof -
  have no: "GetString v ''nats.creds'' = ''''" "GetString v ''nats.nkey'' = ''''"
    using reads_default [OF assms(1,2) subsetD [OF serve_flags_in(1)] assms(3),
        of "''nats.creds''" "''nats-creds''" "StringFlag ''''"]
      reads_default [OF assms(1,2) subsetD [OF serve_flags_in(1)] assms(3),
        of "''nats.nkey''" "''nats-nkey''" "StringFlag ''''"] assms(4-7)
    by (simp_all add: nats_flags_def viper_holds_def set_by_env_None env_names)
  then have "BuildNATSConnFromArgs (NkeyOptionFromSeed L) (nats_Connect L) v
      = Inl (ErrText ''nats: nats-nkey or nats-creds must be provided'')"
    by (simp add: BuildNATSConnFromArgs_def)
  then have refused: "\<exists>e. main (serve_opened L v ds d a s) = Over (Finished (Some e))
      \<and> runner (serve_opened L v ds d a s) = runner s" for ds d a s
    by (cases a) (simp_all add: serve_opened_def leave_def Let_def)
  from assms(8) show ?thesis
  proof (induction rule: serve_reachable.induct)
    case begins
    then show ?case by (simp add: serve_begin_def serve_state_of_def Let_def split: sum.split)
  next
    case (steps s s')
    from steps(2) show ?case
    proof (cases rule: serve_step.cases)
      case (opened ds d a)
      with refused [of ds d a s] steps(3) show ?thesis by auto
    qed (use steps(3) in simp_all)
  next
    case (happens s s')
    from happens(2,3) show ?case by (auto elim!: serve_envE)
  qed
qed

theorem serve_needs_credentials_witness:
  "\<exists>s x. serve_reachable (example_libs True) (example_configuration ServeCmd [(''read-only'', BoolFlag True)]) new_process s
    \<and> main s = Over x \<and> exit_status x = Some 1 \<and> runner s = NotStarted"
proof -
  let ?L = "example_libs True" and ?v = "example_configuration ServeCmd [(''read-only'', BoolFlag True)]"
  let ?s = "serve_begin ?L ?v new_process"
  obtain ds d where main: "main ?s = OpeningLog ds d"
    by (simp add: serve_begin_def GetDBConnection_def example_libs_def serve_state_of_def Let_def)
  let ?t = "serve_opened ?L ?v ds d (Inr 3) ?s"
  have "serve_step ?L ?v ?s ?t" using main by (rule serve_step.opened) (simp add: example_libs_def)
  with serve_reachable.begins have r: "serve_reachable ?L ?v new_process ?t" by (rule serve_reachable.steps)
  have none: "GetString ?v ''nats.creds'' = ''''" "GetString ?v ''nats.nkey'' = ''''" by code_simp+
  obtain x where x: "main ?t = Over x" "x \<noteq> Killed"
    by (simp add: serve_opened_def BuildNATSConnFromArgs_def none leave_def Let_def)
  with serve_needs_credentials [OF example_flags_ok example_init example_reads _ _ _ _ r] r show ?thesis by force
qed

section \<open>A read-only server\<close>

text \<open>What a read-only driver does to the table: it marks rows as deleted, and nothing else.\<close>

definition row_marked :: "directory \<Rightarrow> directory \<Rightarrow> bool" where
  "row_marked d e \<longleftrightarrow> e = d \<or> DeletedAt d = None \<and> (\<exists>t. e = d\<lparr>DeletedAt := Some t\<rparr>)"

definition only_marked :: "directory list \<Rightarrow> crdb_state \<Rightarrow> bool" where
  "only_marked table s \<longleftrightarrow> list_all2 row_marked table (rows s)"

lemma only_marked_refl: "only_marked (rows s) s"
  by (simp add: only_marked_def row_marked_def list.rel_refl)

lemma only_marked_delete:
  assumes "only_marked table (db w)"
  shows "only_marked table (db (commit (map (\<lambda>d. if DeletedAt d = None \<and> P d then d\<lparr>DeletedAt := Some now\<rparr> else d)
    (rows (db w))) w))"
proof -
  have step: "row_marked d (if DeletedAt e = None \<and> P e then e\<lparr>DeletedAt := Some now\<rparr> else e)" if "row_marked d e" for d e
    using that by (auto simp: row_marked_def)
  from assms have "list_all2 row_marked table (rows (db w))" by (simp add: only_marked_def)
  then have "list_all2 row_marked table (map (\<lambda>d. if DeletedAt d = None \<and> P d then d\<lparr>DeletedAt := Some now\<rparr> else d) (rows (db w)))"
    unfolding list_all2_map2 by (rule list_all2_mono) (rule step)
  then show ?thesis by (simp add: only_marked_def commit_def)
qed

lemma read_only_keeping:
  assumes "readOnly t"
  shows "keeping_store (crdb_admin t) (only_marked table)"
proof
  show "leaves (only_marked table) (GetDirectory (crdb_admin t) inp i options w)" if "only_marked table (db w)"
    for w :: "'b crdb_world" and inp i options
    using that by (auto simp: crdb_admin_def crdb_GetDirectory_def Let_def leaves_def alloc_def split: sum.split)
  show "leaves (only_marked table) (DeleteDirectory (crdb_admin t) inp i w)" if "only_marked table (db w)"
    for w :: "'b crdb_world" and inp i
    using that only_marked_delete [OF that]
    by (simp add: crdb_admin_def crdb_DeleteDirectory_def Let_def leaves_def db_affected_loop split: option.split)
qed (use assms in \<open>simp_all add: crdb_admin_def leaves_at crdb_CreateRoot_def crdb_CreateDirectory_def
    crdb_UpdateDirectory_def\<close>)

text \<open>C28: With \<open>--read-only\<close> on the command line of \<open>serve\<close>, whatever the environment says, and however requests
  are scheduled, with any notifier, engine and faults: the table keeps its rows, in their order,
  with every column as it was, but for deletion marks that rows without one may get.\<close>

theorem read_only_flag_protects_rows:
  assumes "flags_ok (serve_flags F)" "cmd_init F = Ok r" "reads_configuration r initConfig call environ v"
    and "invoked call = ServeCmd" "given call ''read-only'' = Some (BoolFlag True)"
    and "pool_steps (server_store (crdb_admin (crdb_NewDirectoryDriver eng (WithStorageOptions (GetBool v)))) N retry)
           uuid_Parse auth (qs0, w0) (qs, w)"
  shows "list_all2 (\<lambda>d e. e = d \<or> DeletedAt d = None \<and> (\<exists>t. e = d\<lparr>DeletedAt := Some t\<rparr>)) (rows (db w0)) (rows (db w))"
proof -
  let ?t = "crdb_NewDirectoryDriver eng (WithStorageOptions (GetBool v))"
  have "GetBool v ''storage.read_only''"
    using reads_given [OF assms(1,2) subsetD [OF serve_flags_in(2)] assms(3-5), of "''storage.read_only''" "BoolFlag False"]
    by (simp add: storage_flags_def viper_holds_def)
  then have "readOnly ?t" by (simp add: crdb_NewDirectoryDriver_def WithStorageOptions_def WithReadOnly_def WithFastReads_def)
  then have "keeping_store (notifying (crdb_admin ?t) N retry) (only_marked (rows (db w0)))"
    by (intro keeping_notified read_only_keeping)
  from keeping_store.keeps_pool_steps [OF this assms(6) [unfolded server_store_def StorageWithNotifier_retrier]]
  have "only_marked (rows (db w0)) (db w)" by (simp add: only_marked_refl)
  then show ?thesis by (simp add: only_marked_def row_marked_def [abs_def])
qed

theorem read_only_flag_protects_rows_witness:
  "\<exists>w r. pool_steps (server_store (crdb_admin (crdb_NewDirectoryDriver (index_scan by_id) (WithStorageOptions
        (GetBool (example_configuration ServeCmd [(''read-only'', BoolFlag True)]))))) noop_NewNotifier (attempts 2))
      example_Parse (\<lambda>_. None) ([], crdb_family star11 ()) ([Answered r], w)
    \<and> map Name (rows (db w)) = map Name (rows (db (crdb_family star11 ())))"
proof -
  let ?T = "server_store (crdb_admin (crdb_NewDirectoryDriver (index_scan by_id) (WithStorageOptions
        (GetBool (example_configuration ServeCmd [(''read-only'', BoolFlag True)]))))) noop_NewNotifier (attempts 2)"
  obtain w r where steps: "pool_steps ?T example_Parse (\<lambda>_. None) ([], crdb_family star11 ()) ([Answered r], w)"
    using one_request [of "R_delete ''xx''" ?T example_Parse "\<lambda>_. None" example_inputs example_request "crdb_family star11 ()"] by blast
  from read_only_flag_protects_rows [OF example_flags_ok example_init example_reads _ _ steps]
  have "list_all2 (\<lambda>d e. e = d \<or> DeletedAt d = None \<and> (\<exists>t. e = d\<lparr>DeletedAt := Some t\<rparr>))
    (rows (db (crdb_family star11 ()))) (rows (db w))" by simp
  then have "list_all2 (\<lambda>d e. Name e = Name d) (rows (db (crdb_family star11 ()))) (rows (db w))"
    by (rule list_all2_mono) auto
  then have "map Name (rows (db w)) = map Name (rows (db (crdb_family star11 ())))"
    by (simp add: list_eq_iff_nth_eq list_all2_conv_all_nth)
  with steps show ?thesis by blast
qed

end
